(* ===== verification/Orb_Prelude.thy ===== *)
theory Orb_Prelude
  imports Main
begin

text \<open>
  Shared vocabulary of the Orb development: the names of the model's basic types, the Go
  integer operations the code relies on (truncating division and remainder, 64-bit
  wrap-around of \<open>int\<close>), and generic lemmas on lists and options that the component
  theories use through the \<open>go_simps\<close> collection.
\<close>

named_theorems go_simps "rewrite rules for the Go integer operations of the model"

type_synonym iri = string
type_synonym key = string

subsection \<open>Go integers\<close>

text \<open>
  Go's \<open>/\<close> and \<open>%\<close> on \<open>int\<close> truncate towards zero, unlike HOL's \<open>div\<close> and
  \<open>mod\<close>. Go's \<open>int\<close> is 64 bits wide on the platforms Orb targets and its arithmetic wraps.
\<close>

definition go_div :: "int \<Rightarrow> int \<Rightarrow> int" where
  "go_div a b = sgn a * sgn b * (\<bar>a\<bar> div \<bar>b\<bar>)"

definition go_mod :: "int \<Rightarrow> int \<Rightarrow> int" where
  "go_mod a b = a - b * go_div a b"

definition wrap64 :: "int \<Rightarrow> int" where
  "wrap64 x = (x + 2 ^ 63) mod 2 ^ 64 - 2 ^ 63"

subsection \<open>Errors\<close>

text \<open>
  Go errors as values: a leaf error with its message, an error wrapped with context by
  \<open>fmt.Errorf("ctx: %w", err)\<close>, and a run-time panic (which the model records as a
  value instead of aborting).
\<close>

datatype go_error = Err string | Wrap string go_error | Panic string

text \<open>\<open>errors.Is\<close>: the error itself or any error it wraps is the target.\<close>

fun errors_is :: "go_error \<Rightarrow> go_error \<Rightarrow> bool" where
  "errors_is (Wrap m e) t = (Wrap m e = t \<or> errors_is e t)"
| "errors_is e t = (e = t)"

text \<open>\<open>err.Error()\<close>: a wrapped error prints its context, a colon and the wrapped error.\<close>

fun error_string :: "go_error \<Rightarrow> string" where
  "error_string (Err m) = m"
| "error_string (Wrap m e) = m @ '': '' @ error_string e"
| "error_string (Panic m) = m"

subsection \<open>Lemmas\<close>

lemma go_div_nonneg [go_simps]:
  "0 \<le> a \<Longrightarrow> 0 < b \<Longrightarrow> go_div a b = a div b"
  by (cases "a = 0") (simp_all add: go_div_def)

lemma go_mod_nonneg [go_simps]:
  "0 \<le> a \<Longrightarrow> 0 < b \<Longrightarrow> go_mod a b = a mod b"
  by (simp add: go_mod_def go_div_nonneg minus_div_mult_eq_mod [symmetric] mult.commute)

lemma wrap64_id [go_simps]:
  "- (2 ^ 63) \<le> x \<Longrightarrow> x < 2 ^ 63 \<Longrightarrow> wrap64 x = x"
  by (simp add: wrap64_def)

lemma wrap64_nonneg_id [go_simps]:
  "0 \<le> x \<Longrightarrow> x < 2 ^ 63 \<Longrightarrow> wrap64 x = x"
  by (simp add: wrap64_def)

lemma wrap64_range: "- (2 ^ 63) \<le> wrap64 x \<and> wrap64 x < 2 ^ 63"
  by (simp add: wrap64_def)

lemma map_sum_eq_Inr [simp]: "map_sum f g x = Inr y \<longleftrightarrow> (\<exists>z. x = Inr z \<and> y = g z)"
  by (cases x) auto

end
