(* ===== verification/Lifecycle.thy ===== *)
theory Lifecycle
  imports Orb_Prelude
begin

text \<open>
  The lifecycle controller (\<open>pkg/lifecycle\<close>, not part of the sources under \<open>src/\<close>;
  modelled from the specification, section 4.1). It holds a state and counts how often its
  start and stop hooks ran. \<open>Start\<close> and \<open>Stop\<close> are idempotent and each hook runs at
  most once; operations that need a started service fail with \<open>ErrNotStarted\<close>.
\<close>

datatype lc_state = StateNotStarted | StateStarted | StateStopping | StateStopped

record lifecycle =
  lc_state :: lc_state
  start_hooks :: nat
  stop_hooks :: nat

definition lc_new :: lifecycle where
  "lc_new = \<lparr>lc_state = StateNotStarted, start_hooks = 0, stop_hooks = 0\<rparr>"

definition lc_start :: "lifecycle \<Rightarrow> lifecycle" where
  "lc_start l =
     (if lc_state l = StateNotStarted
      then l\<lparr>lc_state := StateStarted, start_hooks := Suc (start_hooks l)\<rparr> else l)"

text \<open>\<open>Stop\<close> passes through \<open>StateStopping\<close> while the stop hook runs.\<close>

definition lc_stop_begin :: "lifecycle \<Rightarrow> lifecycle" where
  "lc_stop_begin l =
     (if lc_state l = StateStarted
      then l\<lparr>lc_state := StateStopping, stop_hooks := Suc (stop_hooks l)\<rparr> else l)"

definition lc_stop_end :: "lifecycle \<Rightarrow> lifecycle" where
  "lc_stop_end l = (if lc_state l = StateStopping then l\<lparr>lc_state := StateStopped\<rparr> else l)"

definition lc_stop :: "lifecycle \<Rightarrow> lifecycle" where
  "lc_stop l = lc_stop_end (lc_stop_begin l)"

definition err_not_started :: go_error where
  "err_not_started = Err ''service has not started''"

definition lc_require_started :: "lifecycle \<Rightarrow> go_error + unit" where
  "lc_require_started l = (if lc_state l = StateStarted then Inr () else Inl err_not_started)"

datatype lc_op = OpStart | OpStop

fun lc_apply :: "lifecycle \<Rightarrow> lc_op \<Rightarrow> lifecycle" where
  "lc_apply l OpStart = lc_start l"
| "lc_apply l OpStop = lc_stop l"

definition lc_run :: "lifecycle \<Rightarrow> lc_op list \<Rightarrow> lifecycle" where
  "lc_run l ops = foldl lc_apply l ops"

text \<open>
  The controller's invariant: each hook ran at most once, the start hook exactly when the
  controller has left \<open>NotStarted\<close>, the stop hook exactly when it has reached
  \<open>Stopping\<close> or \<open>Stopped\<close>.
\<close>

definition lc_inv :: "lifecycle \<Rightarrow> bool" where
  "lc_inv l \<longleftrightarrow>
     start_hooks l = (if lc_state l = StateNotStarted then 0 else 1) \<and>
     stop_hooks l = (if lc_state l \<in> {StateStopping, StateStopped} then 1 else 0)"

section \<open>Lemmas\<close>

lemma lc_start_idem: "lc_start (lc_start l) = lc_start l"
  by (simp add: lc_start_def)

lemma lc_stop_idem: "lc_stop (lc_stop l) = lc_stop l"
  by (simp add: lc_stop_def lc_stop_begin_def lc_stop_end_def)

lemma lc_inv_new: "lc_inv lc_new"
  by (simp add: lc_inv_def lc_new_def)

lemma lc_inv_apply: "lc_inv l \<Longrightarrow> lc_inv (lc_apply l op)"
  by (cases op) (auto simp: lc_inv_def lc_start_def lc_stop_def lc_stop_begin_def lc_stop_end_def)

lemma lc_inv_run: "lc_inv l \<Longrightarrow> lc_inv (lc_run l ops)"
  by (induction ops arbitrary: l) (simp_all add: lc_run_def lc_inv_apply)

lemma lc_run_not_stopping: "lc_state l \<noteq> StateStopping \<Longrightarrow> lc_state (lc_run l ops) \<noteq> StateStopping"
proof (induction ops arbitrary: l)
  case (Cons op ops)
  have "lc_state (lc_apply l op) \<noteq> StateStopping"
    using Cons.prems
    by (cases op) (auto simp: lc_start_def lc_stop_def lc_stop_begin_def lc_stop_end_def)
  then show ?case using Cons.IH by (simp add: lc_run_def)
qed (simp add: lc_run_def)

text \<open>
  From a new controller, any sequence of \<open>Start\<close> and \<open>Stop\<close> calls runs each hook at
  most once, and the stop hook only after the start hook.
\<close>

lemma lc_hooks_at_most_once:
  "start_hooks (lc_run lc_new ops) \<le> 1 \<and> stop_hooks (lc_run lc_new ops) \<le> start_hooks (lc_run lc_new ops)"
  using lc_inv_run [OF lc_inv_new, of ops] by (auto simp: lc_inv_def)

end
