(* ===== verification/HttpSubscriber.thy ===== *)
theory HttpSubscriber
  imports Orb_Prelude Lifecycle
begin

text \<open>
  The HTTP subscriber (\<open>pkg/activitypub/service/httpsubscriber\<close>, source file
  \<open>src/unnamed/part_003\<close>). A POST handler authenticates a request (bearer token, else
  HTTP signature), unmarshals it into a message, hands it to the buffered channel
  \<open>pubChan\<close> and waits for the consumer's ack or nack; a publisher goroutine moves messages
  from \<open>pubChan\<close> to \<open>msgChan\<close>, which the consumer reads; \<open>stop\<close> closes \<open>stopped\<close>,
  waits for the publisher to close \<open>done\<close> and only then closes \<open>msgChan\<close>.

  The sequential part of a request (authentication and unmarshalling) is the function
  \<open>handle_prelude\<close>. The goroutines (request handlers, publisher, stop hook, consumer)
  are the rules of the step relation \<open>sub_step\<close>; channel identities are the request
  numbers of the handlers that created the messages.
\<close>

section \<open>Data\<close>

record subscriber_cfg =
  service_endpoint :: string
  buffer_size :: int

record message =
  msg_uuid :: string
  msg_payload :: string
  msg_metadata :: "string \<rightharpoonup> string"

text \<open>
  What the handler learns about a request through its collaborators: the bearer token it
  presents, the result of \<open>signatureVerifier.VerifyRequest\<close> (an error, or whether the
  signature verified and the signing actor) and the result of \<open>unmarshalMessage\<close>.
\<close>

record http_request =
  req_bearer :: "string option"
  req_sig :: "go_error + bool \<times> iri option"
  req_body :: "go_error + message"

type_synonym http_status = nat

definition actor_iri_key :: string where
  "actor_iri_key = ''actor-iri''"

definition default_buffer_size :: int where
  "default_buffer_size = 100"

section \<open>Authentication and unmarshalling\<close>

text \<open>
  \<open>auth.TokenVerifier.Verify\<close> (outside \<open>src/\<close>, modelled from the specification,
  section 4.4): the request is accepted when the token manager requires no token for the
  endpoint, or the bearer token is one of the required ones; an error of the token manager
  rejects it.
\<close>

fun token_verify :: "go_error + string list \<Rightarrow> string option \<Rightarrow> bool" where
  "token_verify (Inl _) _ = False"
| "token_verify (Inr toks) bearer =
     (toks = [] \<or> (case bearer of None \<Rightarrow> False | Some t \<Rightarrow> t \<in> set toks))"

text \<open>
  The authentication cascade of \<open>handleMessage\<close>: \<open>Inl\<close> of the status written on
  failure, \<open>Inr\<close> of the actor IRI (\<open>None\<close> when the token sufficed).
\<close>

definition authenticate :: "go_error + string list \<Rightarrow> http_request \<Rightarrow> http_status + iri option" where
  "authenticate toks r =
     (if token_verify toks (req_bearer r) then Inr None
      else (case req_sig r of
              Inl _ \<Rightarrow> Inl 500
            | Inr (verified, actor) \<Rightarrow> if \<not> verified then Inl 401 else Inr actor))"

definition handle_prelude :: "go_error + string list \<Rightarrow> http_request \<Rightarrow> http_status + message" where
  "handle_prelude toks r =
     (case authenticate toks r of
        Inl st \<Rightarrow> Inl st
      | Inr actor \<Rightarrow>
          (case req_body r of
             Inl _ \<Rightarrow> Inl 400
           | Inr msg \<Rightarrow>
               Inr (case actor of
                      None \<Rightarrow> msg
                    | Some a \<Rightarrow> msg\<lparr>msg_metadata := (msg_metadata msg)(actor_iri_key \<mapsto> a)\<rparr>)))"

section \<open>The concurrent subscriber\<close>

text \<open>
  A request handler is at one of four points: about to call \<open>publish\<close> (which reads the
  lifecycle state), blocked on the send to \<open>pubChan\<close>, waiting in \<open>respond\<close>, or done
  with the status it wrote.
\<close>

datatype handler_pc =
    HPublish message
  | HEnqueue message
  | HRespond message
  | HDone http_status

datatype publisher_pc = PubLoop | PubSending nat | PubExited

datatype ack = Acked | Nacked

text \<open>
  The subscriber's state. \<open>enqueued\<close> and \<open>consumed\<close> are history variables: the order
  of the writes to \<open>pubChan\<close> and of the consumer's reads from \<open>msgChan\<close>;
  \<open>panicked\<close> records a send on the closed \<open>msgChan\<close>.
\<close>

record sub_state =
  sub_lc :: lc_state
  buf :: nat
  pub_chan :: "nat list"
  msg_chan :: "nat list"
  stopped_closed :: bool
  done_closed :: bool
  msg_closed :: bool
  publisher :: publisher_pc
  handlers :: "nat \<rightharpoonup> handler_pc"
  acks :: "nat \<rightharpoonup> ack"
  enqueued :: "nat list"
  consumed :: "nat list"
  panicked :: bool

text \<open>
  \<open>New\<close>: a zero buffer size means the default; \<open>make(chan, n)\<close> with a negative
  \<open>n\<close> panics. \<open>New\<close> then starts the lifecycle, whose start hook launches the
  publisher goroutine.
\<close>

definition sub_new :: "subscriber_cfg \<Rightarrow> go_error + sub_state" where
  "sub_new cfg =
     (let n = (if buffer_size cfg = 0 then default_buffer_size else buffer_size cfg)
      in if n < 0 then Inl (Panic ''makechan: size out of range'')
         else Inr \<lparr>sub_lc = StateStarted, buf = nat n, pub_chan = [], msg_chan = [],
                   stopped_closed = False, done_closed = False, msg_closed = False,
                   publisher = PubLoop, handlers = Map.empty, acks = Map.empty,
                   enqueued = [], consumed = [], panicked = False\<rparr>)"

fun in_flight :: "publisher_pc \<Rightarrow> nat list" where
  "in_flight (PubSending x) = [x]"
| "in_flight _ = []"

text \<open>
  One rule per action of a goroutine. The Go \<open>select\<close> statements become several rules
  whose guards may hold together; the scheduler picks any of them.
\<close>

inductive sub_step :: "go_error + string list \<Rightarrow> sub_state \<Rightarrow> sub_state \<Rightarrow> bool" for toks where
  request:
    "handlers s h = None \<Longrightarrow>
     sub_step toks s (s\<lparr>handlers := (handlers s)(h \<mapsto>
        (case handle_prelude toks r of Inl st \<Rightarrow> HDone st | Inr m \<Rightarrow> HPublish m))\<rparr>)"
| publish_ok:
    "handlers s h = Some (HPublish m) \<Longrightarrow> sub_lc s = StateStarted \<Longrightarrow>
     sub_step toks s (s\<lparr>handlers := (handlers s)(h \<mapsto> HEnqueue m)\<rparr>)"
| publish_not_started:
    "handlers s h = Some (HPublish m) \<Longrightarrow> sub_lc s \<noteq> StateStarted \<Longrightarrow>
     sub_step toks s (s\<lparr>handlers := (handlers s)(h \<mapsto> HDone 503)\<rparr>)"
| enqueue:
    "handlers s h = Some (HEnqueue m) \<Longrightarrow> length (pub_chan s) < buf s \<Longrightarrow>
     sub_step toks s (s\<lparr>pub_chan := pub_chan s @ [h], enqueued := enqueued s @ [h],
                        handlers := (handlers s)(h \<mapsto> HRespond m)\<rparr>)"
| respond_ack:
    "handlers s h = Some (HRespond m) \<Longrightarrow> acks s h = Some Acked \<Longrightarrow>
     sub_step toks s (s\<lparr>handlers := (handlers s)(h \<mapsto> HDone 200)\<rparr>)"
| respond_nack:
    "handlers s h = Some (HRespond m) \<Longrightarrow> acks s h = Some Nacked \<Longrightarrow>
     sub_step toks s (s\<lparr>handlers := (handlers s)(h \<mapsto> HDone 500)\<rparr>)"
| respond_cancel:
    "handlers s h = Some (HRespond m) \<Longrightarrow>
     sub_step toks s (s\<lparr>handlers := (handlers s)(h \<mapsto> HDone 500)\<rparr>)"
| respond_stopped:
    "handlers s h = Some (HRespond m) \<Longrightarrow> stopped_closed s \<Longrightarrow>
     sub_step toks s (s\<lparr>handlers := (handlers s)(h \<mapsto> HDone 503)\<rparr>)"
| pub_receive:
    "publisher s = PubLoop \<Longrightarrow> pub_chan s = x # xs \<Longrightarrow>
     sub_step toks s (s\<lparr>pub_chan := xs, publisher := PubSending x\<rparr>)"
| pub_deliver:
    "publisher s = PubSending x \<Longrightarrow> \<not> msg_closed s \<Longrightarrow> length (msg_chan s) < buf s \<Longrightarrow>
     sub_step toks s (s\<lparr>msg_chan := msg_chan s @ [x], publisher := PubLoop\<rparr>)"
| pub_send_closed:
    "publisher s = PubSending x \<Longrightarrow> msg_closed s \<Longrightarrow>
     sub_step toks s (s\<lparr>panicked := True\<rparr>)"
| pub_stop:
    "publisher s = PubLoop \<Longrightarrow> stopped_closed s \<Longrightarrow>
     sub_step toks s (s\<lparr>done_closed := True, publisher := PubExited\<rparr>)"
| stop_begin:
    "sub_lc s = StateStarted \<Longrightarrow>
     sub_step toks s (s\<lparr>sub_lc := StateStopping, stopped_closed := True\<rparr>)"
| stop_end:
    "sub_lc s = StateStopping \<Longrightarrow> done_closed s \<Longrightarrow>
     sub_step toks s (s\<lparr>msg_closed := True, sub_lc := StateStopped\<rparr>)"
| consume:
    "msg_chan s = x # xs \<Longrightarrow>
     sub_step toks s (s\<lparr>msg_chan := xs, consumed := consumed s @ [x]\<rparr>)"
| consumer_ack:
    "x \<in> set (consumed s) \<Longrightarrow> acks s x = None \<Longrightarrow>
     sub_step toks s (s\<lparr>acks := (acks s)(x \<mapsto> Acked)\<rparr>)"
| consumer_nack:
    "x \<in> set (consumed s) \<Longrightarrow> acks s x = None \<Longrightarrow>
     sub_step toks s (s\<lparr>acks := (acks s)(x \<mapsto> Nacked)\<rparr>)"

inductive sub_reachable :: "subscriber_cfg \<Rightarrow> go_error + string list \<Rightarrow> sub_state \<Rightarrow> bool"
  for cfg toks where
  init: "sub_new cfg = Inr s \<Longrightarrow> sub_reachable cfg toks s"
| step: "sub_reachable cfg toks s \<Longrightarrow> sub_step toks s t \<Longrightarrow> sub_reachable cfg toks t"

section \<open>Invariants\<close>

text \<open>
  How the channels and the lifecycle agree: \<open>msgChan\<close> is closed only once the
  publisher has exited, \<open>done\<close> is closed exactly when it has, and the publisher exits
  only after \<open>stopped\<close> is closed.
\<close>

definition chan_inv :: "sub_state \<Rightarrow> bool" where
  "chan_inv s \<longleftrightarrow>
     (msg_closed s \<longrightarrow> publisher s = PubExited) \<and>
     (done_closed s \<longleftrightarrow> publisher s = PubExited) \<and>
     (done_closed s \<longrightarrow> stopped_closed s) \<and>
     (stopped_closed s \<longleftrightarrow> sub_lc s \<noteq> StateStarted) \<and>
     (msg_closed s \<longleftrightarrow> sub_lc s = StateStopped) \<and>
     \<not> panicked s"

text \<open>Every request number written to \<open>pubChan\<close> is in exactly one place.\<close>

definition order_inv :: "sub_state \<Rightarrow> bool" where
  "order_inv s \<longleftrightarrow> consumed s @ msg_chan s @ in_flight (publisher s) @ pub_chan s = enqueued s"

definition enqueue_inv :: "sub_state \<Rightarrow> bool" where
  "enqueue_inv s \<longleftrightarrow>
     distinct (enqueued s) \<and>
     (\<forall>h \<in> set (enqueued s).
        case handlers s h of Some (HRespond _) \<Rightarrow> True | Some (HDone _) \<Rightarrow> True | _ \<Rightarrow> False)"

definition ack_inv :: "sub_state \<Rightarrow> bool" where
  "ack_inv s \<longleftrightarrow>
     (\<forall>h. handlers s h = Some (HDone 200) \<longrightarrow> acks s h = Some Acked) \<and>
     (\<forall>h. acks s h \<noteq> None \<longrightarrow> h \<in> set (consumed s))"

text \<open>
  Channel capacities: both channels hold at most \<open>buf\<close> messages, \<open>buf\<close> is
  positive, and the service has been started.
\<close>

definition cap_inv :: "sub_state \<Rightarrow> bool" where
  "cap_inv s \<longleftrightarrow>
     0 < buf s \<and> length (pub_chan s) \<le> buf s \<and> length (msg_chan s) \<le> buf s \<and>
     sub_lc s \<noteq> StateNotStarted"

section \<open>Example inputs\<close>

text \<open>
  A subscriber with a one-slot buffer, a token manager that requires the token
  \<open>tok\<close>, and a request without a bearer token whose HTTP signature verifies.
\<close>

definition demo_cfg :: subscriber_cfg where
  "demo_cfg = \<lparr>service_endpoint = ''/services/orb/inbox'', buffer_size = 1\<rparr>"

definition demo_toks :: "go_error + string list" where
  "demo_toks = Inr [''tok'']"

definition demo_msg :: message where
  "demo_msg = \<lparr>msg_uuid = ''m1'', msg_payload = ''p'', msg_metadata = Map.empty\<rparr>"

definition demo_actor :: iri where
  "demo_actor = ''https://orb.domain1.com/services/orb''"

definition demo_req :: http_request where
  "demo_req = \<lparr>req_bearer = None, req_sig = Inr (True, Some demo_actor), req_body = Inr demo_msg\<rparr>"

definition demo_state_acked :: sub_state where
  "demo_state_acked =
     \<lparr>sub_lc = StateStarted, buf = 1, pub_chan = [], msg_chan = [],
      stopped_closed = False, done_closed = False, msg_closed = False,
      publisher = PubLoop, handlers = [0 \<mapsto> HDone 200], acks = [0 \<mapsto> Acked],
      enqueued = [0], consumed = [0], panicked = False\<rparr>"

definition demo_state_blocked :: sub_state where
  "demo_state_blocked =
     \<lparr>sub_lc = StateStopping, buf = 1, pub_chan = [0], msg_chan = [],
      stopped_closed = True, done_closed = True, msg_closed = False,
      publisher = PubExited,
      handlers = [0 \<mapsto> HRespond (demo_msg\<lparr>msg_metadata := [actor_iri_key \<mapsto> demo_actor]\<rparr>),
                  1 \<mapsto> HEnqueue (demo_msg\<lparr>msg_metadata := [actor_iri_key \<mapsto> demo_actor]\<rparr>)],
      acks = Map.empty, enqueued = [0], consumed = [], panicked = False\<rparr>"

section \<open>Properties\<close>

lemma authenticate_cases:
  "authenticate toks r = Inl st \<Longrightarrow> st = 500 \<or> st = 401"
  by (auto simp: authenticate_def split: if_splits sum.splits prod.splits)

lemma handle_prelude_error_status:
  "handle_prelude toks r = Inl st \<Longrightarrow> st \<in> {400, 401, 500}"
  by (auto simp: handle_prelude_def dest: authenticate_cases split: sum.splits)

lemma sub_new_inv:
  assumes "sub_new cfg = Inr s"
  shows "chan_inv s" "order_inv s" "enqueue_inv s" "ack_inv s"
  using assms
  by (auto simp: sub_new_def Let_def chan_inv_def order_inv_def enqueue_inv_def ack_inv_def
           split: if_splits)

lemma sub_step_chan_inv:
  "sub_step toks s t \<Longrightarrow> chan_inv s \<Longrightarrow> chan_inv t"
  by (induction rule: sub_step.induct) (auto simp: chan_inv_def)

lemma sub_step_order_inv:
  "sub_step toks s t \<Longrightarrow> order_inv s \<Longrightarrow> order_inv t"
  by (induction rule: sub_step.induct) (auto simp: order_inv_def)

lemma sub_step_enqueue_inv:
  "sub_step toks s t \<Longrightarrow> enqueue_inv s \<Longrightarrow> enqueue_inv t"
proof (induction rule: sub_step.induct)
  case (request s h r)
  then show ?case by (fastforce simp: enqueue_inv_def)
next
  case (publish_ok s h m)
  then show ?case by (fastforce simp: enqueue_inv_def)
next
  case (publish_not_started s h m)
  then show ?case by (fastforce simp: enqueue_inv_def)
next
  case (enqueue s h m)
  then show ?case by (fastforce simp: enqueue_inv_def)
qed (auto simp: enqueue_inv_def split: option.splits handler_pc.splits)

lemma sub_step_ack_inv:
  "sub_step toks s t \<Longrightarrow> ack_inv s \<Longrightarrow> ack_inv t"
proof (induction rule: sub_step.induct)
  case (request s h r)
  then show ?case
    by (auto simp: ack_inv_def dest!: handle_prelude_error_status split: sum.splits)
qed (auto simp: ack_inv_def)

lemma sub_reachable_invs:
  "sub_reachable cfg toks s \<Longrightarrow> chan_inv s \<and> order_inv s \<and> enqueue_inv s \<and> ack_inv s"
proof (induction rule: sub_reachable.induct)
  case (init s)
  then show ?case by (simp add: sub_new_inv)
next
  case (step s t)
  then show ?case
    by (blast intro: sub_step_chan_inv sub_step_order_inv sub_step_enqueue_inv sub_step_ack_inv)
qed

lemma order_inv_distinct_consumed:
  "order_inv s \<Longrightarrow> enqueue_inv s \<Longrightarrow> distinct (consumed s)"
  unfolding order_inv_def enqueue_inv_def
  by (metis distinct_append)

text \<open>
  Once the publisher has exited and \<open>pubChan\<close> is full, no step changes \<open>pubChan\<close> or
  the publisher, and a handler blocked on the send stays blocked.
\<close>

lemma sub_step_frozen:
  "sub_step toks s t \<Longrightarrow> publisher s = PubExited \<Longrightarrow> buf s \<le> length (pub_chan s) \<Longrightarrow>
   handlers s h = Some (HEnqueue m) \<Longrightarrow>
   publisher t = PubExited \<and> buf t = buf s \<and> pub_chan t = pub_chan s \<and>
   handlers t h = Some (HEnqueue m)"
  by (induction rule: sub_step.induct) auto

lemma sub_steps_frozen:
  assumes "(sub_step toks)\<^sup>*\<^sup>* s t" and "publisher s = PubExited"
    and "buf s \<le> length (pub_chan s)" and "handlers s h = Some (HEnqueue m)"
  shows "publisher t = PubExited \<and> buf t = buf s \<and> pub_chan t = pub_chan s \<and>
         handlers t h = Some (HEnqueue m)"
  using assms
proof (induction rule: rtranclp_induct)
  case base
  then show ?case by simp
next
  case (step u t)
  then have "publisher u = PubExited" "buf u \<le> length (pub_chan u)"
    "handlers u h = Some (HEnqueue m)" "buf u = buf s" "pub_chan u = pub_chan s"
    by auto
  with step.hyps(2) show ?case
    using sub_step_frozen by (metis)
qed

text \<open>A run of the example: one message is accepted, delivered, acknowledged and answered 200.\<close>

lemma demo_run_ack: "sub_reachable demo_cfg demo_toks demo_state_acked"
proof -
  let ?toks = demo_toks
  let ?m = "demo_msg\<lparr>msg_metadata := [actor_iri_key \<mapsto> demo_actor]\<rparr>"
  have s0: "sub_new demo_cfg = Inr \<lparr>sub_lc = StateStarted, buf = 1, pub_chan = [], msg_chan = [],
      stopped_closed = False, done_closed = False, msg_closed = False,
      publisher = PubLoop, handlers = Map.empty, acks = Map.empty,
      enqueued = [], consumed = [], panicked = False\<rparr>"
    by (simp add: sub_new_def demo_cfg_def)
  have p: "handle_prelude ?toks demo_req = Inr ?m"
    by (simp add: handle_prelude_def authenticate_def demo_req_def demo_msg_def demo_toks_def)
  note R = sub_reachable.init [where toks = ?toks, OF s0]
  note R = sub_reachable.step [where toks = ?toks, OF R sub_step.request [where h = 0 and r = demo_req]]
  note R = R [unfolded p, simplified]
  note R = sub_reachable.step [where toks = ?toks, OF R sub_step.publish_ok [where h = 0 and m = ?m]]
  note R = R [simplified]
  note R = sub_reachable.step [where toks = ?toks, OF R sub_step.enqueue [where h = 0 and m = ?m]]
  note R = R [simplified]
  note R = sub_reachable.step [where toks = ?toks, OF R sub_step.pub_receive [where x = 0 and xs = "[]"]]
  note R = R [simplified]
  note R = sub_reachable.step [where toks = ?toks, OF R sub_step.pub_deliver [where x = 0]]
  note R = R [simplified]
  note R = sub_reachable.step [where toks = ?toks, OF R sub_step.consume [where x = 0 and xs = "[]"]]
  note R = R [simplified]
  note R = sub_reachable.step [where toks = ?toks, OF R sub_step.consumer_ack [where x = 0]]
  note R = R [simplified]
  note R = sub_reachable.step [where toks = ?toks, OF R sub_step.respond_ack [where h = 0 and m = ?m]]
  note R = R [simplified]
  show ?thesis using R by (simp add: demo_state_acked_def)
qed

text \<open>
  A run of the example in which a second request passes the lifecycle check, then
  \<open>Stop\<close> runs and the publisher takes the \<open>stopped\<close> branch of its \<open>select\<close> while
  \<open>pubChan\<close> is full.
\<close>

lemma demo_run_blocked: "sub_reachable demo_cfg demo_toks demo_state_blocked"
proof -
  let ?toks = demo_toks
  let ?m = "demo_msg\<lparr>msg_metadata := [actor_iri_key \<mapsto> demo_actor]\<rparr>"
  have s0: "sub_new demo_cfg = Inr \<lparr>sub_lc = StateStarted, buf = 1, pub_chan = [], msg_chan = [],
      stopped_closed = False, done_closed = False, msg_closed = False,
      publisher = PubLoop, handlers = Map.empty, acks = Map.empty,
      enqueued = [], consumed = [], panicked = False\<rparr>"
    by (simp add: sub_new_def demo_cfg_def)
  have p: "handle_prelude ?toks demo_req = Inr ?m"
    by (simp add: handle_prelude_def authenticate_def demo_req_def demo_msg_def demo_toks_def)
  note R = sub_reachable.init [where toks = ?toks, OF s0]
  note R = sub_reachable.step [where toks = ?toks, OF R sub_step.request [where h = 0 and r = demo_req]]
  note R = R [unfolded p, simplified]
  note R = sub_reachable.step [where toks = ?toks, OF R sub_step.publish_ok [where h = 0 and m = ?m]]
  note R = R [simplified]
  note R = sub_reachable.step [where toks = ?toks, OF R sub_step.enqueue [where h = 0 and m = ?m]]
  note R = R [simplified]
  note R = sub_reachable.step [where toks = ?toks, OF R sub_step.request [where h = 1 and r = demo_req]]
  note R = R [unfolded p, simplified]
  note R = sub_reachable.step [where toks = ?toks, OF R sub_step.publish_ok [where h = 1 and m = ?m]]
  note R = R [simplified]
  note R = sub_reachable.step [where toks = ?toks, OF R sub_step.stop_begin]
  note R = R [simplified]
  note R = sub_reachable.step [where toks = ?toks, OF R sub_step.pub_stop]
  note R = R [simplified]
  show ?thesis using R by (simp add: demo_state_blocked_def fun_upd_twist)
qed

lemma sub_new_cap_inv: "sub_new cfg = Inr s \<Longrightarrow> cap_inv s"
  by (auto simp: sub_new_def Let_def cap_inv_def default_buffer_size_def split: if_splits)

lemma sub_step_cap_inv: "sub_step toks s t \<Longrightarrow> cap_inv s \<Longrightarrow> cap_inv t"
  by (induction rule: sub_step.induct) (auto simp: cap_inv_def)

lemma sub_step_buf: "sub_step toks s t \<Longrightarrow> buf t = buf s"
  by (induction rule: sub_step.induct) simp_all

lemma sub_reachable_cap_inv: "sub_reachable cfg toks s \<Longrightarrow> cap_inv s"
  by (induction rule: sub_reachable.induct) (auto intro: sub_new_cap_inv sub_step_cap_inv)

lemma sub_reachable_steps:
  "(sub_step toks)\<^sup>*\<^sup>* s t \<Longrightarrow> sub_reachable cfg toks s \<Longrightarrow> sub_reachable cfg toks t"
  by (induction rule: rtranclp_induct) (auto intro: sub_reachable.step)

lemma consume_all:
  "msg_chan s = xs \<Longrightarrow>
   (sub_step toks)\<^sup>*\<^sup>* s (s\<lparr>msg_chan := [], consumed := consumed s @ xs\<rparr>)"
proof (induction xs arbitrary: s)
  case Nil
  then show ?case by (cases s) simp
next
  case (Cons x xs)
  let ?s1 = "s\<lparr>msg_chan := xs, consumed := consumed s @ [x]\<rparr>"
  have "sub_step toks s ?s1" using Cons.prems by (rule sub_step.consume)
  moreover have "(sub_step toks)\<^sup>*\<^sup>* ?s1 (?s1\<lparr>msg_chan := [], consumed := consumed ?s1 @ xs\<rparr>)"
    by (rule Cons.IH) simp
  ultimately show ?case by (simp add: converse_rtranclp_into_rtranclp)
qed

text \<open>The publisher can always exit once \<open>stopped\<close> is closed, if the consumer keeps reading.\<close>

lemma publisher_exits:
  assumes r: "sub_reachable cfg toks s" and st: "stopped_closed s"
  shows "\<exists>t. (sub_step toks)\<^sup>*\<^sup>* s t \<and> publisher t = PubExited \<and> sub_lc t = sub_lc s"
proof (cases "publisher s")
  case PubLoop
  then have "sub_step toks s (s\<lparr>done_closed := True, publisher := PubExited\<rparr>)"
    using st by (rule sub_step.pub_stop)
  then show ?thesis by (intro exI [of _ "s\<lparr>done_closed := True, publisher := PubExited\<rparr>"]) auto
next
  case (PubSending x)
  let ?s1 = "s\<lparr>msg_chan := [], consumed := consumed s @ msg_chan s\<rparr>"
  let ?s2 = "?s1\<lparr>msg_chan := [x], publisher := PubLoop\<rparr>"
  let ?s3 = "?s2\<lparr>done_closed := True, publisher := PubExited\<rparr>"
  have c: "chan_inv s" and b: "cap_inv s"
    using sub_reachable_invs [OF r] sub_reachable_cap_inv [OF r] by auto
  have s1: "(sub_step toks)\<^sup>*\<^sup>* s ?s1" by (rule consume_all) simp
  have "sub_step toks ?s1 (?s1\<lparr>msg_chan := msg_chan ?s1 @ [x], publisher := PubLoop\<rparr>)"
    by (rule sub_step.pub_deliver) (use PubSending c b in \<open>auto simp: chan_inv_def cap_inv_def\<close>)
  then have s2: "sub_step toks ?s1 ?s2" by simp
  have s3: "sub_step toks ?s2 ?s3" by (rule sub_step.pub_stop) (use st in simp_all)
  have "(sub_step toks)\<^sup>*\<^sup>* s ?s3"
    using s1 s2 s3 by (meson rtranclp.rtrancl_into_rtrancl)
  then show ?thesis by (intro exI [of _ ?s3]) simp
next
  case PubExited
  then show ?thesis by (intro exI [of _ s]) simp
qed

text \<open>C1: \<open>msgChan\<close> is never closed while the publisher may still send on it.\<close>

theorem no_send_on_closed_msgchan:
  "sub_reachable cfg toks s \<Longrightarrow> \<not> panicked s \<and> (msg_closed s \<longrightarrow> publisher s = PubExited)"
  using sub_reachable_invs by (auto simp: chan_inv_def)

theorem no_send_on_closed_msgchan_witness:
  "sub_reachable demo_cfg demo_toks demo_state_blocked \<and> \<not> panicked demo_state_blocked"
  using no_send_on_closed_msgchan [OF demo_run_blocked] demo_run_blocked by simp

text \<open>
  C2: the publisher goroutine preserves arrival order. Every message written to
  \<open>pubChan\<close> is, in the order of the writes, either already received by the consumer,
  buffered in \<open>msgChan\<close>, held by the publisher, or still in \<open>pubChan\<close>.
\<close>

theorem msgchan_fifo:
  "sub_reachable cfg toks s \<Longrightarrow>
   consumed s @ msg_chan s @ in_flight (publisher s) @ pub_chan s = enqueued s"
  using sub_reachable_invs by (auto simp: order_inv_def)

theorem msgchan_fifo_witness:
  "sub_reachable demo_cfg demo_toks demo_state_blocked \<and>
   consumed demo_state_blocked @ msg_chan demo_state_blocked @
     in_flight (publisher demo_state_blocked) @ pub_chan demo_state_blocked =
   enqueued demo_state_blocked"
  using msgchan_fifo [OF demo_run_blocked] demo_run_blocked by simp

text \<open>C3: the consumer receives each message at most once.\<close>

theorem delivered_at_most_once:
  "sub_reachable cfg toks s \<Longrightarrow> distinct (consumed s)"
  using sub_reachable_invs order_inv_distinct_consumed by blast

theorem delivered_at_most_once_witness:
  "sub_reachable demo_cfg demo_toks demo_state_acked \<and> distinct (consumed demo_state_acked)"
  using delivered_at_most_once [OF demo_run_ack] demo_run_ack by simp

text \<open>
  C4: a handler answers 200 only for a message that the consumer received and
  acknowledged.
\<close>

theorem ok_only_after_ack:
  "sub_reachable cfg toks s \<Longrightarrow> handlers s h = Some (HDone 200) \<Longrightarrow>
   acks s h = Some Acked \<and> h \<in> set (consumed s)"
  using sub_reachable_invs by (fastforce simp: ack_inv_def)

theorem ok_only_after_ack_witness:
  "sub_reachable demo_cfg demo_toks demo_state_acked \<and>
   handlers demo_state_acked 0 = Some (HDone 200) \<and>
   acks demo_state_acked 0 = Some Acked \<and> 0 \<in> set (consumed demo_state_acked)"
proof -
  have h: "handlers demo_state_acked 0 = Some (HDone 200)"
    by (simp add: demo_state_acked_def)
  show ?thesis using ok_only_after_ack [OF demo_run_ack h] demo_run_ack h by simp
qed

text \<open>
  C5: only authenticated requests reach \<open>publish\<close>: either the bearer-token check
  passed, or the HTTP signature verified.
\<close>

theorem only_authenticated_published:
  "handle_prelude toks r = Inr m \<Longrightarrow>
   token_verify toks (req_bearer r) \<or> (\<exists>a. req_sig r = Inr (True, a))"
  by (auto simp: handle_prelude_def authenticate_def split: if_splits sum.splits prod.splits)

theorem only_authenticated_published_witness:
  "handle_prelude demo_toks demo_req = Inr (demo_msg\<lparr>msg_metadata := [actor_iri_key \<mapsto> demo_actor]\<rparr>) \<and>
   (token_verify demo_toks (req_bearer demo_req) \<or> (\<exists>a. req_sig demo_req = Inr (True, a)))"
proof -
  have p: "handle_prelude demo_toks demo_req = Inr (demo_msg\<lparr>msg_metadata := [actor_iri_key \<mapsto> demo_actor]\<rparr>)"
    by (simp add: handle_prelude_def authenticate_def demo_req_def demo_msg_def demo_toks_def)
  show ?thesis using only_authenticated_published [OF p] p by simp
qed

text \<open>
  C6: the status written when a request is refused before \<open>publish\<close>: 500 when the
  signature verifier fails, 401 when the signature does not verify (both only when the
  bearer-token check failed), 400 when the body cannot be unmarshalled.
\<close>

theorem prelude_error_status:
  "handle_prelude toks r = Inl st \<Longrightarrow>
   (st = 500 \<and> \<not> token_verify toks (req_bearer r) \<and> (\<exists>e. req_sig r = Inl e)) \<or>
   (st = 401 \<and> \<not> token_verify toks (req_bearer r) \<and> (\<exists>a. req_sig r = Inr (False, a))) \<or>
   (st = 400 \<and> (\<exists>e. req_body r = Inl e))"
  by (auto simp: handle_prelude_def authenticate_def split: if_splits sum.splits prod.splits)

theorem prelude_error_status_witness:
  "handle_prelude demo_toks (demo_req\<lparr>req_sig := Inr (False, None)\<rparr>) = Inl 401"
proof -
  have p: "handle_prelude demo_toks (demo_req\<lparr>req_sig := Inr (False, None)\<rparr>) = Inl 401"
    by (simp add: handle_prelude_def authenticate_def demo_req_def demo_toks_def)
  show ?thesis using prelude_error_status [OF p] p by simp
qed

text \<open>
  C7: the actor IRI of a request accepted through its HTTP signature is recorded in the
  message metadata under \<open>actor-iri\<close>; the rest of the message is unchanged.
\<close>

theorem actor_iri_recorded:
  "\<not> token_verify toks (req_bearer r) \<Longrightarrow> req_sig r = Inr (True, Some a) \<Longrightarrow>
   req_body r = Inr msg \<Longrightarrow>
   handle_prelude toks r = Inr (msg\<lparr>msg_metadata := (msg_metadata msg)(actor_iri_key \<mapsto> a)\<rparr>)"
  by (simp add: handle_prelude_def authenticate_def)

theorem actor_iri_recorded_witness:
  "handle_prelude demo_toks demo_req =
     Inr (demo_msg\<lparr>msg_metadata := (msg_metadata demo_msg)(actor_iri_key \<mapsto> demo_actor)\<rparr>)"
  using actor_iri_recorded [of demo_toks demo_req demo_actor demo_msg]
  by (simp add: demo_req_def demo_toks_def)

text \<open>
  C8: a request can block forever. In the run \<open>demo_run_blocked\<close> the second handler
  passed the lifecycle check before \<open>Stop\<close>; the publisher then exited with
  \<open>pubChan\<close> full, so its send to \<open>pubChan\<close> never completes, whatever the other
  goroutines do, and the message already in \<open>pubChan\<close> is never delivered.
\<close>

theorem request_blocks_forever:
  "sub_reachable demo_cfg demo_toks demo_state_blocked \<and>
   {t. (sub_step demo_toks)\<^sup>*\<^sup>* demo_state_blocked t} \<subseteq>
   {t. handlers t 1 = handlers demo_state_blocked 1 \<and> pub_chan t = [0] \<and> publisher t = PubExited}"
proof -
  have "publisher demo_state_blocked = PubExited"
    "buf demo_state_blocked \<le> length (pub_chan demo_state_blocked)"
    "handlers demo_state_blocked 1 =
       Some (HEnqueue (demo_msg\<lparr>msg_metadata := [actor_iri_key \<mapsto> demo_actor]\<rparr>))"
    by (simp_all add: demo_state_blocked_def)
  then have "\<forall>t. (sub_step demo_toks)\<^sup>*\<^sup>* demo_state_blocked t \<longrightarrow>
      handlers t 1 = handlers demo_state_blocked 1 \<and> pub_chan t = [0] \<and> publisher t = PubExited"
    using sub_steps_frozen by (fastforce simp: demo_state_blocked_def)
  with demo_run_blocked show ?thesis by blast
qed

text \<open>
  C32: \<open>Stop\<close> always completes once begun, provided the consumer keeps reading
  \<open>msgChan\<close>: from every reachable state some run of the goroutines reaches
  \<open>StateStopped\<close> (the publisher delivers the message it holds, sees \<open>stopped\<close>
  and closes \<open>done\<close>, and \<open>stop\<close> closes \<open>msgChan\<close>).
\<close>

theorem stop_completes:
  assumes r: "sub_reachable cfg toks s"
  shows "\<exists>t. (sub_step toks)\<^sup>*\<^sup>* s t \<and> sub_lc t = StateStopped"
proof -
  obtain s1 where s1: "(sub_step toks)\<^sup>*\<^sup>* s s1" and lc1: "sub_lc s1 \<noteq> StateStarted"
    and sc: "stopped_closed s1"
  proof (cases "sub_lc s = StateStarted")
    case True
    let ?s1 = "s\<lparr>sub_lc := StateStopping, stopped_closed := True\<rparr>"
    have "sub_step toks s ?s1" using True by (rule sub_step.stop_begin)
    then show ?thesis by (intro that [of ?s1]) auto
  next
    case False
    then show ?thesis
      using sub_reachable_invs [OF r] by (intro that [of s]) (auto simp: chan_inv_def)
  qed
  have r1: "sub_reachable cfg toks s1" using s1 r by (rule sub_reachable_steps)
  obtain s2 where s2: "(sub_step toks)\<^sup>*\<^sup>* s1 s2" and pe: "publisher s2 = PubExited"
    and lc2: "sub_lc s2 = sub_lc s1"
    using publisher_exits [OF r1 sc] by blast
  have r2: "sub_reachable cfg toks s2" using s2 r1 by (rule sub_reachable_steps)
  have dc: "done_closed s2" using pe sub_reachable_invs [OF r2] by (simp add: chan_inv_def)
  show ?thesis
  proof (cases "sub_lc s2 = StateStopped")
    case True
    then show ?thesis using s1 s2 by (meson rtranclp_trans)
  next
    case False
    have lc: "sub_lc s2 = StateStopping"
      using False lc1 lc2 sub_reachable_cap_inv [OF r2] by (cases "sub_lc s2") (auto simp: cap_inv_def)
    have "sub_step toks s2 (s2\<lparr>msg_closed := True, sub_lc := StateStopped\<rparr>)"
      using lc dc by (rule sub_step.stop_end)
    then show ?thesis using s1 s2
      by (intro exI [of _ "s2\<lparr>msg_closed := True, sub_lc := StateStopped\<rparr>"])
         (auto intro: rtranclp_trans)
  qed
qed


theorem stop_completes_witness:
  "sub_reachable demo_cfg demo_toks demo_state_blocked \<and>
   (\<exists>t. (sub_step demo_toks)\<^sup>*\<^sup>* demo_state_blocked t \<and> sub_lc t = StateStopped)"
  using stop_completes [OF demo_run_blocked] demo_run_blocked by blast

text \<open>
  C33: the channels never exceed their capacity, which is the configured buffer size, or
  100 when the configuration gives 0.
\<close>

theorem channel_capacity:
  "sub_reachable cfg toks s \<Longrightarrow>
   buf s = nat (if buffer_size cfg = 0 then default_buffer_size else buffer_size cfg) \<and>
   length (pub_chan s) \<le> buf s \<and> length (msg_chan s) \<le> buf s"
proof (induction rule: sub_reachable.induct)
  case (init s)
  then show ?case by (auto simp: sub_new_def Let_def split: if_splits)
next
  case (step s t)
  then show ?case
    using sub_step_buf [OF step.hyps(2)] sub_reachable_cap_inv [OF sub_reachable.step [OF step.hyps]]
    by (simp add: cap_inv_def)
qed

theorem channel_capacity_witness:
  "sub_reachable demo_cfg demo_toks demo_state_blocked \<and> buf demo_state_blocked = 1 \<and>
   length (pub_chan demo_state_blocked) \<le> buf demo_state_blocked \<and>
   length (msg_chan demo_state_blocked) \<le> buf demo_state_blocked"
  using channel_capacity [OF demo_run_blocked] demo_run_blocked by (simp add: demo_cfg_def)

end
