(* ===== verification/Memstore.thy ===== *)
theory Memstore
  imports Orb_Prelude "HOL-Library.Multiset"
begin

text \<open>
  The in-memory ActivityPub store (\<open>pkg/activitypub/store/memstore\<close>, source file
  \<open>src/unnamed/part_004\<close>): an activity store (a list in insertion order plus an index by
  ID) and one reference store per reference type (a map from object IRI to the list of
  reference IRIs). Queries filter, optionally reverse, and cut the result at a start index
  computed from the page number and page size with Go's 64-bit \<open>int\<close> arithmetic.
  IRIs are strings (the code compares \<open>url.URL\<close>s by \<open>String()\<close>); a nil
  \<open>*url.URL\<close> is \<open>None\<close>.
\<close>

section \<open>Data\<close>

datatype ref_type =
    Inbox | Outbox | PublicOutbox | Follower | Following | Witness | Witnessing
  | Like | Liked | Share | AnchorLinkset | OtherRef string

text \<open>
  \<open>vocab.ActivityType\<close>, reduced to what the store reads: its ID and its types.
  \<open>IsAny\<close> is modelled from its name (the vocabulary package is not under \<open>src/\<close>).
\<close>

record activity =
  act_id :: iri
  act_types :: "string list"

definition is_any :: "activity \<Rightarrow> string list \<Rightarrow> bool" where
  "is_any a ts = (\<exists>t \<in> set ts. t \<in> set (act_types a))"

record activity_store =
  activities :: "activity list"
  activity_by_id :: "iri \<rightharpoonup> activity"

record reference_store =
  iris_by_object :: "iri \<rightharpoonup> iri list"

record memstore =
  act_store :: activity_store
  reference_stores :: "ref_type \<rightharpoonup> reference_store"

record criteria =
  crit_types :: "string list"
  crit_ref_type :: "ref_type option"
  crit_object_iri :: "iri option"
  crit_reference_iri :: "iri option"
  crit_activity_iris :: "iri list"

datatype sort_order = SortAscending | SortDescending

record query_options =
  page_number :: int
  page_size :: int
  sort_order :: sort_order

text \<open>
  \<open>storeutil.GetQueryOptions\<close> with no option (outside \<open>src/\<close>): no paging,
  ascending order.
\<close>

definition default_query_options :: query_options where
  "default_query_options = \<lparr>page_number = -1, page_size = -1, sort_order = SortAscending\<rparr>"

definition empty_criteria :: criteria where
  "empty_criteria = \<lparr>crit_types = [], crit_ref_type = None, crit_object_iri = None,
                     crit_reference_iri = None, crit_activity_iris = []\<rparr>"

definition err_not_found :: go_error where
  "err_not_found = Err ''not found''"

definition nil_deref :: go_error where
  "nil_deref = Panic ''invalid memory address or nil pointer dereference''"

section \<open>Construction\<close>

definition new_reference_store :: reference_store where
  "new_reference_store = \<lparr>iris_by_object = Map.empty\<rparr>"

definition known_ref_types :: "ref_type list" where
  "known_ref_types = [Inbox, Outbox, PublicOutbox, Follower, Following, Witness, Witnessing,
                      Like, Liked, Share, AnchorLinkset]"

definition mem_new :: memstore where
  "mem_new =
     \<lparr>act_store = \<lparr>activities = [], activity_by_id = Map.empty\<rparr>,
      reference_stores = map_of (map (\<lambda>t. (t, new_reference_store)) known_ref_types)\<rparr>"

section \<open>Activity store\<close>

definition activity_store_add :: "activity_store \<Rightarrow> activity \<Rightarrow> activity_store" where
  "activity_store_add s a =
     s\<lparr>activities := activities s @ [a], activity_by_id := (activity_by_id s)(act_id a \<mapsto> a)\<rparr>"

definition activity_store_get :: "activity_store \<Rightarrow> iri \<Rightarrow> go_error + activity" where
  "activity_store_get s i = (case activity_by_id s i of None \<Rightarrow> Inl err_not_found | Some a \<Rightarrow> Inr a)"

definition add_activity :: "memstore \<Rightarrow> activity \<Rightarrow> go_error + memstore" where
  "add_activity ms a = Inr (ms\<lparr>act_store := activity_store_add (act_store ms) a\<rparr>)"

definition get_activity :: "memstore \<Rightarrow> iri \<Rightarrow> go_error + activity" where
  "get_activity ms i = activity_store_get (act_store ms) i"

section \<open>Filters and paging\<close>

definition contains_iri :: "iri list \<Rightarrow> iri \<Rightarrow> bool" where
  "contains_iri iris i = list_ex (\<lambda>x. x = i) iris"

definition activity_filter_apply :: "criteria \<Rightarrow> activity list \<Rightarrow> activity list" where
  "activity_filter_apply q as =
     (if crit_activity_iris q \<noteq> []
      then filter (\<lambda>a. contains_iri (crit_activity_iris q) (act_id a)) as
      else filter (\<lambda>a. crit_types q = [] \<or> is_any a (crit_types q)) as)"

definition ref_filter_apply :: "criteria \<Rightarrow> iri list \<Rightarrow> iri list" where
  "ref_filter_apply q refs =
     filter (\<lambda>r. crit_reference_iri q = None \<or> crit_reference_iri q = Some r) refs"

text \<open>\<open>sort.SliceStable\<close> with the comparator \<open>i > j\<close> on indices reverses the slice.\<close>

definition reverse_sort :: "'a list \<Rightarrow> 'a list" where
  "reverse_sort xs = rev xs"

definition get_first_page_num :: "int \<Rightarrow> int \<Rightarrow> int" where
  "get_first_page_num total_items psize =
     (if go_mod total_items psize > 0 then go_div total_items psize else go_div total_items psize - 1)"

definition start_index :: "int \<Rightarrow> query_options \<Rightarrow> int" where
  "start_index total_items opts =
     (if page_number opts < 0 then 0
      else if sort_order opts = SortAscending then wrap64 (page_number opts * page_size opts)
      else wrap64 (wrap64 (get_first_page_num total_items (page_size opts) - page_number opts)
                   * page_size opts))"

definition get_start_index :: "int \<Rightarrow> query_options \<Rightarrow> int" where
  "get_start_index total_items opts =
     (if page_size opts \<le> 0 then 0
      else (let i = start_index total_items opts in if i < 0 \<or> i \<ge> total_items then -1 else i))"

text \<open>
  The common tail of both \<open>filter\<close> methods: order, start index, slice. The result is
  the slice and the number of matches before slicing.
\<close>

text \<open>Go's slice expression \<open>s[i:]\<close> panics unless \<open>0 \<le> i \<le> len(s)\<close>.\<close>

definition slice_bounds_panic :: go_error where
  "slice_bounds_panic = Panic ''runtime error: slice bounds out of range''"

definition go_slice_from :: "'a list \<Rightarrow> int \<Rightarrow> go_error + 'a list" where
  "go_slice_from xs i = (if 0 \<le> i \<and> i \<le> int (length xs) then Inr (drop (nat i) xs) else Inl slice_bounds_panic)"

definition paginate :: "query_options \<Rightarrow> 'a list \<Rightarrow> go_error + 'a list \<times> int" where
  "paginate opts results =
     (let rs = (if sort_order opts = SortDescending then reverse_sort results else results);
          i = get_start_index (int (length rs)) opts
      in if i = -1 then Inr ([], int (length rs))
         else (case go_slice_from rs i of Inl e \<Rightarrow> Inl e | Inr ys \<Rightarrow> Inr (ys, int (length rs))))"

definition activity_results_filter :: "activity list \<Rightarrow> criteria \<Rightarrow> query_options \<Rightarrow> go_error + activity list \<times> int" where
  "activity_results_filter as q opts = paginate opts (activity_filter_apply q as)"

definition ref_results_filter :: "iri list \<Rightarrow> criteria \<Rightarrow> query_options \<Rightarrow> go_error + iri list \<times> int" where
  "ref_results_filter refs q opts = paginate opts (ref_filter_apply q refs)"

definition activity_store_query :: "activity_store \<Rightarrow> criteria \<Rightarrow> query_options \<Rightarrow> go_error + activity list \<times> int" where
  "activity_store_query s q opts = activity_results_filter (activities s) q opts"

section \<open>Reference store\<close>

definition refs_of :: "reference_store \<Rightarrow> iri \<Rightarrow> iri list" where
  "refs_of rs oi = (case iris_by_object rs oi of None \<Rightarrow> [] | Some xs \<Rightarrow> xs)"

definition refstore_add :: "reference_store \<Rightarrow> iri \<Rightarrow> iri \<Rightarrow> reference_store" where
  "refstore_add rs actor i = rs\<lparr>iris_by_object := (iris_by_object rs)(actor \<mapsto> refs_of rs actor @ [i])\<rparr>"

fun first_index :: "('a \<Rightarrow> bool) \<Rightarrow> 'a list \<Rightarrow> nat option" where
  "first_index P [] = None"
| "first_index P (x # xs) = (if P x then Some 0 else map_option Suc (first_index P xs))"

text \<open>
  \<open>delete\<close>: the first equal IRI is cut out with \<open>append(xs[0:i], xs[i+1:]...)\<close>; a
  missing object or IRI leaves the store as it is.
\<close>

definition refstore_delete :: "reference_store \<Rightarrow> iri \<Rightarrow> iri \<Rightarrow> reference_store" where
  "refstore_delete rs actor i =
     (case iris_by_object rs actor of
        None \<Rightarrow> rs
      | Some xs \<Rightarrow>
          (case first_index (\<lambda>x. x = i) xs of
             None \<Rightarrow> rs
           | Some k \<Rightarrow> rs\<lparr>iris_by_object := (iris_by_object rs)(actor \<mapsto> take k xs @ drop (Suc k) xs)\<rparr>))"

definition refstore_query :: "reference_store \<Rightarrow> criteria \<Rightarrow> query_options \<Rightarrow> go_error + iri list \<times> int" where
  "refstore_query rs q opts =
     (case crit_object_iri q of
        None \<Rightarrow> Inl (Err ''object IRI is required'')
      | Some oi \<Rightarrow> ref_results_filter (refs_of rs oi) q opts)"

section \<open>Store operations\<close>

definition add_reference :: "memstore \<Rightarrow> ref_type \<Rightarrow> iri option \<Rightarrow> iri option \<Rightarrow> go_error + memstore" where
  "add_reference ms t obj ref =
     (case obj of
        None \<Rightarrow> Inl (Err ''nil object IRI'')
      | Some oi \<Rightarrow>
          (case ref of
             None \<Rightarrow> Inl (Err ''nil reference IRI'')
           | Some r \<Rightarrow>
               (case reference_stores ms t of
                  None \<Rightarrow> Inl nil_deref
                | Some rs \<Rightarrow> Inr (ms\<lparr>reference_stores := (reference_stores ms)(t \<mapsto> refstore_add rs oi r)\<rparr>))))"

definition delete_reference :: "memstore \<Rightarrow> ref_type \<Rightarrow> iri option \<Rightarrow> iri option \<Rightarrow> go_error + memstore" where
  "delete_reference ms t obj ref =
     (case obj of
        None \<Rightarrow> Inl (Err ''nil object IRI'')
      | Some oi \<Rightarrow>
          (case ref of
             None \<Rightarrow> Inl (Err ''nil reference IRI'')
           | Some r \<Rightarrow>
               (case reference_stores ms t of
                  None \<Rightarrow> Inl nil_deref
                | Some rs \<Rightarrow> Inr (ms\<lparr>reference_stores := (reference_stores ms)(t \<mapsto> refstore_delete rs oi r)\<rparr>))))"

definition query_references :: "memstore \<Rightarrow> ref_type \<Rightarrow> criteria \<Rightarrow> query_options \<Rightarrow> go_error + iri list \<times> int" where
  "query_references ms t q opts =
     (case reference_stores ms t of
        None \<Rightarrow> Inl nil_deref
      | Some rs \<Rightarrow> refstore_query rs q opts)"

text \<open>
  \<open>storeutil.ReadReferences\<close> (outside \<open>src/\<close>): reads the iterator to its end, or
  at most \<open>maxItems\<close> references when that is positive.
\<close>

definition read_references :: "iri list \<Rightarrow> int \<Rightarrow> iri list" where
  "read_references refs max_items = (if max_items \<le> 0 then refs else take (nat max_items) refs)"

definition query_activities_by_ref ::
  "memstore \<Rightarrow> ref_type \<Rightarrow> criteria \<Rightarrow> query_options \<Rightarrow> go_error + activity list \<times> int" where
  "query_activities_by_ref ms t q opts =
     (case query_references ms t q opts of
        Inl e \<Rightarrow> Inl e
      | Inr (it, total_items) \<Rightarrow>
          (let refs = read_references it (page_size opts)
           in if refs = [] then Inr ([], total_items)
              else (case activity_store_query (act_store ms)
                            (empty_criteria\<lparr>crit_activity_iris := refs\<rparr>)
                            (default_query_options\<lparr>sort_order := sort_order opts\<rparr>) of
                      Inl e \<Rightarrow> Inl e
                    | Inr (acts, _) \<Rightarrow> Inr (acts, total_items))))"

definition query_activities :: "memstore \<Rightarrow> criteria \<Rightarrow> query_options \<Rightarrow> go_error + activity list \<times> int" where
  "query_activities ms q opts =
     (case (crit_ref_type q, crit_object_iri q) of
        (Some t, Some _) \<Rightarrow> query_activities_by_ref ms t q opts
      | _ \<Rightarrow> activity_store_query (act_store ms) q opts)"

section \<open>Sequences of store calls\<close>

text \<open>
  The mutating methods of \<open>Store\<close> as operations. A call that returns an error leaves
  the store as it was (every error return of the code precedes its mutation).
\<close>

datatype mem_op =
    OpAddActivity activity
  | OpAddReference ref_type "iri option" "iri option"
  | OpDeleteReference ref_type "iri option" "iri option"

fun mem_apply :: "memstore \<Rightarrow> mem_op \<Rightarrow> go_error + memstore" where
  "mem_apply ms (OpAddActivity a) = add_activity ms a"
| "mem_apply ms (OpAddReference t oi r) = add_reference ms t oi r"
| "mem_apply ms (OpDeleteReference t oi r) = delete_reference ms t oi r"

definition mem_run :: "memstore \<Rightarrow> mem_op list \<Rightarrow> memstore" where
  "mem_run ms ops = foldl (\<lambda>m op. case mem_apply m op of Inl _ \<Rightarrow> m | Inr m' \<Rightarrow> m') ms ops"

section \<open>Abstract views and invariants\<close>

text \<open>
  The bag of references an object has (order forgotten), the agreement of the ID index
  with the activity list (the index holds the most recently added activity of each ID),
  and the invariant of every store built by \<open>New\<close> and store calls.
\<close>

definition ref_bag :: "reference_store \<Rightarrow> iri \<Rightarrow> iri multiset" where
  "ref_bag rs oi = mset (refs_of rs oi)"

definition index_inv :: "activity_store \<Rightarrow> bool" where
  "index_inv s \<longleftrightarrow>
     (\<forall>i. activity_by_id s i =
            (if \<exists>a \<in> set (activities s). act_id a = i
             then Some (last (filter (\<lambda>a. act_id a = i) (activities s))) else None))"

definition mem_inv :: "memstore \<Rightarrow> bool" where
  "mem_inv ms \<longleftrightarrow>
     (\<forall>t. reference_stores ms t \<noteq> None \<longleftrightarrow> t \<in> set known_ref_types) \<and> index_inv (act_store ms)"

section \<open>Example inputs\<close>

definition demo_act1 :: activity where
  "demo_act1 = \<lparr>act_id = ''https://orb.io/activities/1'', act_types = [''Create'']\<rparr>"

definition demo_act2 :: activity where
  "demo_act2 = \<lparr>act_id = ''https://orb.io/activities/2'', act_types = [''Like'']\<rparr>"

definition demo_object :: iri where
  "demo_object = ''https://orb.io/services/orb''"

definition demo_mem :: memstore where
  "demo_mem =
     mem_new\<lparr>act_store := \<lparr>activities = [demo_act1, demo_act2],
                             activity_by_id = [act_id demo_act1 \<mapsto> demo_act1, act_id demo_act2 \<mapsto> demo_act2]\<rparr>,
             reference_stores := (reference_stores mem_new)
                (Inbox \<mapsto> \<lparr>iris_by_object = [demo_object \<mapsto> [act_id demo_act2]]\<rparr>)\<rparr>"

section \<open>Properties\<close>


lemma get_start_index_range:
  "get_start_index n opts = -1 \<or> (0 \<le> get_start_index n opts \<and> get_start_index n opts \<le> max 0 n)"
  by (auto simp: get_start_index_def Let_def)

text \<open>C17: both query filters never panic, whatever the page number and size: the start index
  \<open>getStartIndex\<close> returns is \<open>-1\<close> or lies within the results, so the slice
  \<open>results[startIdx:]\<close> never leaves the slice bounds, and the filter returns a suffix of the
  matching results (reversed for descending order) and the number of matches.\<close>

theorem paginate_suffix:
  "\<exists>k. paginate opts xs =
     Inr (drop k (if sort_order opts = SortDescending then rev xs else xs), int (length xs))"
proof (cases "get_start_index (int (length xs)) opts = -1")
  case True
  then show ?thesis
    by (intro exI [of _ "length xs"]) (simp add: paginate_def reverse_sort_def Let_def)
next
  case False
  then have "0 \<le> get_start_index (int (length xs)) opts \<and> get_start_index (int (length xs)) opts \<le> int (length xs)"
    using get_start_index_range [of "int (length xs)" opts] by simp
  with False show ?thesis
    by (auto simp: paginate_def reverse_sort_def go_slice_from_def Let_def)
qed

lemma start_index_asc:
  assumes "0 \<le> page_number opts" "sort_order opts = SortAscending" "0 < page_size opts"
    "page_number opts * page_size opts < 2 ^ 63"
  shows "start_index n opts = page_number opts * page_size opts"
proof -
  have "0 \<le> page_number opts * page_size opts" using assms by simp
  then have "wrap64 (page_number opts * page_size opts) = page_number opts * page_size opts"
    using assms(4) by (rule wrap64_nonneg_id)
  with assms show ?thesis by (simp add: start_index_def)
qed

text \<open>C15: in ascending order with a positive page size and a page number whose product with it does not overflow, the results start at item page number times page size (and are empty past the end).\<close>

theorem paginate_ascending_page:
  assumes "0 < page_size opts" "0 \<le> page_number opts" "sort_order opts = SortAscending"
    and "page_number opts * page_size opts < 2 ^ 63"
  shows "paginate opts xs = Inr (drop (nat (page_number opts * page_size opts)) xs, int (length xs))"
proof -
  let ?k = "page_number opts * page_size opts"
  have k0: "0 \<le> ?k" using assms(1,2) by simp
  from assms have si: "start_index (int (length xs)) opts = ?k"
    by (intro start_index_asc) auto
  show ?thesis
  proof (cases "?k < int (length xs)")
    case True
    with si k0 assms(1,3) show ?thesis
      by (simp add: paginate_def get_start_index_def go_slice_from_def Let_def)
  next
    case False
    with si assms(1,3) show ?thesis
      by (simp add: paginate_def get_start_index_def Let_def)
  qed
qed


lemma get_first_page_num_eq:
  assumes "0 < n" "0 < psize"
  shows "get_first_page_num n psize = (n - 1) div psize"
proof -
  define q where "q = n div psize"
  define r where "r = n mod psize"
  have qr: "n = psize * q + r" "0 \<le> r" "r < psize"
    using assms(2) by (simp_all add: q_def r_def)
  show ?thesis
  proof (cases "0 < r")
    case True
    have "n - 1 = psize * q + (r - 1)" using qr by simp
    then have "(n - 1) div psize = q"
      by (rule int_div_pos_eq) (use True qr in auto)
    with True assms show ?thesis
      by (simp add: get_first_page_num_def go_div_nonneg go_mod_nonneg q_def r_def)
  next
    case False
    then have r0: "r = 0" using qr by simp
    have "n - 1 = psize * (q - 1) + (psize - 1)" using qr r0 by (simp add: algebra_simps)
    then have "(n - 1) div psize = q - 1"
      by (rule int_div_pos_eq) (use assms in auto)
    with r0 assms show ?thesis
      by (simp add: get_first_page_num_def go_div_nonneg go_mod_nonneg q_def r_def)
  qed
qed

text \<open>C16: in descending order, page numbers from the first page number down to 0 start at multiples of the page size counted from the newest result, and each start index lies inside the results.\<close>

theorem get_start_index_desc:
  assumes "0 < page_size opts" "0 \<le> page_number opts" "sort_order opts = SortDescending"
    and "page_number opts \<le> get_first_page_num n (page_size opts)"
    and "0 < n" "n < 2 ^ 63"
  shows "get_start_index n opts = (get_first_page_num n (page_size opts) - page_number opts) * page_size opts
         \<and> 0 \<le> get_start_index n opts \<and> get_start_index n opts < n"
proof -
  let ?s = "page_size opts" and ?p = "page_number opts"
  let ?f = "get_first_page_num n ?s"
  have f: "?f = (n - 1) div ?s" using assms by (simp add: get_first_page_num_eq)
  have "(n - 1) div ?s * ?s + (n - 1) mod ?s = n - 1" by (rule div_mult_mod_eq)
  moreover have "0 \<le> (n - 1) mod ?s" using assms(1) by simp
  ultimately have fs: "?f * ?s \<le> n - 1" unfolding f by linarith
  have k0: "0 \<le> (?f - ?p) * ?s" using assms(1,4) by simp
  have kf: "(?f - ?p) * ?s \<le> ?f * ?s" using assms(1,2) by (simp add: mult_right_mono)
  have kn: "(?f - ?p) * ?s < n" using kf fs by linarith
  have "0 \<le> ?f - ?p" using assms(4) by simp
  moreover have "?f - ?p < 2 ^ 63"
  proof -
    have "?f * 1 \<le> ?f * ?s"
      by (rule mult_left_mono) (use assms(1,2,4) in auto)
    then show ?thesis using fs assms(2,6) by linarith
  qed
  ultimately have w1: "wrap64 (?f - ?p) = ?f - ?p" by (rule wrap64_nonneg_id)
  have w2: "wrap64 ((?f - ?p) * ?s) = (?f - ?p) * ?s"
    using k0 kn assms(6) by (intro wrap64_nonneg_id) auto
  have "start_index n opts = (?f - ?p) * ?s"
    using assms(2,3) w1 w2 by (simp add: start_index_def)
  with k0 kn assms(1) show ?thesis
    by (simp add: get_start_index_def)
qed


lemma first_index_remove1:
  "first_index (\<lambda>x. x = i) xs = Some k \<Longrightarrow> take k xs @ drop (Suc k) xs = remove1 i xs"
  by (induction xs arbitrary: k) (auto split: if_splits)

lemma first_index_None:
  "first_index (\<lambda>x. x = i) xs = None \<Longrightarrow> remove1 i xs = xs"
  by (induction xs) (auto split: if_splits)

lemma refs_of_refstore_delete:
  "refs_of (refstore_delete rs oi r) x = (if x = oi then remove1 r (refs_of rs oi) else refs_of rs x)"
  by (auto simp: refstore_delete_def refs_of_def first_index_remove1 first_index_None
           split: option.splits)

lemma refs_of_refstore_add:
  "refs_of (refstore_add rs oi r) x = (if x = oi then refs_of rs oi @ [r] else refs_of rs x)"
  by (simp add: refstore_add_def refs_of_def)

lemma index_inv_add:
  "index_inv s \<Longrightarrow> index_inv (activity_store_add s a)"
  by (auto simp: index_inv_def activity_store_add_def)

lemma paginate_no_paging:
  "page_size opts \<le> 0 \<Longrightarrow> sort_order opts = SortAscending \<Longrightarrow>
   paginate opts xs = Inr (xs, int (length xs))"
  by (simp add: paginate_def get_start_index_def go_slice_from_def)

text \<open>C13: after \<open>AddReference\<close> on a reference type of the store, an unfiltered, unpaged query of the object\<acute>s references returns the earlier references followed by the new one, and their number.\<close>

theorem query_references_add:
  assumes "reference_stores ms t = Some rs"
    and "add_reference ms t (Some oi) (Some r) = Inr ms'"
  shows "query_references ms' t (empty_criteria\<lparr>crit_object_iri := Some oi\<rparr>) default_query_options =
         Inr (refs_of rs oi @ [r], int (length (refs_of rs oi)) + 1)"
  using assms
  by (auto simp: add_reference_def query_references_def refstore_query_def ref_results_filter_def
                 ref_filter_apply_def empty_criteria_def default_query_options_def
                 paginate_no_paging refs_of_refstore_add)


lemma contains_iri_iff: "contains_iri xs i \<longleftrightarrow> i \<in> set xs"
  by (auto simp: contains_iri_def list_ex_iff)

lemma mem_inv_new: "mem_inv mem_new"
proof -
  have "\<forall>t. map_of (map (\<lambda>t. (t, new_reference_store)) known_ref_types) t \<noteq> None \<longleftrightarrow>
            t \<in> set known_ref_types"
    by (simp add: map_of_eq_None_iff image_image)
  then show ?thesis by (simp add: mem_inv_def mem_new_def index_inv_def)
qed

lemma mem_apply_inv:
  "mem_inv ms \<Longrightarrow> mem_apply ms op = Inr ms' \<Longrightarrow> mem_inv ms'"
  by (cases op)
     (auto simp: mem_inv_def add_activity_def add_reference_def delete_reference_def index_inv_add
           split: option.splits if_splits)

lemma mem_run_inv: "mem_inv ms \<Longrightarrow> mem_inv (mem_run ms ops)"
proof (induction ops arbitrary: ms rule: rev_induct)
  case Nil
  then show ?case by (simp add: mem_run_def)
next
  case (snoc op ops)
  then show ?case
    by (auto simp: mem_run_def dest: mem_apply_inv split: sum.splits)
qed

text \<open>An unpaged, ascending query of activities by reference returns, in insertion order, the stored activities whose IDs are among the object\<acute>s references, and reports the number of references as the total.\<close>

theorem query_activities_by_ref_unpaged:
  assumes "reference_stores ms t = Some rs" "crit_object_iri q = Some oi"
    and "crit_reference_iri q = None" "page_size opts \<le> 0" "sort_order opts = SortAscending"
  shows "query_activities_by_ref ms t q opts =
         Inr (filter (\<lambda>a. act_id a \<in> set (refs_of rs oi)) (activities (act_store ms)),
              int (length (refs_of rs oi)))"
  using assms
  by (auto simp: query_activities_by_ref_def query_references_def refstore_query_def
        ref_results_filter_def ref_filter_apply_def paginate_no_paging read_references_def
        activity_store_query_def activity_results_filter_def activity_filter_apply_def
        empty_criteria_def default_query_options_def contains_iri_iff Let_def)

text \<open>
  C9: in every store built by \<open>New\<close> and any sequence of store calls,
  \<open>GetActivity\<close> returns the most recently added activity with the requested ID, and
  \<open>ErrNotFound\<close> when no activity with that ID was added.
\<close>

theorem get_activity_latest:
  "get_activity (mem_run mem_new ops) i =
     (if \<exists>a \<in> set (activities (act_store (mem_run mem_new ops))). act_id a = i
      then Inr (last (filter (\<lambda>a. act_id a = i) (activities (act_store (mem_run mem_new ops)))))
      else Inl err_not_found)"
proof -
  have "mem_inv (mem_run mem_new ops)" by (rule mem_run_inv [OF mem_inv_new])
  then show ?thesis
    by (auto simp: mem_inv_def index_inv_def get_activity_def activity_store_get_def)
qed

text \<open>
  C10: in every store built by \<open>New\<close> and store calls, \<open>AddReference\<close> with non-nil
  IRIs succeeds exactly for the eleven reference types \<open>New\<close> registers; for any other
  type the nil reference store is dereferenced and the call panics.
\<close>

theorem add_reference_type_error:
  "(case add_reference (mem_run mem_new ops) t (Some oi) (Some r) of
      Inl e \<Rightarrow> e = nil_deref \<and> t \<notin> set known_ref_types
    | Inr _ \<Rightarrow> t \<in> set known_ref_types)"
proof -
  have "mem_inv (mem_run mem_new ops)" by (rule mem_run_inv [OF mem_inv_new])
  then have "reference_stores (mem_run mem_new ops) t \<noteq> None \<longleftrightarrow> t \<in> set known_ref_types"
    by (simp add: mem_inv_def)
  then show ?thesis
    by (auto simp: add_reference_def split: option.splits)
qed

text \<open>
  C11: \<open>referenceStore.delete\<close>, which cuts the first matching IRI out of the object\<acute>s
  slice with \<open>append(xs[0:i], xs[i+1:]...)\<close>, removes exactly the first occurrence of the
  IRI (\<open>remove1\<close>) from that object\<acute>s references and leaves all other objects alone.
\<close>

theorem refstore_delete_remove1:
  "refs_of (refstore_delete rs oi r) = (refs_of rs)(oi := remove1 r (refs_of rs oi))"
  by (rule ext) (simp add: refs_of_refstore_delete)

text \<open>
  C12: refinement of the reference store to a bag of references per object: \<open>add\<close>
  adds one occurrence and \<open>delete\<close> removes one occurrence (none when absent).
\<close>

theorem reference_bag_refinement:
  "ref_bag (refstore_add rs oi r) = (ref_bag rs)(oi := add_mset r (ref_bag rs oi)) \<and>
   ref_bag (refstore_delete rs oi r) = (ref_bag rs)(oi := ref_bag rs oi - {#r#})"
  by (auto simp: ref_bag_def refs_of_refstore_add refs_of_refstore_delete)

text \<open>
  C18: the start index wraps around in Go\<acute>s 64-bit arithmetic. In ascending order with a
  positive page size and a non-negative page number whose page starts past the end of the
  results (so that no result should be returned), the query returns the results from the
  wrapped product \<open>pageNumber * pageSize mod 2^64\<close> (read as a signed integer) on, and it
  returns a non-empty page exactly when that wrapped index falls inside the results.
\<close>

theorem page_index_overflow:
  assumes "sort_order opts = SortAscending" "0 \<le> page_number opts" "0 < page_size opts"
    and "int (length xs) \<le> page_number opts * page_size opts"
  shows "paginate opts xs =
           Inr (if 0 \<le> wrap64 (page_number opts * page_size opts) \<and>
                   wrap64 (page_number opts * page_size opts) < int (length xs)
                then drop (nat (wrap64 (page_number opts * page_size opts))) xs else [],
                int (length xs)) \<and>
         ((\<exists>ys. paginate opts xs = Inr (ys, int (length xs)) \<and> ys \<noteq> []) \<longleftrightarrow>
          0 \<le> wrap64 (page_number opts * page_size opts) \<and>
          wrap64 (page_number opts * page_size opts) < int (length xs))"
  using assms
  by (auto simp: paginate_def get_start_index_def start_index_def go_slice_from_def Let_def)

theorem query_references_add_witness:
  "reference_stores mem_new Inbox = Some new_reference_store \<and>
   add_reference mem_new Inbox (Some demo_object) (Some (act_id demo_act1)) =
     Inr (mem_new\<lparr>reference_stores := (reference_stores mem_new)
            (Inbox \<mapsto> refstore_add new_reference_store demo_object (act_id demo_act1))\<rparr>) \<and>
   query_references (mem_new\<lparr>reference_stores := (reference_stores mem_new)
            (Inbox \<mapsto> refstore_add new_reference_store demo_object (act_id demo_act1))\<rparr>) Inbox
     (empty_criteria\<lparr>crit_object_iri := Some demo_object\<rparr>) default_query_options =
     Inr ([act_id demo_act1], 1)"
proof -
  have h1: "reference_stores mem_new Inbox = Some new_reference_store"
    by (simp add: mem_new_def known_ref_types_def)
  have h2: "add_reference mem_new Inbox (Some demo_object) (Some (act_id demo_act1)) =
     Inr (mem_new\<lparr>reference_stores := (reference_stores mem_new)
            (Inbox \<mapsto> refstore_add new_reference_store demo_object (act_id demo_act1))\<rparr>)"
    using h1 by (simp add: add_reference_def)
  show ?thesis
    using query_references_add [OF h1 h2] h1 h2
    by (simp add: refs_of_def new_reference_store_def)
qed

theorem query_activities_by_ref_unpaged_witness:
  "query_activities_by_ref demo_mem Inbox (empty_criteria\<lparr>crit_object_iri := Some demo_object\<rparr>)
     default_query_options = Inr ([demo_act2], 1)"
proof -
  have h1: "reference_stores demo_mem Inbox = Some \<lparr>iris_by_object = [demo_object \<mapsto> [act_id demo_act2]]\<rparr>"
    by (simp add: demo_mem_def)
  have h2: "crit_object_iri (empty_criteria\<lparr>crit_object_iri := Some demo_object\<rparr>) = Some demo_object"
    by simp
  have h3: "crit_reference_iri (empty_criteria\<lparr>crit_object_iri := Some demo_object\<rparr>) = None"
    by (simp add: empty_criteria_def)
  have h4: "page_size default_query_options \<le> 0" "sort_order default_query_options = SortAscending"
    by (simp_all add: default_query_options_def)
  show ?thesis
    using query_activities_by_ref_unpaged [OF h1 h2 h3 h4]
    by (simp add: refs_of_def demo_mem_def demo_act1_def demo_act2_def)
qed

theorem paginate_ascending_page_witness:
  "paginate \<lparr>page_number = 1, page_size = 2, sort_order = SortAscending\<rparr> [10, 20, 30, 40, 50 :: nat]
   = Inr ([30, 40, 50], 5)"
  using paginate_ascending_page [of "\<lparr>page_number = 1, page_size = 2, sort_order = SortAscending\<rparr>"
                                    "[10, 20, 30, 40, 50 :: nat]"]
  by simp

theorem page_index_overflow_witness:
  "paginate \<lparr>page_number = 2 ^ 32, page_size = 2 ^ 32, sort_order = SortAscending\<rparr> [10, 20, 30, 40, 50 :: nat]
   = Inr ([10, 20, 30, 40, 50], 5)"
  using page_index_overflow [of "\<lparr>page_number = 2 ^ 32, page_size = 2 ^ 32, sort_order = SortAscending\<rparr>"
                                "[10, 20, 30, 40, 50 :: nat]"]
  by (simp add: wrap64_def)

theorem get_start_index_desc_witness:
  "get_start_index 10 \<lparr>page_number = 2, page_size = 3, sort_order = SortDescending\<rparr> = 3"
proof -
  have f: "get_first_page_num 10 3 = 3"
    by (simp add: get_first_page_num_def go_div_def go_mod_def)
  show ?thesis
    using get_start_index_desc [of "\<lparr>page_number = 2, page_size = 3, sort_order = SortDescending\<rparr>" 10] f
    by simp
qed

text \<open>
  \<open>QueryActivities\<close> without both a reference type and an object, unpaged,
  returns the stored activities in insertion order (reversed when descending) that are
  listed in the activity IRIs of the query, or, when it lists none, that have one of the
  queried types (all when no type is given), and their number. The type criterion is
  ignored when activity IRIs are given.
\<close>

theorem query_activities_criteria:
  assumes "crit_ref_type q = None \<or> crit_object_iri q = None" and "page_size opts \<le> 0"
  shows "query_activities ms q opts =
    Inr (let xs = filter (\<lambda>a. if crit_activity_iris q \<noteq> [] then act_id a \<in> set (crit_activity_iris q)
                             else crit_types q = [] \<or> (\<exists>t \<in> set (crit_types q). t \<in> set (act_types a)))
                    (activities (act_store ms))
         in (if sort_order opts = SortDescending then rev xs else xs, int (length xs)))"
proof -
  have q: "query_activities ms q opts = activity_store_query (act_store ms) q opts"
    using assms(1) by (auto simp: query_activities_def split: option.splits)
  show ?thesis
    using assms(2)
    by (simp add: q activity_store_query_def activity_results_filter_def activity_filter_apply_def
        paginate_def get_start_index_def go_slice_from_def reverse_sort_def is_any_def contains_iri_iff Let_def)
qed

theorem query_activities_criteria_witness:
  "query_activities demo_mem (empty_criteria\<lparr>crit_types := [''Like'', ''Announce'']\<rparr>)
     (default_query_options\<lparr>sort_order := SortDescending\<rparr>) = Inr ([demo_act2], 1)"
proof -
  have "query_activities demo_mem (empty_criteria\<lparr>crit_types := [''Like'', ''Announce'']\<rparr>)
     (default_query_options\<lparr>sort_order := SortDescending\<rparr>) =
    Inr (let xs = filter (\<lambda>a. if crit_activity_iris (empty_criteria\<lparr>crit_types := [''Like'', ''Announce'']\<rparr>) \<noteq> []
                  then act_id a \<in> set (crit_activity_iris (empty_criteria\<lparr>crit_types := [''Like'', ''Announce'']\<rparr>))
                  else crit_types (empty_criteria\<lparr>crit_types := [''Like'', ''Announce'']\<rparr>) = [] \<or>
                    (\<exists>t \<in> set (crit_types (empty_criteria\<lparr>crit_types := [''Like'', ''Announce'']\<rparr>)). t \<in> set (act_types a)))
               (activities (act_store demo_mem))
         in (if sort_order (default_query_options\<lparr>sort_order := SortDescending\<rparr>) = SortDescending then rev xs else xs,
             int (length xs)))"
    by (rule query_activities_criteria) (simp_all add: empty_criteria_def default_query_options_def)
  then show ?thesis by (simp add: demo_mem_def demo_act1_def demo_act2_def empty_criteria_def)
qed

end
