(* ===== verification/Expiry.thy ===== *)
theory Expiry
  imports Orb_Prelude
begin

text \<open>
  The data expiry service (\<open>pkg/store/expiry\<close>, source file \<open>src/unnamed/part_005\<close>).
  Stores are registered with the tag under which their entries keep a Unix expiry time;
  the periodic task queries each registered store for entries whose tag is at most the
  current time, reads the keys from the iterator, passes them to the store's expiry
  handler, and deletes them in one batch. An error in one store is logged and the sweep
  goes on with the next store.

  The stores are an explicit heap (store number to store) because two registrations may
  name the same store. A store is its entries (key and tags) and a fault that its
  \<open>Query\<close>, iterator or \<open>Batch\<close> call reports; the storage interface itself is
  outside \<open>src/\<close> and modelled from the specification, section 6.
\<close>

section \<open>Storage interface\<close>

datatype store_fault =
    NoFault
  | QueryFails go_error
  | NextFails nat go_error
  | KeyFails nat go_error
  | BatchFails go_error

record kv_store =
  st_entries :: "(key \<times> (string \<rightharpoonup> int)) list"
  st_fault :: store_fault

text \<open>
  An iterator is the list of what successive \<open>Next\<close>/\<open>Key\<close> calls report: a key, a
  failing \<open>Key\<close> after a successful \<open>Next\<close>, or a failing \<open>Next\<close>. The end of the
  list is \<open>Next\<close> returning false.
\<close>

datatype it_item = ItKey key | ItKeyErr go_error | ItNextErr go_error

definition tag_le :: "string \<Rightarrow> int \<Rightarrow> key \<times> (string \<rightharpoonup> int) \<Rightarrow> bool" where
  "tag_le tag now e = (case snd e tag of None \<Rightarrow> False | Some v \<Rightarrow> v \<le> now)"

definition expired_keys :: "kv_store \<Rightarrow> string \<Rightarrow> int \<Rightarrow> key list" where
  "expired_keys st tag now = map fst (filter (tag_le tag now) (st_entries st))"

definition store_query :: "kv_store \<Rightarrow> string \<Rightarrow> int \<Rightarrow> go_error + it_item list" where
  "store_query st tag now =
     (let ks = expired_keys st tag now
      in case st_fault st of
           QueryFails e \<Rightarrow> Inl e
         | NextFails n e \<Rightarrow> Inr (map ItKey (take n ks) @ [ItNextErr e])
         | KeyFails n e \<Rightarrow> Inr (map ItKey (take n ks) @ [ItKeyErr e])
         | _ \<Rightarrow> Inr (map ItKey ks))"

definition store_batch_delete :: "kv_store \<Rightarrow> key list \<Rightarrow> go_error + kv_store" where
  "store_batch_delete st ks =
     (case st_fault st of
        BatchFails e \<Rightarrow> Inl e
      | _ \<Rightarrow> Inr (st\<lparr>st_entries := filter (\<lambda>e. fst e \<notin> set ks) (st_entries st)\<rparr>))"

type_synonym heap = "nat \<Rightarrow> kv_store"

section \<open>Registered stores and the service\<close>

type_synonym expiry_handler = "key list \<Rightarrow> go_error option"

record registered_store =
  rs_store :: nat
  rs_name :: string
  rs_tag :: string
  rs_handler :: expiry_handler

datatype expiry_option = WithExpiryHandler expiry_handler

record expiry_service =
  registered :: "registered_store list"

datatype expiry_event =
    HandlerCalled string "key list"
  | BatchDeleted string "key list"
  | Warned string go_error

definition noop_expiry_handler :: expiry_handler where
  "noop_expiry_handler ks = None"

definition new_service :: expiry_service where
  "new_service = \<lparr>registered = []\<rparr>"

fun apply_option :: "registered_store \<Rightarrow> expiry_option \<Rightarrow> registered_store" where
  "apply_option r (WithExpiryHandler h) = r\<lparr>rs_handler := h\<rparr>"

definition register ::
  "expiry_service \<Rightarrow> nat \<Rightarrow> string \<Rightarrow> string \<Rightarrow> expiry_option list \<Rightarrow> expiry_service" where
  "register s st tag name opts =
     s\<lparr>registered := registered s @
        [foldl apply_option
           \<lparr>rs_store = st, rs_name = name, rs_tag = tag, rs_handler = noop_expiry_handler\<rparr> opts]\<rparr>"

text \<open>The key-reading loop of \<open>registeredStore.deleteExpiredData\<close>.\<close>

fun read_expired_keys :: "it_item list \<Rightarrow> go_error + key list" where
  "read_expired_keys [] = Inr []"
| "read_expired_keys (ItNextErr e # _) = Inl (Wrap ''get next value from iterator'' e)"
| "read_expired_keys (ItKeyErr e # _) = Inl (Wrap ''get key from iterator'' e)"
| "read_expired_keys (ItKey k # rest) =
     (case read_expired_keys rest of Inl e \<Rightarrow> Inl e | Inr ks \<Rightarrow> Inr (k # ks))"

text \<open>
  \<open>registeredStore.deleteExpiredData\<close>: the error it returns, the heap after it, and
  the calls it made on the handler and the store.
\<close>

definition registered_delete_expired ::
  "registered_store \<Rightarrow> int \<Rightarrow> heap \<Rightarrow> go_error option \<times> heap \<times> expiry_event list" where
  "registered_delete_expired r now h =
     (case store_query (h (rs_store r)) (rs_tag r) now of
        Inl e \<Rightarrow> (Some (Wrap ''query store for expired data'' e), h, [])
      | Inr it \<Rightarrow>
          (case read_expired_keys it of
             Inl e \<Rightarrow> (Some e, h, [])
           | Inr ks \<Rightarrow>
               (case rs_handler r ks of
                  Some e \<Rightarrow> (Some (Wrap ''invoke expiry handler'' e), h, [HandlerCalled (rs_name r) ks])
                | None \<Rightarrow>
                    if ks = [] then (None, h, [HandlerCalled (rs_name r) ks])
                    else (case store_batch_delete (h (rs_store r)) ks of
                            Inl e \<Rightarrow> (Some (Wrap ''delete expired data'' e), h, [HandlerCalled (rs_name r) ks])
                          | Inr st' \<Rightarrow> (None, h(rs_store r := st'),
                                        [HandlerCalled (rs_name r) ks, BatchDeleted (rs_name r) ks])))))"

text \<open>\<open>Service.deleteExpiredData\<close>: every registered store in order; errors are logged.\<close>

fun sweep :: "registered_store list \<Rightarrow> int \<Rightarrow> heap \<Rightarrow> heap \<times> expiry_event list" where
  "sweep [] now h = (h, [])"
| "sweep (r # rs) now h =
     (let (err, h1, ev1) = registered_delete_expired r now h;
          ev_log = (case err of None \<Rightarrow> [] | Some e \<Rightarrow> [Warned (rs_name r) e]);
          (h2, ev2) = sweep rs now h1
      in (h2, ev1 @ ev_log @ ev2))"

definition service_delete_expired :: "expiry_service \<Rightarrow> int \<Rightarrow> heap \<Rightarrow> heap \<times> expiry_event list" where
  "service_delete_expired s now h = sweep (registered s) now h"

section \<open>Example inputs\<close>

definition demo_tag :: string where
  "demo_tag = ''expiryTime''"

definition demo_heap :: heap where
  "demo_heap = (\<lambda>_. \<lparr>st_entries = [], st_fault = QueryFails (Err ''connection refused'')\<rparr>)
     (0 := \<lparr>st_entries = [(''k1'', [demo_tag \<mapsto> 100]), (''k2'', [demo_tag \<mapsto> 300]), (''k3'', Map.empty)],
            st_fault = NoFault\<rparr>)"

definition demo_reg0 :: registered_store where
  "demo_reg0 = \<lparr>rs_store = 0, rs_name = ''anchor-events'', rs_tag = demo_tag, rs_handler = noop_expiry_handler\<rparr>"

definition demo_reg1 :: registered_store where
  "demo_reg1 = \<lparr>rs_store = 1, rs_name = ''did-anchors'', rs_tag = demo_tag, rs_handler = noop_expiry_handler\<rparr>"

section \<open>Properties\<close>


lemma read_expired_keys_keys [simp]: "read_expired_keys (map ItKey ks) = Inr ks"
  by (induction ks) auto

lemma registered_delete_expired_frame:
  "j \<noteq> rs_store r \<Longrightarrow> fst (snd (registered_delete_expired r now h)) j = h j"
  by (auto simp: registered_delete_expired_def split: sum.splits option.splits)

lemma registered_delete_expired_local:
  "h1 (rs_store r) = h2 (rs_store r) \<Longrightarrow>
   fst (snd (registered_delete_expired r now h1)) (rs_store r) =
   fst (snd (registered_delete_expired r now h2)) (rs_store r)"
  by (auto simp: registered_delete_expired_def split: sum.splits option.splits)

lemma filter_not_expired:
  "distinct (map fst es) \<Longrightarrow>
   filter (\<lambda>e. fst e \<notin> set (map fst (filter P es))) es = filter (\<lambda>e. \<not> P e) es"
proof (induction es)
  case Nil
  then show ?case by simp
next
  case (Cons e es)
  then have "fst e \<notin> fst ` set es" by simp
  then have "filter (\<lambda>x. fst x \<noteq> fst e \<and> fst x \<notin> fst ` set (filter P es)) es =
             filter (\<lambda>x. fst x \<notin> fst ` set (filter P es)) es"
    by (intro filter_cong) (auto intro: rev_image_eqI)
  with Cons show ?case by auto
qed

text \<open>C19: on a store whose calls succeed, with keys unique and an expiry handler that accepts the expired keys, \<open>deleteExpiredData\<close> returns no error and leaves exactly the entries whose expiry tag is absent or later than the current time (an entry expiring at the current time is deleted).\<close>

theorem delete_expired_removes_expired:
  assumes "st_fault (h (rs_store r)) = NoFault"
    and "rs_handler r (expired_keys (h (rs_store r)) (rs_tag r) now) = None"
    and "distinct (map fst (st_entries (h (rs_store r))))"
  shows "fst (registered_delete_expired r now h) = None \<and>
         st_entries (fst (snd (registered_delete_expired r now h)) (rs_store r)) =
           filter (\<lambda>e. \<not> tag_le (rs_tag r) now e) (st_entries (h (rs_store r)))"
proof -
  let ?st = "h (rs_store r)"
  let ?ks = "expired_keys ?st (rs_tag r) now"
  have q: "store_query ?st (rs_tag r) now = Inr (map ItKey ?ks)"
    using assms(1) by (simp add: store_query_def)
  have rest: "filter (\<lambda>e. fst e \<notin> set ?ks) (st_entries ?st) =
              filter (\<lambda>e. \<not> tag_le (rs_tag r) now e) (st_entries ?st)"
    using filter_not_expired [OF assms(3), of "tag_le (rs_tag r) now"]
    by (simp add: expired_keys_def)
  show ?thesis
  proof (cases "?ks = []")
    case True
    then have "filter (\<lambda>e. \<not> tag_le (rs_tag r) now e) (st_entries ?st) = st_entries ?st"
      using rest by simp
    with True q assms(2) show ?thesis
      by (simp add: registered_delete_expired_def)
  next
    case False
    with q assms(1,2) rest show ?thesis
      by (simp add: registered_delete_expired_def store_batch_delete_def
              )
  qed
qed

text \<open>C20: when \<open>deleteExpiredData\<close> of a registered store returns an error (query, iterator, expiry handler or batch failure) no store has changed.\<close>

theorem delete_expired_error_unchanged:
  "fst (registered_delete_expired r now h) \<noteq> None \<Longrightarrow> fst (snd (registered_delete_expired r now h)) = h"
  by (auto simp: registered_delete_expired_def split: sum.splits option.splits if_splits)

text \<open>C21: \<open>deleteExpiredData\<close> of one store: when the query or the iterator fails it
  returns an error, calls neither the handler nor the store, and leaves the store unchanged;
  when the keys are read, it calls the expiry handler first, with exactly those keys (also
  with none), and it deletes exactly those keys in one batch, its only change of the store,
  when the handler succeeds, the list is not empty and the batch succeeds; otherwise the store
  is unchanged and it returns no error only when the handler succeeded on no keys.\<close>

theorem delete_expired_events:
  "(case registered_delete_expired r now h of (err, h', ev) \<Rightarrow>
     (case store_query (h (rs_store r)) (rs_tag r) now of
        Inl _ \<Rightarrow> err \<noteq> None \<and> h' = h \<and> ev = []
      | Inr it \<Rightarrow>
          (case read_expired_keys it of
             Inl _ \<Rightarrow> err \<noteq> None \<and> h' = h \<and> ev = []
           | Inr ks \<Rightarrow>
               hd ev = HandlerCalled (rs_name r) ks \<and>
               (if rs_handler r ks = None \<and> ks \<noteq> [] \<and> (\<nexists>e. st_fault (h (rs_store r)) = BatchFails e)
                then err = None \<and> ev = [HandlerCalled (rs_name r) ks, BatchDeleted (rs_name r) ks] \<and>
                     h' = h(rs_store r := (h (rs_store r))\<lparr>st_entries :=
                            filter (\<lambda>e. fst e \<notin> set ks) (st_entries (h (rs_store r)))\<rparr>)
                else h' = h \<and> ev = [HandlerCalled (rs_name r) ks] \<and>
                     (err = None \<longleftrightarrow> rs_handler r ks = None \<and> ks = [])))))"
  by (auto simp: registered_delete_expired_def store_batch_delete_def
           split: sum.splits option.splits if_splits store_fault.splits)

lemma sweep_Cons_heap:
  "registered_delete_expired r now h = (e1, h1, ev1) \<Longrightarrow>
   fst (sweep (r # rs) now h) = fst (sweep rs now h1)"
  by (simp add: Let_def split: prod.splits)

lemma sweep_frame:
  "j \<notin> set (map rs_store rs) \<Longrightarrow> fst (sweep rs now h) j = h j"
proof (induction rs arbitrary: h)
  case Nil
  then show ?case by simp
next
  case (Cons r rs)
  obtain e1 h1 ev1 where rd: "registered_delete_expired r now h = (e1, h1, ev1)"
    by (cases "registered_delete_expired r now h") auto
  have "h1 j = h j"
    using registered_delete_expired_frame [of j r now h] Cons.prems rd by simp
  moreover have "fst (sweep rs now h1) j = h1 j"
    using Cons.IH Cons.prems by simp
  ultimately show ?case
    using sweep_Cons_heap [OF rd] by simp
qed

text \<open>C22: when the registrations name distinct stores, the periodic task leaves each registered store exactly as its own \<open>deleteExpiredData\<close> would from the initial state: an error in one store neither stops nor alters the sweep of the others.\<close>

theorem sweep_isolated:
  "distinct (map rs_store rs) \<Longrightarrow> r \<in> set rs \<Longrightarrow>
   fst (sweep rs now h) (rs_store r) = fst (snd (registered_delete_expired r now h)) (rs_store r)"
proof (induction rs arbitrary: h)
  case Nil
  then show ?case by simp
next
  case (Cons r' rs)
  show ?case
  proof (cases "r' = r")
    case True
    with Cons.prems have "rs_store r \<notin> set (map rs_store rs)" by simp
    obtain e1 h1 ev1 where rd: "registered_delete_expired r now h = (e1, h1, ev1)"
      by (cases "registered_delete_expired r now h") auto
    with True show ?thesis
      using sweep_Cons_heap [OF rd, of rs] sweep_frame [of "rs_store r" rs now h1]
        \<open>rs_store r \<notin> set (map rs_store rs)\<close> by simp
  next
    case False
    with Cons.prems have r: "r \<in> set rs" and d: "distinct (map rs_store rs)"
      and ne: "rs_store r' \<noteq> rs_store r"
      by (auto simp: image_iff)
    obtain e1 h1 ev1 where rd: "registered_delete_expired r' now h = (e1, h1, ev1)"
      by (cases "registered_delete_expired r' now h") auto
    have "h1 (rs_store r) = h (rs_store r)"
      using registered_delete_expired_frame [of "rs_store r" r' now h] ne rd by simp
    then have "fst (snd (registered_delete_expired r now h1)) (rs_store r) =
               fst (snd (registered_delete_expired r now h)) (rs_store r)"
      by (rule registered_delete_expired_local)
    with Cons.IH [OF d r, of h1] sweep_Cons_heap [OF rd, of rs] show ?thesis
      by simp
  qed
qed


theorem delete_expired_removes_expired_witness:
  "fst (registered_delete_expired demo_reg0 200 demo_heap) = None \<and>
   st_entries (fst (snd (registered_delete_expired demo_reg0 200 demo_heap)) 0) =
     [(''k2'', [demo_tag \<mapsto> 300]), (''k3'', Map.empty)]"
proof -
  have h1: "st_fault (demo_heap (rs_store demo_reg0)) = NoFault"
    and h2: "rs_handler demo_reg0 (expired_keys (demo_heap (rs_store demo_reg0)) (rs_tag demo_reg0) 200) = None"
    and h3: "distinct (map fst (st_entries (demo_heap (rs_store demo_reg0))))"
    by (simp_all add: demo_heap_def demo_reg0_def noop_expiry_handler_def)
  show ?thesis
    using delete_expired_removes_expired [where r = demo_reg0 and now = 200 and h = demo_heap, OF h1 h2 h3]
    by (simp add: demo_heap_def demo_reg0_def tag_le_def)
qed

theorem delete_expired_error_unchanged_witness:
  "fst (registered_delete_expired demo_reg1 200 demo_heap) =
     Some (Wrap ''query store for expired data'' (Err ''connection refused'')) \<and>
   fst (snd (registered_delete_expired demo_reg1 200 demo_heap)) = demo_heap"
proof -
  have e: "fst (registered_delete_expired demo_reg1 200 demo_heap) =
     Some (Wrap ''query store for expired data'' (Err ''connection refused''))"
    by (simp add: registered_delete_expired_def demo_reg1_def demo_heap_def store_query_def)
  show ?thesis using delete_expired_error_unchanged [of demo_reg1 200 demo_heap] e by simp
qed

theorem sweep_isolated_witness:
  "fst (sweep [demo_reg1, demo_reg0] 200 demo_heap) 0 =
     fst (snd (registered_delete_expired demo_reg0 200 demo_heap)) 0"
proof -
  have d: "distinct (map rs_store [demo_reg1, demo_reg0])"
    by (simp add: demo_reg0_def demo_reg1_def)
  have m: "demo_reg0 \<in> set [demo_reg1, demo_reg0]" by simp
  show ?thesis using sweep_isolated [OF d m] by (simp add: demo_reg0_def)
qed

end
