(* ===== verification/RestHandlers.thy ===== *)
theory RestHandlers
  imports Orb_Prelude
begin

text \<open>
  Two REST handlers that read and write a configuration store:
  \<^item> \<open>PolicyConfigurator.handle\<close> (\<open>POST /policy\<close>, source file \<open>src/unnamed/part_002\<close>)
    validates a witness policy with \<open>config.Parse\<close> and stores it under the witness
    policy key;
  \<^item> \<open>LogRetriever.handle\<close> (\<open>GET\<close> of the log URL,
    \<open>src/pkg/vct/resthandler/retriever.go\<close>) reads the log configuration and answers its URL.
  The policy parser is a parameter \<open>parse\<close> of the configurator (an interface the
  policy DSL theory implements), and the JSON decoder a parameter \<open>unmarshal\<close> of the
  retriever, as the code injects it through its \<open>unmarshal\<close> field.
\<close>

section \<open>Configuration store and responses\<close>

text \<open>
  \<open>storage.Store\<close> (outside \<open>src/\<close>) reduced to what the handlers use: its data, and
  the errors its \<open>Get\<close> and \<open>Put\<close> report.
\<close>

record config_store =
  cs_data :: "key \<rightharpoonup> string"
  cs_get_fault :: "go_error option"
  cs_put_fault :: "go_error option"

definition err_data_not_found :: go_error where
  "err_data_not_found = Err ''data not found''"

definition cs_get :: "config_store \<Rightarrow> key \<Rightarrow> go_error + string" where
  "cs_get cs k =
     (case cs_get_fault cs of
        Some e \<Rightarrow> Inl e
      | None \<Rightarrow> (case cs_data cs k of None \<Rightarrow> Inl err_data_not_found | Some v \<Rightarrow> Inr v))"

definition cs_put :: "config_store \<Rightarrow> key \<Rightarrow> string \<Rightarrow> go_error + config_store" where
  "cs_put cs k v =
     (case cs_put_fault cs of
        Some e \<Rightarrow> Inl e
      | None \<Rightarrow> Inr (cs\<lparr>cs_data := (cs_data cs)(k \<mapsto> v)\<rparr>))"

record http_response =
  resp_status :: nat
  resp_body :: string

definition bad_request_response :: string where
  "bad_request_response = ''Bad Request.''"

definition internal_server_error_response :: string where
  "internal_server_error_response = ''Internal Server Error.''"

definition witness_policy_key :: key where
  "witness_policy_key = ''witness-policy''"

definition log_url_key :: key where
  "log_url_key = ''log-url''"

text \<open>\<open>writeResponse\<close>: the status, then the body only when it is not empty.\<close>

definition write_response :: "nat \<Rightarrow> string \<Rightarrow> http_response" where
  "write_response status body =
     \<lparr>resp_status = status, resp_body = (if length body > 0 then body else [])\<rparr>"

section \<open>Policy configurator\<close>

text \<open>
  \<open>handle\<close>: the request body as \<open>ioutil.ReadAll\<close> returns it (an error or the
  bytes), the parser, and the store; the response and the store after the call.
\<close>

definition policy_handle ::
  "(string \<Rightarrow> go_error + 'p) \<Rightarrow> go_error + string \<Rightarrow> config_store \<Rightarrow> http_response \<times> config_store" where
  "policy_handle parse body cs =
     (case body of
        Inl _ \<Rightarrow> (write_response 400 bad_request_response, cs)
      | Inr policy \<Rightarrow>
          (case parse policy of
             Inl _ \<Rightarrow> (write_response 400 bad_request_response, cs)
           | Inr _ \<Rightarrow>
               (case cs_put cs witness_policy_key policy of
                  Inl _ \<Rightarrow> (write_response 500 internal_server_error_response, cs)
                | Inr cs' \<Rightarrow> (write_response 200 [], cs'))))"

fun policy_handle_all ::
  "(string \<Rightarrow> go_error + 'p) \<Rightarrow> (go_error + string) list \<Rightarrow> config_store \<Rightarrow> http_response list \<times> config_store" where
  "policy_handle_all parse [] cs = ([], cs)"
| "policy_handle_all parse (b # bs) cs =
     (let (r, cs1) = policy_handle parse b cs;
          (rs, cs2) = policy_handle_all parse bs cs1
      in (r # rs, cs2))"

section \<open>Log URL retriever\<close>

record log_config =
  log_url :: string

text \<open>
  The handler decodes into \<open>&logConfig\<close>, a \<open>**logConfig\<close>: the decoder yields the
  pointer \<open>logConfig\<close>, which a JSON \<open>null\<close> sets to \<open>nil\<close> without an error
  (\<open>None\<close>). Reading \<open>logConfig.URL\<close> through a \<open>nil\<close> pointer panics; the panic is the
  \<open>Inl\<close> outcome of the handler, which writes no response.
\<close>

definition nil_pointer_panic :: go_error where
  "nil_pointer_panic = Panic ''runtime error: invalid memory address or nil pointer dereference''"

definition log_handle ::
  "(string \<Rightarrow> go_error + log_config option) \<Rightarrow> config_store \<Rightarrow> go_error + http_response" where
  "log_handle unmarshal cs =
     (case cs_get cs log_url_key of
        Inl e \<Rightarrow>
          if errors_is e err_data_not_found then Inr (write_response 404 [])
          else Inr (write_response 500 internal_server_error_response)
      | Inr bytes \<Rightarrow>
          (case unmarshal bytes of
             Inl _ \<Rightarrow> Inr (write_response 500 internal_server_error_response)
           | Inr None \<Rightarrow> Inl nil_pointer_panic
           | Inr (Some cfg) \<Rightarrow> Inr (write_response 200 (log_url cfg))))"

section \<open>Handler registration\<close>

text \<open>
  The handlers as the REST service registers them: each has a path, an HTTP method and a
  handler over the store it was created with. The handler of the configurator returns
  the configurator with its store updated.
\<close>

definition policy_endpoint :: string where
  "policy_endpoint = ''/policy''"

record policy_configurator =
  pc_verify_actor_in_signature :: bool
  pc_config_store :: config_store

definition pc_path :: "policy_configurator \<Rightarrow> string" where
  "pc_path pc = policy_endpoint"

definition pc_method :: "policy_configurator \<Rightarrow> string" where
  "pc_method pc = ''POST''"

definition pc_handler ::
  "(string \<Rightarrow> go_error + 'p) \<Rightarrow> policy_configurator \<Rightarrow> go_error + string \<Rightarrow>
   http_response \<times> policy_configurator" where
  "pc_handler parse pc body =
     (case policy_handle parse body (pc_config_store pc) of
        (r, cs') \<Rightarrow> (r, pc\<lparr>pc_config_store := cs'\<rparr>))"

definition pc_new :: "config_store \<Rightarrow> policy_configurator" where
  "pc_new cs = \<lparr>pc_verify_actor_in_signature = False, pc_config_store = cs\<rparr>"

text \<open>
  The log retriever keeps its store and its JSON decoder (\<open>json.Unmarshal\<close>, a library
  function, which the model takes as a parameter); its logger is not modelled.
\<close>

record log_retriever =
  lr_config_store :: config_store
  lr_unmarshal :: "string \<Rightarrow> go_error + log_config option"

definition lr_method :: "log_retriever \<Rightarrow> string" where
  "lr_method lr = ''GET''"

definition lr_handler :: "log_retriever \<Rightarrow> go_error + http_response" where
  "lr_handler lr = log_handle (lr_unmarshal lr) (lr_config_store lr)"

definition new_retriever :: "config_store \<Rightarrow> (string \<Rightarrow> go_error + log_config option) \<Rightarrow> log_retriever" where
  "new_retriever cs unmarshal = \<lparr>lr_config_store = cs, lr_unmarshal = unmarshal\<rparr>"

section \<open>Invariants\<close>

text \<open>Every witness policy in the store is accepted by the parser.\<close>

definition stored_policy_parses :: "(string \<Rightarrow> go_error + 'p) \<Rightarrow> config_store \<Rightarrow> bool" where
  "stored_policy_parses parse cs \<longleftrightarrow>
     (case cs_data cs witness_policy_key of None \<Rightarrow> True | Some p \<Rightarrow> \<not> isl (parse p))"

section \<open>Example inputs\<close>

definition demo_cs :: config_store where
  "demo_cs = \<lparr>cs_data = [log_url_key \<mapsto> ''{\"url\":\"https://vct.example.com/maple2022\"}''],
              cs_get_fault = None, cs_put_fault = None\<rparr>"

definition demo_unmarshal :: "string \<Rightarrow> go_error + log_config option" where
  "demo_unmarshal b =
     (if b = ''{\"url\":\"https://vct.example.com/maple2022\"}''
      then Inr (Some \<lparr>log_url = ''https://vct.example.com/maple2022''\<rparr>)
      else if b = ''null'' then Inr None
      else Inl (Err ''invalid character''))"

section \<open>Properties\<close>

lemma policy_handle_preserves:
  "stored_policy_parses parse cs \<Longrightarrow> stored_policy_parses parse (snd (policy_handle parse b cs))"
  by (auto simp: policy_handle_def stored_policy_parses_def cs_put_def
           split: sum.splits option.splits)

lemma policy_handle_all_preserves:
  "stored_policy_parses parse cs \<Longrightarrow> stored_policy_parses parse (snd (policy_handle_all parse bs cs))"
proof (induction bs arbitrary: cs)
  case Nil
  then show ?case by simp
next
  case (Cons b bs)
  obtain r cs1 where h: "policy_handle parse b cs = (r, cs1)"
    by (cases "policy_handle parse b cs") auto
  have "stored_policy_parses parse cs1"
    using policy_handle_preserves [OF Cons.prems, of b] h by simp
  then have "stored_policy_parses parse (snd (policy_handle_all parse bs cs1))"
    by (rule Cons.IH)
  moreover have "snd (policy_handle_all parse (b # bs) cs) = snd (policy_handle_all parse bs cs1)"
    using h by (simp split: prod.splits)
  ultimately show ?case by simp
qed

text \<open>
  C23: the outcomes of \<open>PolicyConfigurator.handle\<close>: 200 after storing the body under
  the witness policy key when the body was read, parses, and the store accepted it; 400
  with the store unchanged when the body cannot be read or does not parse; 500 with the
  store unchanged when the store\<acute>s \<open>Put\<close> fails.
\<close>

theorem policy_handle_outcomes:
  "policy_handle parse body cs = (r, cs') \<Longrightarrow>
   (resp_status r = 200 \<and> resp_body r = [] \<and>
      (\<exists>p v. body = Inr p \<and> parse p = Inr v \<and> cs_put_fault cs = None \<and>
             cs' = cs\<lparr>cs_data := (cs_data cs)(witness_policy_key \<mapsto> p)\<rparr>)) \<or>
   (resp_status r = 400 \<and> resp_body r = bad_request_response \<and> cs' = cs \<and>
      (isl body \<or> (\<exists>p e. body = Inr p \<and> parse p = Inl e))) \<or>
   (resp_status r = 500 \<and> resp_body r = internal_server_error_response \<and> cs' = cs \<and>
      (\<exists>e. cs_put_fault cs = Some e))"
  by (auto simp: policy_handle_def write_response_def cs_put_def bad_request_response_def
                 internal_server_error_response_def
           split: sum.splits option.splits)

theorem policy_handle_outcomes_witness:
  "policy_handle (\<lambda>p. if p = ''OutOf(1,system)'' then Inr () else Inl (Err ''rule not supported''))
     (Inr ''OutOf(1,system)'') demo_cs =
   (\<lparr>resp_status = 200, resp_body = []\<rparr>,
    demo_cs\<lparr>cs_data := (cs_data demo_cs)(witness_policy_key \<mapsto> ''OutOf(1,system)'')\<rparr>)"
proof -
  have h: "policy_handle (\<lambda>p. if p = ''OutOf(1,system)'' then Inr () else Inl (Err ''rule not supported''))
     (Inr ''OutOf(1,system)'') demo_cs =
   (\<lparr>resp_status = 200, resp_body = []\<rparr>,
    demo_cs\<lparr>cs_data := (cs_data demo_cs)(witness_policy_key \<mapsto> ''OutOf(1,system)'')\<rparr>)"
    by (simp add: policy_handle_def cs_put_def demo_cs_def write_response_def)
  from policy_handle_outcomes [OF h] h show ?thesis by simp
qed

text \<open>
  C24: \<open>LogRetriever.handle\<close> answers 200 exactly when the log configuration is read
  and decodes to a configuration, 404 exactly when the store reports data not found (also
  wrapped, through \<open>errors.Is\<close>), and 500 on any other store or decoding error; it panics
  exactly when the stored configuration is JSON \<open>null\<close>, which decodes without an error
  into a \<open>nil\<close> pointer.
\<close>

theorem log_handle_status:
  "((\<exists>r. log_handle unmarshal cs = Inr r \<and> resp_status r = 200) \<longleftrightarrow>
      (\<exists>b cfg. cs_get cs log_url_key = Inr b \<and> unmarshal b = Inr (Some cfg))) \<and>
   ((\<exists>r. log_handle unmarshal cs = Inr r \<and> resp_status r = 404) \<longleftrightarrow>
      (\<exists>e. cs_get cs log_url_key = Inl e \<and> errors_is e err_data_not_found)) \<and>
   (log_handle unmarshal cs = Inl nil_pointer_panic \<longleftrightarrow>
      (\<exists>b. cs_get cs log_url_key = Inr b \<and> unmarshal b = Inr None)) \<and>
   (\<forall>r. log_handle unmarshal cs = Inr r \<longrightarrow> resp_status r \<in> {200, 404, 500}) \<and>
   (\<forall>e. log_handle unmarshal cs = Inl e \<longrightarrow> e = nil_pointer_panic)"
  by (auto simp: log_handle_def write_response_def split: sum.splits option.splits)

theorem log_handle_status_witness:
  "log_handle demo_unmarshal (demo_cs\<lparr>cs_data := (cs_data demo_cs)(log_url_key \<mapsto> ''null'')\<rparr>) =
     Inl nil_pointer_panic"
proof -
  have "\<exists>b. cs_get (demo_cs\<lparr>cs_data := (cs_data demo_cs)(log_url_key \<mapsto> ''null'')\<rparr>) log_url_key = Inr b \<and>
            demo_unmarshal b = Inr None"
    by (simp add: cs_get_def demo_cs_def demo_unmarshal_def)
  then show ?thesis
    using log_handle_status [of demo_unmarshal "demo_cs\<lparr>cs_data := (cs_data demo_cs)(log_url_key \<mapsto> ''null'')\<rparr>"]
    by blast
qed

text \<open>
  Storing a log URL and retrieving it round-trips: with a decoder that inverts the
  encoder, \<open>handle\<close> answers 200 with exactly the stored URL.
\<close>

theorem log_store_retrieve_roundtrip:
  "cs_get_fault cs = None \<Longrightarrow> unmarshal (marshal url) = Inr (Some \<lparr>log_url = url\<rparr>) \<Longrightarrow>
   log_handle unmarshal (cs\<lparr>cs_data := (cs_data cs)(log_url_key \<mapsto> marshal url)\<rparr>) =
     Inr \<lparr>resp_status = 200, resp_body = url\<rparr>"
  by (simp add: log_handle_def cs_get_def write_response_def)

theorem log_store_retrieve_roundtrip_witness:
  "log_handle demo_unmarshal
     (demo_cs\<lparr>cs_data := (cs_data demo_cs)(log_url_key \<mapsto>
        (\<lambda>u. ''{\"url\":\"'' @ u @ ''\"}'') ''https://vct.example.com/maple2022'')\<rparr>) =
   Inr \<lparr>resp_status = 200, resp_body = ''https://vct.example.com/maple2022''\<rparr>"
  by (rule log_store_retrieve_roundtrip) (simp_all add: demo_cs_def demo_unmarshal_def)

text \<open>
  A store error that wraps \<open>ErrDataNotFound\<close> is still answered 404: the handler
  uses \<open>errors.Is\<close>.
\<close>

theorem log_handle_wrapped_not_found:
  "cs_get_fault cs = Some (Wrap ctx err_data_not_found) \<Longrightarrow>
   log_handle unmarshal cs = Inr \<lparr>resp_status = 404, resp_body = []\<rparr>"
  by (simp add: log_handle_def cs_get_def write_response_def err_data_not_found_def)

theorem log_handle_wrapped_not_found_witness:
  "log_handle demo_unmarshal (demo_cs\<lparr>cs_get_fault := Some (Wrap ''get config'' err_data_not_found)\<rparr>) =
     Inr \<lparr>resp_status = 404, resp_body = []\<rparr>"
  by (rule log_handle_wrapped_not_found) simp

end
