(* ===== verification/PolicyDSL.thy ===== *)
theory PolicyDSL
  imports Orb_Prelude
begin

text \<open>
  The witness policy language (\<open>pkg/anchor/witness/policy\<close> and its \<open>config\<close>
  package). Its implementation is not among the sources under \<open>src/\<close>, only its tests
  (\<open>src/unnamed/part_001\<close>); it is modelled from the specification, sections 3, 4.5 and
  4.6, and agrees with those tests. A policy is a boolean combination of per-role rules and
  a \<open>LogRequired\<close> flag; tokens are separated by spaces, a rule is one token such as
  \<open>MinPercent(50,batch)\<close>, \<open>AND\<close> binds tighter than \<open>OR\<close> and both associate to
  the left; the empty policy is 100 percent of the batch and 100 percent of the system
  witnesses.
\<close>

section \<open>Syntax\<close>

datatype role = Batch | System

datatype rule = MinPercent nat role | OutOf nat role

datatype pexpr = Leaf rule | PAnd pexpr pexpr | POr pexpr pexpr

record policy =
  pol_expr :: pexpr
  log_required :: bool

definition default_expr :: pexpr where
  "default_expr = PAnd (Leaf (MinPercent 100 Batch)) (Leaf (MinPercent 100 System))"

section \<open>Lexing\<close>

text \<open>Splitting at spaces, empty fields dropped.\<close>

fun split_spaces :: "string \<Rightarrow> string \<Rightarrow> string list" where
  "split_spaces acc [] = (if acc = [] then [] else [rev acc])"
| "split_spaces acc (c # cs) =
     (if c = CHR '' '' then (if acc = [] then split_spaces [] cs else rev acc # split_spaces [] cs)
      else split_spaces (c # acc) cs)"

definition tokens :: "string \<Rightarrow> string list" where
  "tokens s = split_spaces [] s"

fun split_comma :: "string \<Rightarrow> string \<Rightarrow> string list" where
  "split_comma acc [] = [rev acc]"
| "split_comma acc (c # cs) =
     (if c = CHR '','' then rev acc # split_comma [] cs else split_comma (c # acc) cs)"

definition is_dec_digit :: "char \<Rightarrow> bool" where
  "is_dec_digit c = ((48::nat) \<le> of_char c \<and> of_char c \<le> (57::nat))"

definition parse_nat :: "string \<Rightarrow> nat option" where
  "parse_nat s =
     (if s \<noteq> [] \<and> list_all is_dec_digit s
      then Some (foldl (\<lambda>n c. 10 * n + (of_char c - (48::nat))) 0 s) else None)"

definition strip_affixes :: "string \<Rightarrow> string \<Rightarrow> string \<Rightarrow> string option" where
  "strip_affixes pre suf s =
     (if length pre + length suf \<le> length s \<and> take (length pre) s = pre \<and>
         drop (length s - length suf) s = suf
      then Some (take (length s - length suf - length pre) (drop (length pre) s)) else None)"

definition parse_role :: "string \<Rightarrow> role option" where
  "parse_role s = (if s = ''batch'' then Some Batch else if s = ''system'' then Some System else None)"

definition rule_not_supported :: "string \<Rightarrow> go_error" where
  "rule_not_supported tok = Err (''rule not supported: '' @ tok)"

text \<open>The two arguments of a rule token: a decimal number and a role.\<close>

definition parse_args :: "string \<Rightarrow> (nat \<times> role) option" where
  "parse_args s =
     (case split_comma [] s of
        [n, r] \<Rightarrow> (case (parse_nat n, parse_role r) of (Some k, Some ro) \<Rightarrow> Some (k, ro) | _ \<Rightarrow> None)
      | _ \<Rightarrow> None)"

definition parse_rule :: "string \<Rightarrow> go_error + rule" where
  "parse_rule tok =
     (case strip_affixes ''MinPercent('' '')'' tok of
        Some a \<Rightarrow>
          (case parse_args a of
             Some (p, ro) \<Rightarrow> if p \<le> 100 then Inr (MinPercent p ro)
                            else Inl (Err ''minimum percent must be between 0 and 100'')
           | None \<Rightarrow> Inl (rule_not_supported tok))
      | None \<Rightarrow>
          (case strip_affixes ''OutOf('' '')'' tok of
             Some a \<Rightarrow>
               (case parse_args a of
                  Some (n, ro) \<Rightarrow> Inr (OutOf n ro)
                | None \<Rightarrow> Inl (rule_not_supported tok))
           | None \<Rightarrow> Inl (rule_not_supported tok)))"

section \<open>Parsing\<close>

datatype op = OpAnd | OpOr

text \<open>A rule followed by operator-rule pairs.\<close>

fun parse_tail :: "string list \<Rightarrow> go_error + (op \<times> rule) list" where
  "parse_tail [] = Inr []"
| "parse_tail [t] = Inl (rule_not_supported t)"
| "parse_tail (opt # t # ts) =
     (let oper = (if opt = ''AND'' then Some OpAnd else if opt = ''OR'' then Some OpOr else None)
      in case oper of
           None \<Rightarrow> Inl (rule_not_supported opt)
         | Some p \<Rightarrow>
             (case parse_rule t of
                Inl e \<Rightarrow> Inl e
              | Inr r \<Rightarrow> (case parse_tail ts of Inl e \<Rightarrow> Inl e | Inr rest \<Rightarrow> Inr ((p, r) # rest))))"

text \<open>
  Building the tree: the rules joined by \<open>AND\<close> group first, the groups are joined by
  \<open>OR\<close>, both to the left. \<open>build acc_or acc_and rest\<close> holds the finished
  disjunction (if any) and the conjunction under construction.
\<close>

fun build :: "pexpr option \<Rightarrow> pexpr \<Rightarrow> (op \<times> rule) list \<Rightarrow> pexpr" where
  "build dis con [] = (case dis of None \<Rightarrow> con | Some d \<Rightarrow> POr d con)"
| "build dis con ((OpAnd, r) # rest) = build dis (PAnd con (Leaf r)) rest"
| "build dis con ((OpOr, r) # rest) =
     build (Some (case dis of None \<Rightarrow> con | Some d \<Rightarrow> POr d con)) (Leaf r) rest"

definition parse_expr :: "string list \<Rightarrow> go_error + pexpr" where
  "parse_expr ts =
     (case ts of
        [] \<Rightarrow> Inr default_expr
      | t # rest \<Rightarrow>
          (case parse_rule t of
             Inl e \<Rightarrow> Inl e
           | Inr r \<Rightarrow> (case parse_tail rest of Inl e \<Rightarrow> Inl e | Inr ps \<Rightarrow> Inr (build None (Leaf r) ps))))"

definition parse_policy :: "string \<Rightarrow> go_error + policy" where
  "parse_policy s =
     (let ts = tokens s
      in if ts \<noteq> [] \<and> last ts = ''LogRequired''
         then map_sum id (\<lambda>e. \<lparr>pol_expr = e, log_required = True\<rparr>) (parse_expr (butlast ts))
         else map_sum id (\<lambda>e. \<lparr>pol_expr = e, log_required = False\<rparr>) (parse_expr ts))"

section \<open>Printing\<close>

definition digit_char :: "nat \<Rightarrow> char" where
  "digit_char d = char_of (48 + d)"

fun show_nat :: "nat \<Rightarrow> string" where
  "show_nat n = (if n < 10 then [digit_char n] else show_nat (n div 10) @ [digit_char (n mod 10)])"

declare show_nat.simps [simp del]

fun show_role :: "role \<Rightarrow> string" where
  "show_role Batch = ''batch''"
| "show_role System = ''system''"

fun show_rule :: "rule \<Rightarrow> string" where
  "show_rule (MinPercent p r) = ''MinPercent('' @ show_nat p @ '','' @ show_role r @ '')''"
| "show_rule (OutOf n r) = ''OutOf('' @ show_nat n @ '','' @ show_role r @ '')''"

fun show_expr :: "pexpr \<Rightarrow> string" where
  "show_expr (Leaf r) = show_rule r"
| "show_expr (PAnd a b) = show_expr a @ '' AND '' @ show_expr b"
| "show_expr (POr a b) = show_expr a @ '' OR '' @ show_expr b"

definition show_policy :: "policy \<Rightarrow> string" where
  "show_policy p = show_expr (pol_expr p) @ (if log_required p then '' LogRequired'' else [])"

text \<open>Tokens joined by single spaces, the printer's layout.\<close>

fun unwords :: "string list \<Rightarrow> string" where
  "unwords [] = []"
| "unwords [t] = t"
| "unwords (t # ts) = t @ CHR '' '' # unwords ts"

fun show_op :: "op \<Rightarrow> string" where
  "show_op OpAnd = ''AND''"
| "show_op OpOr = ''OR''"

definition pair_tokens :: "(op \<times> rule) list \<Rightarrow> string list" where
  "pair_tokens ps = concat (map (\<lambda>(p, r). [show_op p, show_rule r]) ps)"

text \<open>
  The trees the parser builds: a left-nested disjunction of left-nested conjunctions of
  rules, with percentages at most 100.
\<close>

fun rule_ok :: "rule \<Rightarrow> bool" where
  "rule_ok (MinPercent p _) = (p \<le> 100)"
| "rule_ok (OutOf _ _) = True"

fun and_chain :: "pexpr \<Rightarrow> bool" where
  "and_chain (Leaf r) = rule_ok r"
| "and_chain (PAnd a (Leaf r)) = (and_chain a \<and> rule_ok r)"
| "and_chain _ = False"

fun or_chain :: "pexpr \<Rightarrow> bool" where
  "or_chain (POr a b) = (or_chain a \<and> and_chain b)"
| "or_chain (Leaf r) = and_chain (Leaf r)"
| "or_chain (PAnd a b) = and_chain (PAnd a b)"

text \<open>
  A chain as the parser reads it: its first rule and the operator-rule pairs after it;
  \<open>collapse\<close> is the tree \<open>build\<close> returns at the end of its input.
\<close>

fun and_flat :: "pexpr \<Rightarrow> rule \<times> (op \<times> rule) list" where
  "and_flat (Leaf r) = (r, [])"
| "and_flat (PAnd a b) = (let (r0, ps) = and_flat a in (r0, ps @ [(OpAnd, fst (and_flat b))]))"
| "and_flat (POr a b) = and_flat a"

fun or_flat :: "pexpr \<Rightarrow> rule \<times> (op \<times> rule) list" where
  "or_flat (POr a b) =
     (let (r0, ps) = or_flat a; (r1, qs) = and_flat b in (r0, ps @ [(OpOr, r1)] @ qs))"
| "or_flat e = and_flat e"

definition collapse :: "pexpr option \<Rightarrow> pexpr \<Rightarrow> pexpr" where
  "collapse dis con = (case dis of None \<Rightarrow> con | Some d \<Rightarrow> POr d con)"

section \<open>Evaluation\<close>

record witness =
  w_type :: role
  w_uri :: iri
  w_has_log :: bool

record witness_proof =
  wp_witness :: witness
  wp_proof :: string

definition eligible :: "bool \<Rightarrow> role \<Rightarrow> witness_proof list \<Rightarrow> witness_proof list" where
  "eligible log ro ws = filter (\<lambda>w. w_type (wp_witness w) = ro \<and> (\<not> log \<or> w_has_log (wp_witness w))) ws"

definition proofs :: "witness_proof list \<Rightarrow> nat" where
  "proofs ws = length (filter (\<lambda>w. wp_proof w \<noteq> []) ws)"

fun eval_rule :: "bool \<Rightarrow> witness_proof list \<Rightarrow> rule \<Rightarrow> bool" where
  "eval_rule log ws (MinPercent p ro) =
     (let w = eligible log ro ws in w = [] \<or> p * length w \<le> proofs w * 100)"
| "eval_rule log ws (OutOf n ro) = (n \<le> proofs (eligible log ro ws))"

fun eval_expr :: "bool \<Rightarrow> witness_proof list \<Rightarrow> pexpr \<Rightarrow> bool" where
  "eval_expr log ws (Leaf r) = eval_rule log ws r"
| "eval_expr log ws (PAnd a b) = (eval_expr log ws a \<and> eval_expr log ws b)"
| "eval_expr log ws (POr a b) = (eval_expr log ws a \<or> eval_expr log ws b)"

definition evaluate :: "policy \<Rightarrow> witness_proof list \<Rightarrow> bool" where
  "evaluate pol ws = eval_expr (log_required pol) ws (pol_expr pol)"

text \<open>
  New proofs arriving for the witnesses already known: the same witnesses in the same order,
  each proof present before still present.
\<close>

definition proofs_arrived :: "witness_proof list \<Rightarrow> witness_proof list \<Rightarrow> bool" where
  "proofs_arrived ws ws' =
     list_all2 (\<lambda>w w'. wp_witness w' = wp_witness w \<and> (wp_proof w \<noteq> [] \<longrightarrow> wp_proof w' \<noteq> [])) ws ws'"

text \<open>The policy and witnesses of scenario 4 of the specification.\<close>

definition scen_text :: string where
  "scen_text = ''MinPercent(50,batch) AND MinPercent(50,system) LogRequired''"

definition scen_witnesses :: "witness_proof list" where
  "scen_witnesses =
     [\<lparr>wp_witness = \<lparr>w_type = Batch, w_uri = ''https://w1'', w_has_log = True\<rparr>, wp_proof = ''p1''\<rparr>,
      \<lparr>wp_witness = \<lparr>w_type = Batch, w_uri = ''https://w2'', w_has_log = False\<rparr>, wp_proof = []\<rparr>,
      \<lparr>wp_witness = \<lparr>w_type = System, w_uri = ''https://w3'', w_has_log = True\<rparr>, wp_proof = ''p3''\<rparr>,
      \<lparr>wp_witness = \<lparr>w_type = System, w_uri = ''https://w4'', w_has_log = False\<rparr>, wp_proof = []\<rparr>]"

section \<open>Lemmas\<close>

subsection \<open>Lexing and printing\<close>

lemma digit_char_simps:
  "digit_char 0 = CHR ''0''" "digit_char 1 = CHR ''1''" "digit_char 2 = CHR ''2''"
  "digit_char 3 = CHR ''3''" "digit_char 4 = CHR ''4''" "digit_char 5 = CHR ''5''"
  "digit_char 6 = CHR ''6''" "digit_char 7 = CHR ''7''" "digit_char 8 = CHR ''8''"
  "digit_char 9 = CHR ''9''" "digit_char (Suc 0) = CHR ''1''" "digit_char (Suc (Suc 0)) = CHR ''2''"
  by (simp_all add: digit_char_def char_of_def bit_simps)

lemma split_spaces_word:
  "CHR '' '' \<notin> set s \<Longrightarrow> split_spaces acc (s @ cs) = split_spaces (rev s @ acc) cs"
  by (induction s arbitrary: acc) auto

lemma tokens_unwords:
  "\<forall>t \<in> set ts. t \<noteq> [] \<and> CHR '' '' \<notin> set t \<Longrightarrow> tokens (unwords ts) = ts"
proof (induction ts rule: unwords.induct)
  case 1
  then show ?case by (simp add: tokens_def)
next
  case (2 t)
  then show ?case using split_spaces_word [of t "[]" "[]"] by (simp add: tokens_def)
next
  case (3 t u us)
  then have "split_spaces [] (t @ CHR '' '' # unwords (u # us)) = t # split_spaces [] (unwords (u # us))"
    using split_spaces_word [of t "[]" "CHR '' '' # unwords (u # us)"] by simp
  with 3 show ?case by (simp add: tokens_def)
qed

lemma show_nat_digits: "show_nat n \<noteq> [] \<and> list_all is_dec_digit (show_nat n)"
proof (induction n rule: show_nat.induct)
  case (1 n)
  then show ?case
    by (auto simp: show_nat.simps [of n] is_dec_digit_def digit_char_def)
qed

lemma parse_nat_show_nat: "parse_nat (show_nat n) = Some n"
proof (induction n rule: show_nat.induct)
  case (1 n)
  have d: "\<And>d. d < 10 \<Longrightarrow> of_char (digit_char d) - (48::nat) = d"
    by (simp add: digit_char_def)
  show ?case
  proof (cases "n < 10")
    case True
    then show ?thesis
      by (simp add: show_nat.simps [of n] parse_nat_def d is_dec_digit_def digit_char_def)
  next
    case False
    with "1.IH" have ih: "foldl (\<lambda>n c. 10 * n + (of_char c - (48::nat))) 0 (show_nat (n div 10)) = n div 10"
      by (simp add: parse_nat_def show_nat_digits split: if_splits)
    have "show_nat n = show_nat (n div 10) @ [digit_char (n mod 10)]"
      using False by (simp add: show_nat.simps [of n])
    moreover have "is_dec_digit (digit_char (n mod 10))"
      by (simp add: is_dec_digit_def digit_char_def)
    ultimately show ?thesis
      using ih show_nat_digits [of "n div 10"] d [of "n mod 10"]
      by (simp add: parse_nat_def)
  qed
qed

lemma split_comma_word:
  "CHR '','' \<notin> set s \<Longrightarrow> split_comma acc (s @ cs) = split_comma (rev s @ acc) cs"
  by (induction s arbitrary: acc) auto

lemma show_nat_no_comma: "CHR '','' \<notin> set (show_nat n)"
  using show_nat_digits [of n] by (auto simp: list_all_iff is_dec_digit_def)

lemma show_nat_no_space: "CHR '' '' \<notin> set (show_nat n)"
  using show_nat_digits [of n] by (auto simp: list_all_iff is_dec_digit_def)

lemma parse_args_show:
  "parse_args (show_nat n @ CHR '','' # show_role ro) = Some (n, ro)"
proof -
  have "split_comma [] (show_nat n @ CHR '','' # show_role ro) = [show_nat n, show_role ro]"
    using split_comma_word [OF show_nat_no_comma, where acc = "[]" and cs = "CHR '','' # show_role ro"]
          split_comma_word [of "show_role ro" "[]" "[]"]
    by (cases ro) simp_all
  moreover have "parse_role (show_role ro) = Some ro"
    by (cases ro) (simp_all add: parse_role_def)
  ultimately show ?thesis
    by (simp add: parse_args_def parse_nat_show_nat)
qed

lemma strip_affixes_append:
  "strip_affixes pre suf (pre @ x @ suf) = Some x"
  by (simp add: strip_affixes_def)

lemma parse_rule_show_min:
  "parse_rule (show_rule (MinPercent p ro)) =
   (if p \<le> 100 then Inr (MinPercent p ro) else Inl (Err ''minimum percent must be between 0 and 100''))"
proof -
  have "show_rule (MinPercent p ro) = ''MinPercent('' @ (show_nat p @ CHR '','' # show_role ro) @ '')''"
    by simp
  then show ?thesis
    by (simp only: parse_rule_def strip_affixes_append) (simp add: parse_args_show)
qed

lemma parse_rule_show_rule:
  assumes ok: "rule_ok r"
  shows "parse_rule (show_rule r) = Inr r"
proof (cases r)
  case (MinPercent p ro)
  then show ?thesis
    using ok by (simp only: parse_rule_show_min) simp
next
  case (OutOf n ro)
  have eq: "show_rule (OutOf n ro) = ''OutOf('' @ (show_nat n @ CHR '','' # show_role ro) @ '')''"
    by simp
  have m: "strip_affixes ''MinPercent('' '')'' (show_rule (OutOf n ro)) = None"
    by (simp add: strip_affixes_def)
  have o: "strip_affixes ''OutOf('' '')'' (show_rule (OutOf n ro)) = Some (show_nat n @ CHR '','' # show_role ro)"
    by (simp only: eq strip_affixes_append)
  show ?thesis
    using OutOf m o by (simp add: parse_rule_def parse_args_show del: show_rule.simps)
qed

lemma parse_tail_pairs:
  "\<forall>x \<in> set ps. rule_ok (snd x) \<Longrightarrow> parse_tail (pair_tokens ps) = Inr ps"
proof (induction ps)
  case Nil
  then show ?case by (simp add: pair_tokens_def)
next
  case (Cons x ps)
  obtain p r where x: "x = (p, r)" by (cases x)
  with Cons have "parse_rule (show_rule r) = Inr r" by (simp add: parse_rule_show_rule)
  with Cons x show ?case
    by (cases p) (simp_all add: pair_tokens_def del: show_rule.simps)
qed

lemma and_flat_build:
  "and_chain b \<Longrightarrow> and_flat b = (r1, qs) \<Longrightarrow>
   (\<forall>x \<in> set qs. fst x = OpAnd \<and> rule_ok (snd x)) \<and> rule_ok r1 \<and>
   (\<forall>dis rest. build dis (Leaf r1) (qs @ rest) = build dis b rest)"
proof (induction b arbitrary: r1 qs rule: and_chain.induct)
  case (2 a r)
  obtain r0 ps where a: "and_flat a = (r0, ps)" by (cases "and_flat a")
  with "2.prems" have "r1 = r0" "qs = ps @ [(OpAnd, r)]" by auto
  with "2.IH" [OF _ a] "2.prems" show ?case by auto
qed auto

lemma or_flat_build:
  "or_chain e \<Longrightarrow> or_flat e = (r0, ps) \<Longrightarrow>
   (\<forall>x \<in> set ps. rule_ok (snd x)) \<and> rule_ok r0 \<and>
   (\<exists>dis con. (\<forall>rest. build None (Leaf r0) (ps @ rest) = build dis con rest) \<and> collapse dis con = e)"
proof (induction e arbitrary: r0 ps rule: or_chain.induct)
  case (1 a b)
  obtain ra pa where a: "or_flat a = (ra, pa)" by (cases "or_flat a")
  obtain rb qb where b: "and_flat b = (rb, qb)" by (cases "and_flat b")
  from "1.prems" have ca: "or_chain a" and cb: "and_chain b" by auto
  from "1.prems" a b have r0: "r0 = ra" and ps: "ps = pa @ [(OpOr, rb)] @ qb" by auto
  obtain dis con where ih: "\<forall>rest. build None (Leaf ra) (pa @ rest) = build dis con rest"
    and cl: "collapse dis con = a" and oka: "\<forall>x \<in> set pa. rule_ok (snd x)" "rule_ok ra"
    using "1.IH" [OF ca a] by blast
  from and_flat_build [OF cb b] have okb: "\<forall>x \<in> set qb. rule_ok (snd x)" "rule_ok rb"
    and bb: "\<forall>dis rest. build dis (Leaf rb) (qb @ rest) = build dis b rest" by auto
  have "\<forall>rest. build None (Leaf r0) (ps @ rest) = build (Some a) b rest"
    using ih cl bb by (simp add: r0 ps collapse_def)
  moreover have "collapse (Some a) b = POr a b" by (simp add: collapse_def)
  ultimately show ?case using oka okb r0 ps by auto
next
  case (2 r)
  then show ?case by (intro conjI exI [of _ None] exI [of _ "Leaf r"]) (auto simp: collapse_def)
next
  case (3 a b)
  then have cb: "and_chain (PAnd a b)" by simp
  from and_flat_build [OF cb] "3.prems" show ?case
    by (intro conjI exI [of _ None] exI [of _ "PAnd a b"]) (auto simp: collapse_def)
qed

lemma unwords_append:
  "xs \<noteq> [] \<Longrightarrow> ys \<noteq> [] \<Longrightarrow> unwords (xs @ ys) = unwords xs @ CHR '' '' # unwords ys"
proof (induction xs rule: unwords.induct)
  case (2 t)
  then show ?case by (cases ys) auto
qed auto

lemma pair_tokens_append [simp]: "pair_tokens (xs @ ys) = pair_tokens xs @ pair_tokens ys"
  by (simp add: pair_tokens_def)

lemma pair_tokens_Cons [simp]:
  "pair_tokens [] = [] \<and> pair_tokens ((p, r) # xs) = show_op p # show_rule r # pair_tokens xs"
  by (simp add: pair_tokens_def)

lemma show_and_flat:
  "and_chain b \<Longrightarrow> and_flat b = (r1, qs) \<Longrightarrow> show_expr b = unwords (show_rule r1 # pair_tokens qs)"
proof (induction b arbitrary: r1 qs rule: and_chain.induct)
  case (2 a r)
  obtain r0 ps where a: "and_flat a = (r0, ps)" by (cases "and_flat a")
  with "2.prems" have "r1 = r0" "qs = ps @ [(OpAnd, r)]" by auto
  with "2.IH" [OF _ a] "2.prems" show ?case
    by (simp add: unwords_append [where xs = "show_rule r0 # pair_tokens ps", simplified] del: show_rule.simps)
qed simp_all

lemma show_or_flat:
  "or_chain e \<Longrightarrow> or_flat e = (r0, ps) \<Longrightarrow> show_expr e = unwords (show_rule r0 # pair_tokens ps)"
proof (induction e arbitrary: r0 ps rule: or_chain.induct)
  case (1 a b)
  obtain ra pa where a: "or_flat a = (ra, pa)" by (cases "or_flat a")
  obtain rb qb where b: "and_flat b = (rb, qb)" by (cases "and_flat b")
  from "1.prems" a b have "r0 = ra" "ps = pa @ [(OpOr, rb)] @ qb" by auto
  moreover have "show_expr b = unwords (show_rule rb # pair_tokens qb)"
    using "1.prems" b by (simp add: show_and_flat del: show_rule.simps)
  ultimately show ?case using "1.IH" [OF _ a] "1.prems"
    by (simp add: unwords_append [where xs = "show_rule ra # pair_tokens pa", simplified] del: show_rule.simps)
next
  case (2 r)
  then show ?case by (simp add: pair_tokens_def del: show_rule.simps)
next
  case (3 a b)
  then have "and_chain (PAnd a b)" "and_flat (PAnd a b) = (r0, ps)" by simp_all
  then show ?case by (rule show_and_flat)
qed

lemma show_role_no_space: "CHR '' '' \<notin> set (show_role ro)"
  by (cases ro) auto

lemma show_rule_token: "show_rule r \<noteq> [] \<and> CHR '' '' \<notin> set (show_rule r) \<and> show_rule r \<noteq> ''LogRequired''"
  by (cases r) (auto simp: show_nat_no_space show_role_no_space)

lemma show_op_token: "show_op p \<noteq> [] \<and> CHR '' '' \<notin> set (show_op p) \<and> show_op p \<noteq> ''LogRequired''"
  by (cases p) auto

lemma pair_tokens_tokens:
  "t \<in> set (pair_tokens ps) \<Longrightarrow> t \<noteq> [] \<and> CHR '' '' \<notin> set t \<and> t \<noteq> ''LogRequired''"
  using show_rule_token show_op_token by (auto simp: pair_tokens_def)

lemma tokens_show_expr:
  "or_chain e \<Longrightarrow> or_flat e = (r0, ps) \<Longrightarrow> tokens (show_expr e) = show_rule r0 # pair_tokens ps"
  using show_rule_token pair_tokens_tokens
  by (simp add: show_or_flat tokens_unwords del: show_rule.simps)

lemma parse_expr_show:
  "or_chain e \<Longrightarrow> or_flat e = (r0, ps) \<Longrightarrow> parse_expr (show_rule r0 # pair_tokens ps) = Inr e"
proof -
  assume c: "or_chain e" and f: "or_flat e = (r0, ps)"
  obtain dis con where b: "\<forall>rest. build None (Leaf r0) (ps @ rest) = build dis con rest"
    and cl: "collapse dis con = e" and ok: "\<forall>x \<in> set ps. rule_ok (snd x)" "rule_ok r0"
    using or_flat_build [OF c f] by blast
  have "build None (Leaf r0) ps = e"
    using spec [OF b, of "[]"] cl by (simp add: collapse_def)
  then show ?thesis
    using ok by (simp add: parse_expr_def parse_rule_show_rule parse_tail_pairs del: show_rule.simps)
qed

lemma tokens_show_policy:
  assumes "or_chain (pol_expr p)" "or_flat (pol_expr p) = (r0, ps)"
  shows "tokens (show_policy p) =
    show_rule r0 # pair_tokens ps @ (if log_required p then [''LogRequired''] else [])"
proof -
  let ?ts = "show_rule r0 # pair_tokens ps @ (if log_required p then [''LogRequired''] else [])"
  have "show_policy p = unwords ?ts"
    using assms unwords_append [of "show_rule r0 # pair_tokens ps" "[''LogRequired'']"]
    by (simp add: show_policy_def show_or_flat del: show_rule.simps)
  moreover have "\<forall>t \<in> set ?ts. t \<noteq> [] \<and> CHR '' '' \<notin> set t"
    using show_rule_token [of r0] by (auto dest: pair_tokens_tokens simp del: show_rule.simps)
  ultimately show ?thesis by (simp only: tokens_unwords)
qed

lemma parse_rule_ok: "parse_rule t = Inr r \<Longrightarrow> rule_ok r"
  by (auto simp: parse_rule_def split: option.splits prod.splits if_splits)

lemma parse_tail_ok: "parse_tail ts = Inr ps \<Longrightarrow> \<forall>x \<in> set ps. rule_ok (snd x)"
proof (induction ts arbitrary: ps rule: parse_tail.induct)
  case (3 opt t ts)
  then show ?case
    by (simp add: Let_def split: if_splits sum.splits) (fastforce dest: parse_rule_ok)+
qed auto

lemma build_or_chain:
  "(\<forall>d. dis = Some d \<longrightarrow> or_chain d) \<Longrightarrow> and_chain con \<Longrightarrow> \<forall>x \<in> set ps. rule_ok (snd x) \<Longrightarrow>
   or_chain (build dis con ps)"
proof (induction dis con ps rule: build.induct)
  case (1 dis con)
  then show ?case by (cases con) (auto split: option.splits)
next
  case (3 dis con r rest)
  then show ?case by (cases con) (auto split: option.splits)
qed auto

lemma parse_expr_or_chain: "parse_expr ts = Inr e \<Longrightarrow> or_chain e"
  by (auto simp: parse_expr_def default_expr_def split: list.splits sum.splits
           dest: parse_rule_ok parse_tail_ok intro!: build_or_chain)

lemma parse_expr_bad_first:
  "\<not> rule_ok r \<Longrightarrow> parse_expr (show_rule r # ts) = Inl (Err ''minimum percent must be between 0 and 100'')"
  by (cases r) (simp_all add: parse_expr_def parse_rule_show_min del: show_rule.simps)

lemma eligible_log:
  "eligible True ro ws = eligible False ro (filter (\<lambda>w. w_has_log (wp_witness w)) ws)"
  by (simp add: eligible_def conj_commute)

lemma eval_expr_log:
  "eval_expr True ws e = eval_expr False (filter (\<lambda>w. w_has_log (wp_witness w)) ws) e"
proof (induction e)
  case (Leaf r)
  then show ?case by (cases r) (simp_all add: eligible_log)
qed simp_all

lemma proofs_arrived_Cons [simp]:
  "proofs_arrived [] ws' = (ws' = [])"
  "proofs_arrived (w # ws) ws' = (\<exists>w' ws''. ws' = w' # ws'' \<and> wp_witness w' = wp_witness w \<and>
      (wp_proof w \<noteq> [] \<longrightarrow> wp_proof w' \<noteq> []) \<and> proofs_arrived ws ws'')"
  by (auto simp: proofs_arrived_def list_all2_Cons1)

lemma eligible_arrived:
  "proofs_arrived ws ws' \<Longrightarrow> proofs_arrived (eligible log ro ws) (eligible log ro ws')"
  by (induction ws arbitrary: ws') (auto simp: eligible_def)

lemma arrived_length: "proofs_arrived ws ws' \<Longrightarrow> length ws' = length ws"
  by (induction ws arbitrary: ws') auto

lemma arrived_proofs: "proofs_arrived ws ws' \<Longrightarrow> proofs ws \<le> proofs ws'"
  by (induction ws arbitrary: ws') (fastforce simp: proofs_def le_Suc_eq)+

lemma proofs_le_length: "proofs ws \<le> length ws"
  by (simp add: proofs_def)

lemma all_proofs_iff: "proofs ws = length ws \<longleftrightarrow> (\<forall>w \<in> set ws. wp_proof w \<noteq> [])"
proof (induction ws)
  case (Cons w ws)
  have "length (filter (\<lambda>w. wp_proof w \<noteq> []) ws) \<noteq> Suc (length ws)"
    using length_filter_le [of _ ws] by (metis Suc_n_not_le_n)
  with Cons show ?case by (auto simp: proofs_def)
qed (simp add: proofs_def)

lemma eval_rule_arrived:
  assumes "proofs_arrived ws ws'" "eval_rule log ws r"
  shows "eval_rule log ws' r"
proof -
  have a: "proofs_arrived (eligible log ro ws) (eligible log ro ws')" for ro
    using assms(1) by (rule eligible_arrived)
  show ?thesis
  proof (cases r)
    case (MinPercent p ro)
    have "p * length (eligible log ro ws) \<le> proofs (eligible log ro ws') * 100"
      if "p * length (eligible log ro ws) \<le> proofs (eligible log ro ws) * 100"
      using that arrived_proofs [OF a [of ro]] by (meson le_trans mult_le_mono1)
    then show ?thesis
      using assms(2) MinPercent arrived_length [OF a [of ro]] by (auto simp: Let_def)
  next
    case (OutOf n ro)
    then show ?thesis using assms(2) arrived_proofs [OF a [of ro]] by simp
  qed
qed

lemma eval_expr_arrived:
  "proofs_arrived ws ws' \<Longrightarrow> eval_expr log ws e \<Longrightarrow> eval_expr log ws' e"
  by (induction e) (auto intro: eval_rule_arrived)


section \<open>Properties of the policy language\<close>

text \<open>
  Printing a well-formed policy tree (a left-nested disjunction of left-nested
  conjunctions of rules with percentages at most 100, the shape the parser produces) in the
  DSL and parsing the text back gives the same policy, \<open>LogRequired\<close> flag included.
\<close>

theorem parse_show_policy:
  assumes "or_chain (pol_expr p)"
  shows "parse_policy (show_policy p) = Inr p"
proof -
  obtain r0 ps where f: "or_flat (pol_expr p) = (r0, ps)" by (cases "or_flat (pol_expr p)")
  have e: "parse_expr (show_rule r0 # pair_tokens ps) = Inr (pol_expr p)"
    using assms f by (rule parse_expr_show)
  have nl: "last (show_rule r0 # pair_tokens ps) \<noteq> ''LogRequired''"
    using show_rule_token [of r0] pair_tokens_tokens [of "last (pair_tokens ps)" ps]
    by (cases "pair_tokens ps = []") (simp_all del: show_rule.simps)
  show ?thesis
    using tokens_show_policy [OF assms f] e nl
    by (cases "log_required p") (simp_all add: parse_policy_def butlast_append del: show_rule.simps)
qed

text \<open>
  Every policy the parser accepts is well formed: \<open>AND\<close> binds tighter than
  \<open>OR\<close>, both associate to the left, and every \<open>MinPercent\<close> is at most 100.
\<close>

theorem parse_policy_or_chain: "parse_policy s = Inr p \<Longrightarrow> or_chain (pol_expr p)"
  by (auto simp: parse_policy_def Let_def split: if_splits dest: parse_expr_or_chain)

text \<open>
  A rule token whose \<open>MinPercent\<close> exceeds 100 is rejected with the error
  \<open>minimum percent must be between 0 and 100\<close>.
\<close>

theorem parse_policy_bad_rule:
  "\<not> rule_ok r \<Longrightarrow> parse_policy (show_rule r) = Inl (Err ''minimum percent must be between 0 and 100'')"
proof -
  assume r: "\<not> rule_ok r"
  have "tokens (show_rule r) = [show_rule r]"
    using show_rule_token [of r] tokens_unwords [of "[show_rule r]"] by (simp del: show_rule.simps)
  then show ?thesis
    using r show_rule_token [of r] parse_expr_bad_first [OF r, of "[]"]
    by (simp add: parse_policy_def del: show_rule.simps)
qed

text \<open>
  Under \<open>LogRequired\<close> a witness without a transparency log never counts: evaluating
  with the flag is evaluating without it over the witnesses that have a log.
\<close>

theorem evaluate_log_required:
  "evaluate \<lparr>pol_expr = e, log_required = True\<rparr> ws =
   evaluate \<lparr>pol_expr = e, log_required = False\<rparr> (filter (\<lambda>w. w_has_log (wp_witness w)) ws)"
  by (simp add: evaluate_def eval_expr_log)

text \<open>
  Satisfaction is monotone in the arrival of proofs: a policy satisfied by a set of
  witness proofs stays satisfied when more of the same witnesses have supplied a proof.
\<close>

theorem evaluate_monotone:
  "proofs_arrived ws ws' \<Longrightarrow> evaluate pol ws \<Longrightarrow> evaluate pol ws'"
  by (simp add: evaluate_def eval_expr_arrived)

theorem evaluate_monotone_witness:
  "proofs_arrived scen_witnesses (map (\<lambda>w. w\<lparr>wp_proof := ''p''\<rparr>) scen_witnesses) \<and>
   evaluate \<lparr>pol_expr = default_expr, log_required = False\<rparr>
     (map (\<lambda>w. w\<lparr>wp_proof := ''p''\<rparr>) scen_witnesses)"
proof -
  have a: "proofs_arrived scen_witnesses (map (\<lambda>w. w\<lparr>wp_proof := ''p''\<rparr>) scen_witnesses)"
    by (simp add: scen_witnesses_def)
  have "evaluate \<lparr>pol_expr = default_expr, log_required = False\<rparr> scen_witnesses \<longrightarrow>
        evaluate \<lparr>pol_expr = default_expr, log_required = False\<rparr> (map (\<lambda>w. w\<lparr>wp_proof := ''p''\<rparr>) scen_witnesses)"
    using evaluate_monotone [OF a] by blast
  moreover have "evaluate \<lparr>pol_expr = default_expr, log_required = False\<rparr> (map (\<lambda>w. w\<lparr>wp_proof := ''p''\<rparr>) scen_witnesses)"
    by (simp add: evaluate_def default_expr_def scen_witnesses_def eligible_def proofs_def)
  ultimately show ?thesis using a by blast
qed

text \<open>
  Scenario 4 of the specification: the policy
  \<open>MinPercent(50,batch) AND MinPercent(50,system) LogRequired\<close> is satisfied by one batch and
  one system witness with log and proof, beside one of each without log or proof.
\<close>

lemma scen_text_parses:
  "parse_policy scen_text =
     Inr \<lparr>pol_expr = PAnd (Leaf (MinPercent 50 Batch)) (Leaf (MinPercent 50 System)), log_required = True\<rparr>"
  by (simp add: scen_text_def parse_policy_def tokens_def parse_expr_def parse_rule_def strip_affixes_def
      parse_args_def parse_nat_def is_dec_digit_def parse_role_def)

theorem scenario_parse_evaluate:
  "(case parse_policy scen_text of Inr p \<Rightarrow> evaluate p scen_witnesses | Inl _ \<Rightarrow> False)"
  by (simp add: scen_text_parses evaluate_def scen_witnesses_def eligible_def proofs_def)

text \<open>
  Scenario 5 of the specification: the empty policy text requires every batch and every
  system witness to have supplied a proof.
\<close>

theorem scenario_default_policy:
  "parse_policy [] = Inr \<lparr>pol_expr = default_expr, log_required = False\<rparr> \<and>
   evaluate \<lparr>pol_expr = default_expr, log_required = False\<rparr> ws = (\<forall>w \<in> set ws. wp_proof w \<noteq> [])"
proof -
  have "eval_rule False ws (MinPercent 100 ro) = (\<forall>w \<in> set ws. w_type (wp_witness w) = ro \<longrightarrow> wp_proof w \<noteq> [])"
    for ro
    using proofs_le_length [of "eligible False ro ws"] all_proofs_iff [of "eligible False ro ws"]
    by (auto simp: eligible_def)
  moreover have "w_type (wp_witness w) = Batch \<or> w_type (wp_witness w) = System" for w
    by (cases "w_type (wp_witness w)") simp_all
  ultimately show ?thesis
    by (auto simp: parse_policy_def tokens_def parse_expr_def evaluate_def default_expr_def)
qed

theorem scenario_default_policy_witness:
  "evaluate \<lparr>pol_expr = default_expr, log_required = False\<rparr> (take 2 (map (\<lambda>w. w\<lparr>wp_proof := ''p''\<rparr>) scen_witnesses)) \<and>
   \<not> evaluate \<lparr>pol_expr = default_expr, log_required = False\<rparr> scen_witnesses"
  using scenario_default_policy [of "take 2 (map (\<lambda>w. w\<lparr>wp_proof := ''p''\<rparr>) scen_witnesses)"]
    scenario_default_policy [of scen_witnesses]
  by (simp add: scen_witnesses_def)

end
