(* ===== verification/WitnessPolicy.thy ===== *)
theory WitnessPolicy
  imports PolicyDSL
begin

text \<open>
  The witness policy service around the policy language (\<open>pkg/anchor/witness/policy\<close>):
  its cache of the policy text, \<open>getWitnessPolicyConfig\<close>, \<open>Evaluate\<close> and
  \<open>Select\<close> with the helpers \<open>intersection\<close> and \<open>difference\<close>. The implementation
  is not among the sources under \<open>src/\<close> (only its tests, \<open>src/unnamed/part_001\<close>,
  which \<open>PolicyTests\<close> translates); everything here follows the specification,
  sections 4.6, 4.7 and 7.
\<close>

section \<open>Selection\<close>

text \<open>A witness is identified by its URI and its role (step 1 of \<open>Select\<close>).\<close>

definition witness_key :: "witness \<Rightarrow> iri \<times> role" where
  "witness_key w = (w_uri w, w_type w)"

definition excluded :: "witness list \<Rightarrow> witness \<Rightarrow> bool" where
  "excluded excl w \<longleftrightarrow> witness_key w \<in> set (map witness_key excl)"

text \<open>Steps 1 and 2: drop the excluded witnesses and, under \<open>LogRequired\<close>, those without a log.\<close>

definition select_eligible :: "bool \<Rightarrow> witness list \<Rightarrow> witness list \<Rightarrow> witness list" where
  "select_eligible log excl ws = filter (\<lambda>w. \<not> excluded excl w \<and> (\<not> log \<or> w_has_log w)) ws"

definition role_pool :: "role \<Rightarrow> witness list \<Rightarrow> witness list" where
  "role_pool ro ws = filter (\<lambda>w. w_type w = ro) ws"

text \<open>\<open>ceil(p * n / 100)\<close> in natural numbers.\<close>

definition percent_required :: "nat \<Rightarrow> nat \<Rightarrow> nat" where
  "percent_required p n = (p * n + 99) div 100"

text \<open>
  Step 3: the number of batch and system witnesses a policy requires, given the sizes of the
  two eligible pools. A leaf requires its count for its role; \<open>AND\<close> adds the requirements;
  \<open>OR\<close> takes the cheaper alternative that the pools can supply (the left one on a tie), the
  one that fits when only one does, and the left one when neither does, so that step 4
  reports the shortfall.
\<close>

fun rule_req :: "nat \<Rightarrow> nat \<Rightarrow> rule \<Rightarrow> nat \<times> nat" where
  "rule_req nb ns (MinPercent p Batch) = (percent_required p nb, 0)"
| "rule_req nb ns (MinPercent p System) = (0, percent_required p ns)"
| "rule_req nb ns (OutOf n Batch) = (n, 0)"
| "rule_req nb ns (OutOf n System) = (0, n)"

definition req_fits :: "nat \<Rightarrow> nat \<Rightarrow> nat \<times> nat \<Rightarrow> bool" where
  "req_fits nb ns r \<longleftrightarrow> fst r \<le> nb \<and> snd r \<le> ns"

fun expr_req :: "nat \<Rightarrow> nat \<Rightarrow> pexpr \<Rightarrow> nat \<times> nat" where
  "expr_req nb ns (Leaf r) = rule_req nb ns r"
| "expr_req nb ns (PAnd a b) =
     (let ra = expr_req nb ns a; rb = expr_req nb ns b in (fst ra + fst rb, snd ra + snd rb))"
| "expr_req nb ns (POr a b) =
     (let ra = expr_req nb ns a; rb = expr_req nb ns b
      in if req_fits nb ns ra \<and> (\<not> req_fits nb ns rb \<or> fst ra + snd ra \<le> fst rb + snd rb) then ra
         else if req_fits nb ns rb then rb else ra)"

definition unable_to_select :: "nat \<Rightarrow> nat \<Rightarrow> go_error" where
  "unable_to_select n m =
     Err (''unable to select '' @ show_nat n @ '' witnesses from witness array of length '' @ show_nat m)"

text \<open>Step 4: the first \<open>n\<close> witnesses of a pool in input order, or the shortfall error.\<close>

definition select_role :: "nat \<Rightarrow> witness list \<Rightarrow> go_error + witness list" where
  "select_role n pool =
     (if length pool < n then Inl (unable_to_select n (length pool)) else Inr (take n pool))"

definition select :: "policy \<Rightarrow> witness list \<Rightarrow> witness list \<Rightarrow> go_error + witness list" where
  "select pol avail excl =
     (let el = select_eligible (log_required pol) excl avail;
          pb = role_pool Batch el; ps = role_pool System el;
          r = expr_req (length pb) (length ps) (pol_expr pol)
      in case select_role (fst r) pb of
           Inl e \<Rightarrow> Inl e
         | Inr sb \<Rightarrow> (case select_role (snd r) ps of Inl e \<Rightarrow> Inl e | Inr ss \<Rightarrow> Inr (sb @ ss)))"

text \<open>
  \<open>intersection(a, b)\<close>: the witnesses of \<open>a\<close> whose URI occurs in \<open>b\<close>, one per URI;
  \<open>difference(eligible, preferred)\<close>: the eligible witnesses whose URI is not preferred,
  in order.
\<close>

function remdups_uri :: "witness list \<Rightarrow> witness list" where
  "remdups_uri [] = []"
| "remdups_uri (w # ws) = w # remdups_uri (filter (\<lambda>v. w_uri v \<noteq> w_uri w) ws)"
  by pat_completeness auto
termination
  by (relation "measure length") (auto simp: le_imp_less_Suc)

definition intersection :: "witness list \<Rightarrow> witness list \<Rightarrow> witness list" where
  "intersection a b = remdups_uri (filter (\<lambda>w. w_uri w \<in> set (map w_uri b)) a)"

definition difference :: "witness list \<Rightarrow> witness list \<Rightarrow> witness list" where
  "difference elig preferred = filter (\<lambda>w. w_uri w \<notin> set (map w_uri preferred)) elig"

section \<open>The policy cache and the service\<close>

text \<open>
  A value read from the cache: nothing, the policy text, or a value of another Go type
  (by its type name).
\<close>

datatype cache_value = CacheNil | CacheString string | CacheOther string

text \<open>The configured policy store: what \<open>GetPolicy\<close> returns.\<close>

record policy_store =
  ps_get :: "go_error + string"

text \<open>
  The single-entry cache of the policy text with its expiry time, and its time to live.
  Times are in seconds.
\<close>

record ttl_cache =
  tc_entry :: "(string \<times> int) option"
  tc_ttl :: int

text \<open>
  The loader: read the store and put the text in the cache until \<open>now + ttl\<close>; a failed
  reload keeps the previous value alive.
\<close>

definition cache_load :: "policy_store \<Rightarrow> int \<Rightarrow> ttl_cache \<Rightarrow> (go_error + cache_value) \<times> ttl_cache" where
  "cache_load st now c =
     (case ps_get st of
        Inl e \<Rightarrow> (case tc_entry c of Some (v, _) \<Rightarrow> (Inr (CacheString v), c) | None \<Rightarrow> (Inl e, c))
      | Inr v \<Rightarrow> (Inr (CacheString v), c\<lparr>tc_entry := Some (v, now + tc_ttl c)\<rparr>))"

definition cache_get :: "policy_store \<Rightarrow> int \<Rightarrow> ttl_cache \<Rightarrow> (go_error + cache_value) \<times> ttl_cache" where
  "cache_get st now c =
     (case tc_entry c of
        Some (v, exp) \<Rightarrow> if now < exp then (Inr (CacheString v), c) else cache_load st now c
      | None \<Rightarrow> cache_load st now c)"

text \<open>\<open>New(policyStore, cacheExpiry)\<close>: the first load happens at construction and its error is fatal.\<close>

definition policy_new :: "policy_store \<Rightarrow> int \<Rightarrow> int \<Rightarrow> go_error + ttl_cache" where
  "policy_new st ttl now =
     (case ps_get st of
        Inl e \<Rightarrow> Inl e
      | Inr v \<Rightarrow> Inr \<lparr>tc_entry = Some (v, now + ttl), tc_ttl = ttl\<rparr>)"

definition quote_char :: char where
  "quote_char = CHR 0x27"

text \<open>\<open>getWitnessPolicyConfig\<close>: read the cache and parse the policy text.\<close>

definition policy_config :: "go_error + cache_value \<Rightarrow> go_error + policy" where
  "policy_config r =
     (case r of
        Inl e \<Rightarrow> Inl (Wrap ''failed to retrieve policy from policy cache'' e)
      | Inr CacheNil \<Rightarrow> Inl (Err ''failed to retrieve policy from policy cache (nil value)'')
      | Inr (CacheOther ty) \<Rightarrow>
          Inl (Err (''unexpected interface '' @ quote_char # ty @ quote_char #
                    '' for witness policy value in policy cache''))
      | Inr (CacheString s) \<Rightarrow> parse_policy s)"

definition wp_evaluate :: "go_error + cache_value \<Rightarrow> witness_proof list \<Rightarrow> go_error + bool" where
  "wp_evaluate r ws = (case policy_config r of Inl e \<Rightarrow> Inl e | Inr p \<Rightarrow> Inr (evaluate p ws))"

definition wp_select ::
  "go_error + cache_value \<Rightarrow> witness list \<Rightarrow> witness list \<Rightarrow> go_error + witness list" where
  "wp_select r avail excl = (case policy_config r of Inl e \<Rightarrow> Inl e | Inr p \<Rightarrow> select p avail excl)"

section \<open>Verification vocabulary\<close>

text \<open>
  Every rule of a policy tree within range; the value of a policy tree when each role has
  \<open>cb\<close> (batch) and \<open>cs\<close> (system) witnesses, all with a proof; a witness with a proof.
\<close>

fun rules_ok :: "pexpr \<Rightarrow> bool" where
  "rules_ok (Leaf r) = rule_ok r"
| "rules_ok (PAnd a b) = (rules_ok a \<and> rules_ok b)"
| "rules_ok (POr a b) = (rules_ok a \<and> rules_ok b)"

fun counts_hold :: "nat \<Rightarrow> nat \<Rightarrow> pexpr \<Rightarrow> bool" where
  "counts_hold cb cs (Leaf r) =
     (case r of
        MinPercent p ro \<Rightarrow> (let c = (if ro = Batch then cb else cs) in c = 0 \<or> p * c \<le> c * 100)
      | OutOf n ro \<Rightarrow> n \<le> (if ro = Batch then cb else cs))"
| "counts_hold cb cs (PAnd a b) = (counts_hold cb cs a \<and> counts_hold cb cs b)"
| "counts_hold cb cs (POr a b) = (counts_hold cb cs a \<or> counts_hold cb cs b)"

definition with_proof :: "witness \<Rightarrow> witness_proof" where
  "with_proof w = \<lparr>wp_witness = w, wp_proof = ''proof''\<rparr>"

text \<open>An \<open>AND\<close> of two rules on one role, and one batch witness.\<close>

definition dup_batch_policy :: policy where
  "dup_batch_policy = \<lparr>pol_expr = PAnd (Leaf (OutOf 1 Batch)) (Leaf (OutOf 1 Batch)), log_required = False\<rparr>"

definition one_batch :: witness where
  "one_batch = \<lparr>w_type = Batch, w_uri = ''https://batch.com/service'', w_has_log = False\<rparr>"

section \<open>Lemmas\<close>

lemma expr_req_counts_hold:
  "rules_ok e \<Longrightarrow> fst (expr_req nb ns e) \<le> cb \<Longrightarrow> snd (expr_req nb ns e) \<le> cs \<Longrightarrow> counts_hold cb cs e"
proof (induction e)
  case (Leaf r)
  then show ?case by (cases r; cases "case r of MinPercent _ ro \<Rightarrow> ro | OutOf _ ro \<Rightarrow> ro") auto
next
  case (PAnd a b)
  then show ?case by (simp add: Let_def)
next
  case (POr a b)
  then show ?case by (simp add: Let_def split: if_splits)
qed

lemma eval_all_proofs:
  assumes "\<forall>w \<in> set ws. wp_proof w \<noteq> []"
  shows "eval_expr log ws e =
    counts_hold (length (eligible log Batch ws)) (length (eligible log System ws)) e"
proof -
  have p: "proofs (eligible log ro ws) = length (eligible log ro ws)" for ro
    using assms by (auto simp: proofs_def eligible_def intro!: arg_cong [where f = length] filter_cong)
  show ?thesis
  proof (induction e)
    case (Leaf r)
    then show ?case by (cases r; rename_tac x ro; case_tac ro) (simp_all add: p Let_def)
  qed simp_all
qed

lemma select_role_Inr: "select_role n pool = Inr xs \<Longrightarrow> xs = take n pool \<and> length xs = n"
  by (auto simp: select_role_def split: if_splits)

lemma eligible_with_proof:
  "\<forall>w \<in> set ws. log \<longrightarrow> w_has_log w \<Longrightarrow>
   length (eligible log ro (map with_proof ws)) = length (filter (\<lambda>w. w_type w = ro) ws)"
  by (induction ws) (auto simp: eligible_def with_proof_def)

lemma filter_take_pool:
  "filter (\<lambda>w. w_type w = ro) (take n (role_pool ro xs)) = take n (role_pool ro xs)"
  "ro \<noteq> ro' \<Longrightarrow> filter (\<lambda>w. w_type w = ro) (take n (role_pool ro' xs)) = []"
  by (auto simp: role_pool_def filter_empty_conv dest: in_set_takeD intro!: filter_True)

lemma select_Inr:
  assumes "select pol avail excl = Inr chosen"
  obtains sb ss where
    "chosen = sb @ ss"
    "sb = take (fst (expr_req (length (role_pool Batch (select_eligible (log_required pol) excl avail)))
                              (length (role_pool System (select_eligible (log_required pol) excl avail)))
                              (pol_expr pol)))
              (role_pool Batch (select_eligible (log_required pol) excl avail))"
    "ss = take (snd (expr_req (length (role_pool Batch (select_eligible (log_required pol) excl avail)))
                              (length (role_pool System (select_eligible (log_required pol) excl avail)))
                              (pol_expr pol)))
              (role_pool System (select_eligible (log_required pol) excl avail))"
    "length sb = fst (expr_req (length (role_pool Batch (select_eligible (log_required pol) excl avail)))
                              (length (role_pool System (select_eligible (log_required pol) excl avail)))
                              (pol_expr pol))"
    "length ss = snd (expr_req (length (role_pool Batch (select_eligible (log_required pol) excl avail)))
                              (length (role_pool System (select_eligible (log_required pol) excl avail)))
                              (pol_expr pol))"
  using assms by (auto simp: select_def Let_def split: sum.splits dest!: select_role_Inr)

theorem select_sound:
  assumes sel: "select pol avail excl = Inr chosen" and ok: "rules_ok (pol_expr pol)"
  shows "set chosen \<subseteq> set (select_eligible (log_required pol) excl avail) \<and>
         evaluate pol (map with_proof chosen)"
proof -
  let ?el = "select_eligible (log_required pol) excl avail"
  let ?r = "expr_req (length (role_pool Batch ?el)) (length (role_pool System ?el)) (pol_expr pol)"
  obtain sb ss where ch: "chosen = sb @ ss" and sb: "sb = take (fst ?r) (role_pool Batch ?el)"
    and ss: "ss = take (snd ?r) (role_pool System ?el)"
    and lb: "length sb = fst ?r" and ls: "length ss = snd ?r"
    using sel by (rule select_Inr)
  have sub: "set chosen \<subseteq> set ?el"
    using ch sb ss by (auto simp: role_pool_def dest: in_set_takeD)
  have logs: "\<forall>w \<in> set chosen. log_required pol \<longrightarrow> w_has_log w"
    using sub by (auto simp: select_eligible_def)
  have tb: "filter (\<lambda>w. w_type w = Batch) chosen = sb" and ts: "filter (\<lambda>w. w_type w = System) chosen = ss"
    using ch sb ss by (simp_all add: filter_take_pool)
  have "\<forall>w \<in> set (map with_proof chosen). wp_proof w \<noteq> []" by (simp add: with_proof_def)
  then have "evaluate pol (map with_proof chosen) =
     counts_hold (length (eligible (log_required pol) Batch (map with_proof chosen)))
                 (length (eligible (log_required pol) System (map with_proof chosen))) (pol_expr pol)"
    by (simp add: evaluate_def eval_all_proofs)
  also have "\<dots> = counts_hold (fst ?r) (snd ?r) (pol_expr pol)"
    using eligible_with_proof [OF logs] tb ts lb ls by simp
  also have "\<dots>" by (rule expr_req_counts_hold [OF ok order_refl order_refl])
  finally show ?thesis using sub by simp
qed

lemma select_error:
  "select pol avail excl = Inl e \<Longrightarrow> \<exists>n m. m < n \<and> e = unable_to_select n m"
  by (auto simp: select_def select_role_def Let_def split: sum.splits if_splits)

lemma select_sum_not_minimal:
  "select dup_batch_policy [one_batch] [] = Inl (unable_to_select 2 1) \<and>
   evaluate dup_batch_policy (map with_proof [one_batch])"
  by (simp add: select_def dup_batch_policy_def one_batch_def select_eligible_def excluded_def
      role_pool_def select_role_def evaluate_def eligible_def proofs_def with_proof_def numeral_2_eq_2)

lemma cache_get_keeps_entry:
  "tc_entry c \<noteq> None \<Longrightarrow>
   (\<exists>v. fst (cache_get st now c) = Inr (CacheString v)) \<and> tc_entry (snd (cache_get st now c)) \<noteq> None"
  by (auto simp: cache_get_def cache_load_def split: option.splits sum.splits if_splits)

lemma cache_get_value:
  assumes "tc_entry c = Some (v, exp)"
  shows "fst (cache_get st now c) =
           (if now < exp then Inr (CacheString v)
            else case ps_get st of Inl _ \<Rightarrow> Inr (CacheString v) | Inr v' \<Rightarrow> Inr (CacheString v'))"
  using assms by (simp add: cache_get_def cache_load_def split: sum.splits)

lemma remdups_uri_props:
  "distinct (map w_uri (remdups_uri ws)) \<and> set (remdups_uri ws) \<subseteq> set ws \<and>
   w_uri ` set (remdups_uri ws) = w_uri ` set ws"
proof (induction ws rule: remdups_uri.induct)
  case (2 w ws)
  then show ?case by auto
qed simp

lemma intersection_props:
  "distinct (map w_uri (intersection a b)) \<and> set (intersection a b) \<subseteq> set a \<and>
   w_uri ` set (intersection a b) = w_uri ` set a \<inter> w_uri ` set b"
  using remdups_uri_props [of "filter (\<lambda>w. w_uri w \<in> set (map w_uri b)) a"]
  by (auto simp: intersection_def)

lemma difference_props:
  "set (difference e p) \<subseteq> set e \<and> w_uri ` set (difference e p) = w_uri ` set e - w_uri ` set p"
  by (auto simp: difference_def)

end
