(* ===== verification/PolicyTests.thy ===== *)
theory PolicyTests
  imports WitnessPolicy
begin

text \<open>
  The tests of the witness policy service (\<open>src/unnamed/part_001\<close>, package
  \<open>policy\<close>), translated: each subtest of \<open>TestEvaluate\<close> and \<open>TestSelect\<close> is a
  case with the policy text the mock policy store returns, the witnesses it passes and the
  outcome it asserts; the mock cache of the file is modelled as it is written. The lemmas
  at the end run the specification's model (\<open>WitnessPolicy\<close>) on every case.
\<close>

section \<open>Test vocabulary\<close>

text \<open>\<open>require.Contains\<close>: the expected text occurs in the error message.\<close>

fun str_contains :: "string \<Rightarrow> string \<Rightarrow> bool" where
  "str_contains [] m = (m = [])"
| "str_contains (c # cs) m = (take (length m) (c # cs) = m \<or> str_contains cs m)"

abbreviation wproof :: "role \<Rightarrow> iri \<Rightarrow> bool \<Rightarrow> string \<Rightarrow> witness_proof" where
  "wproof ro u l p \<equiv> \<lparr>wp_witness = \<lparr>w_type = ro, w_uri = u, w_has_log = l\<rparr>, wp_proof = p\<rparr>"

abbreviation witness_of :: "role \<Rightarrow> iri \<Rightarrow> bool \<Rightarrow> witness" where
  "witness_of ro u l \<equiv> \<lparr>w_type = ro, w_uri = u, w_has_log = l\<rparr>"

definition default_policy_cache_expiry :: int where
  "default_policy_cache_expiry = 5"

text \<open>\<open>mockCache\<close>: \<open>Get\<close> returns its error if set, else its value; \<open>SetWithExpire\<close> its error.\<close>

record mock_cache =
  mc_get_err :: "go_error option"
  mc_set_err :: "go_error option"
  mc_get_value :: cache_value

definition mock_cache_get :: "mock_cache \<Rightarrow> go_error + cache_value" where
  "mock_cache_get mc = (case mc_get_err mc of Some e \<Rightarrow> Inl e | None \<Rightarrow> Inr (mc_get_value mc))"

definition mock_cache_set :: "mock_cache \<Rightarrow> go_error option" where
  "mock_cache_set mc = mc_set_err mc"

section \<open>TestEvaluate\<close>

definition ev_witness_url :: iri where "ev_witness_url = ''https://domain.com/service''"
definition ev_batch_url :: iri where "ev_batch_url = ''https://batch.com/service''"
definition ev_system_url :: iri where "ev_system_url = ''https://system.com/service''"
definition ev_batch2_url :: iri where "ev_batch2_url = ''https://other.batch.com/service''"
definition ev_system2_url :: iri where "ev_system2_url = ''https://other.system.com/service''"

record eval_case =
  ec_policy :: string
  ec_proofs :: "witness_proof list"
  ec_expected :: bool

text \<open>
  The body every subtest shares: a mock policy store returning the case's policy,
  \<open>New(policyStore, defaultPolicyCacheExpiry)\<close>, \<open>Evaluate\<close>, and the assertions
  \<open>require.NoError\<close> and \<open>require.Equal(t, expected, ok)\<close>.
\<close>

definition run_eval_case :: "eval_case \<Rightarrow> go_error + bool" where
  "run_eval_case c =
     (let st = \<lparr>ps_get = Inr (ec_policy c)\<rparr>
      in case policy_new st default_policy_cache_expiry 0 of
           Inl e \<Rightarrow> Inl e
         | Inr cache \<Rightarrow> wp_evaluate (fst (cache_get st 0 cache)) (ec_proofs c))"

definition eval_case_passes :: "eval_case \<Rightarrow> bool" where
  "eval_case_passes c \<longleftrightarrow> run_eval_case c = Inr (ec_expected c)"

text \<open>success - default policy satisfied (100% batch and 100% system) (line 73).\<close>

definition test_eval_default :: eval_case where
  "test_eval_default =
     \<lparr>ec_policy = [],
      ec_proofs =
        [wproof Batch ev_witness_url False ''proof'',
         wproof System ev_witness_url False ''proof''],
      ec_expected = True\<rparr>"

text \<open>success - default policy(100% batch and 100% system) satisfied with log required (line 102).\<close>

definition test_eval_default_log :: eval_case where
  "test_eval_default_log =
     \<lparr>ec_policy = ''LogRequired'',
      ec_proofs =
        [wproof Batch ev_batch_url True ''proof'',
         wproof System ev_system_url True ''proof''],
      ec_expected = True\<rparr>"

text \<open>success - default policy fails with log required (line 134).\<close>

definition test_eval_default_log_fails :: eval_case where
  "test_eval_default_log_fails =
     \<lparr>ec_policy = ''LogRequired'',
      ec_proofs =
        [wproof Batch ev_batch_url False ''proof'',
         wproof System ev_system_url True ''proof''],
      ec_expected = False\<rparr>"

text \<open>success - policy(50% batch and 50% system) satisfied with log required (line 166).\<close>

definition test_eval_percent_log :: eval_case where
  "test_eval_percent_log =
     \<lparr>ec_policy = ''MinPercent(50,batch) AND MinPercent(50,system) LogRequired'',
      ec_proofs =
        [wproof Batch ev_batch_url True ''proof'',
         wproof Batch ev_batch2_url False ''proof'',
         wproof System ev_system_url True ''proof'',
         wproof System ev_system_url False ''proof''],
      ec_expected = True\<rparr>"

text \<open>success - policy policy(50% batch and 50% system) fails with log required (line 214).\<close>

definition test_eval_percent_log_fails :: eval_case where
  "test_eval_percent_log_fails =
     \<lparr>ec_policy = ''MinPercent(50,batch) AND MinPercent(50,system) LogRequired'',
      ec_proofs =
        [wproof System ev_system_url False ''proof''],
      ec_expected = False\<rparr>"

text \<open>success - policy OutOf(OR) satisfied with log required (line 238).\<close>

definition test_eval_outof_or_log :: eval_case where
  "test_eval_outof_or_log =
     \<lparr>ec_policy = ''OutOf(1,system) OR OutOf(1,batch) LogRequired'',
      ec_proofs =
        [wproof System ev_system_url False ''proof'',
         wproof Batch ev_batch_url True ''proof''],
      ec_expected = True\<rparr>"

text \<open>success - policy OutOf(AND) satisfied with log required (line 270).\<close>

definition test_eval_outof_and_log :: eval_case where
  "test_eval_outof_and_log =
     \<lparr>ec_policy = ''OutOf(1,system) AND OutOf(1,batch) LogRequired'',
      ec_proofs =
        [wproof System ev_system_url True ''proof'',
         wproof Batch ev_batch_url True ''proof''],
      ec_expected = True\<rparr>"

text \<open>success - policy OutOf(AND) fails with log required (line 302).\<close>

definition test_eval_outof_and_log_fails :: eval_case where
  "test_eval_outof_and_log_fails =
     \<lparr>ec_policy = ''OutOf(1,system) AND OutOf(1,batch) LogRequired'',
      ec_proofs =
        [wproof System ev_system_url False ''proof'',
         wproof Batch ev_batch_url True ''proof''],
      ec_expected = False\<rparr>"

text \<open>success - policy not satisfied (no proofs) (line 334).\<close>

definition test_eval_no_proofs :: eval_case where
  "test_eval_no_proofs =
     \<lparr>ec_policy = [],
      ec_proofs =
        [wproof Batch ev_batch_url False [],
         wproof Batch ev_batch2_url False [],
         wproof System ev_system_url False [],
         wproof System ev_system2_url False []],
      ec_expected = False\<rparr>"

text \<open>success - policy not satisfied (no system proofs) (line 373).\<close>

definition test_eval_no_system_proofs :: eval_case where
  "test_eval_no_system_proofs =
     \<lparr>ec_policy = ''OutOf(1,system)'',
      ec_proofs =
        [wproof Batch ev_batch_url False ''proof'',
         wproof Batch ev_batch2_url False ''proof'',
         wproof System ev_system_url False [],
         wproof System ev_system2_url False []],
      ec_expected = False\<rparr>"

text \<open>success - policy satisfied (all batch witness proofs(default), one system witness proof) (line 415).\<close>

definition test_eval_one_system_proof :: eval_case where
  "test_eval_one_system_proof =
     \<lparr>ec_policy = ''OutOf(1,system)'',
      ec_proofs =
        [wproof Batch ev_batch_url False ''proof'',
         wproof Batch ev_batch2_url False ''proof'',
         wproof System ev_system_url False ''proof'',
         wproof System ev_system2_url False []],
      ec_expected = True\<rparr>"

text \<open>success - policy satisfied (50% batch witness proofs, 50% system witness proofs) (line 458).\<close>

definition test_eval_percent_and :: eval_case where
  "test_eval_percent_and =
     \<lparr>ec_policy = ''MinPercent(50,system) AND MinPercent(50,batch)'',
      ec_proofs =
        [wproof Batch ev_batch_url False ''proof'',
         wproof Batch ev_batch2_url False [],
         wproof System ev_system_url False ''proof'',
         wproof System ev_system2_url False []],
      ec_expected = True\<rparr>"

text \<open>success - policy satisfied (50% batch witness proofs or 50% system witness proofs) (line 500).\<close>

definition test_eval_percent_or :: eval_case where
  "test_eval_percent_or =
     \<lparr>ec_policy = ''MinPercent(50,system) OR MinPercent(50,batch)'',
      ec_proofs =
        [wproof Batch ev_batch_url False ''proof'',
         wproof Batch ev_batch2_url False [],
         wproof System ev_system_url False [],
         wproof System ev_system2_url False []],
      ec_expected = True\<rparr>"

text \<open>success - policy satisfied (50% batch witness proofs or 50% system witness proofs) (line 541).\<close>

definition test_eval_percent_or_short :: eval_case where
  "test_eval_percent_or_short =
     \<lparr>ec_policy = ''MinPercent(50,system) OR MinPercent(50,batch)'',
      ec_proofs =
        [wproof Batch ev_batch_url False ''proof'',
         wproof Batch ev_batch2_url False [],
         wproof System ev_system_url False []],
      ec_expected = True\<rparr>"

text \<open>success - policy satisfied (all batch witness proofs(default), one system witness proof) (line 576).\<close>

definition test_eval_one_system_proof_2 :: eval_case where
  "test_eval_one_system_proof_2 =
     \<lparr>ec_policy = ''OutOf(1,system)'',
      ec_proofs =
        [wproof Batch ev_batch_url False ''proof'',
         wproof Batch ev_batch2_url False ''proof'',
         wproof System ev_system_url False ''proof'',
         wproof System ev_system2_url False []],
      ec_expected = True\<rparr>"

text \<open>success - no system witnesses provided (line 619).\<close>

definition test_eval_no_system_witnesses :: eval_case where
  "test_eval_no_system_witnesses =
     \<lparr>ec_policy = ''MinPercent(50,system) AND MinPercent(50,batch)'',
      ec_proofs =
        [wproof Batch ev_batch_url False ''proof''],
      ec_expected = True\<rparr>"

text \<open>success - no batch witnesses provided (line 642).\<close>

definition test_eval_no_batch_witnesses :: eval_case where
  "test_eval_no_batch_witnesses =
     \<lparr>ec_policy = ''MinPercent(50,system) AND MinPercent(50,batch)'',
      ec_proofs =
        [wproof System ev_system_url False ''proof''],
      ec_expected = True\<rparr>"

section \<open>TestSelect\<close>

definition sel_batch_url :: iri where "sel_batch_url = ''https://batch.com/service''"
definition sel_system_url :: iri where "sel_system_url = ''https://system.com/service''"
definition sel_batch2_url :: iri where "sel_batch2_url = ''https://second.batch.com/service''"
definition sel_system2_url :: iri where "sel_system2_url = ''https://second.system.com/service''"
definition sel_system3_url :: iri where "sel_system3_url = ''https://third.system.com/service''"

text \<open>
  What a subtest asserts: the number of selected witnesses and the URIs at some positions,
  or an error containing a message.
\<close>

datatype select_expect = ExpectSelected nat "(nat \<times> iri) list" | ExpectError string

record select_case =
  sc_policy :: string
  sc_witnesses :: "witness list"
  sc_excluded :: "witness list"
  sc_expect :: select_expect

definition run_select_case :: "select_case \<Rightarrow> go_error + witness list" where
  "run_select_case c =
     (let st = \<lparr>ps_get = Inr (sc_policy c)\<rparr>
      in case policy_new st default_policy_cache_expiry 0 of
           Inl e \<Rightarrow> Inl e
         | Inr cache \<Rightarrow> wp_select (fst (cache_get st 0 cache)) (sc_witnesses c) (sc_excluded c))"

definition select_case_passes :: "select_case \<Rightarrow> bool" where
  "select_case_passes c \<longleftrightarrow>
     (case (run_select_case c, sc_expect c) of
        (Inr ws, ExpectSelected n chk) \<Rightarrow>
          length ws = n \<and> list_all (\<lambda>(i, u). i < length ws \<and> w_uri (ws ! i) = u) chk
      | (Inl e, ExpectError m) \<Rightarrow> str_contains (error_string e) m
      | _ \<Rightarrow> False)"

text \<open>success - default policy (AND) (line 835).\<close>

definition test_select_default :: select_case where
  "test_select_default =
     \<lparr>sc_policy = [],
      sc_witnesses =
        [witness_of Batch sel_batch_url False,
         witness_of System sel_system_url False],
      sc_excluded = [],
      sc_expect = ExpectSelected 2 [(0, ''https://batch.com/service''), (1, ''https://system.com/service'')]\<rparr>"

text \<open>success - default policy (AND) plus common witnesses (line 860).\<close>

definition test_select_common :: select_case where
  "test_select_common =
     \<lparr>sc_policy = [],
      sc_witnesses =
        [witness_of Batch sel_batch_url False,
         witness_of System sel_system_url False,
         witness_of System sel_batch_url False],
      sc_excluded = [],
      sc_expect = ExpectSelected 3 []\<rparr>"

text \<open>success - zero eligible batch witnesses (line 887).\<close>

definition test_select_zero_batch :: select_case where
  "test_select_zero_batch =
     \<lparr>sc_policy = [],
      sc_witnesses =
        [witness_of System sel_system_url False],
      sc_excluded = [],
      sc_expect = ExpectSelected 1 [(0, ''https://system.com/service'')]\<rparr>"

text \<open>success - policy with AND and minimum percent (line 907).\<close>

definition test_select_and_percent :: select_case where
  "test_select_and_percent =
     \<lparr>sc_policy = ''MinPercent(50,system) AND MinPercent(50,batch) LogRequired'',
      sc_witnesses =
        [witness_of System sel_system_url True,
         witness_of System sel_system2_url True,
         witness_of System sel_system3_url True,
         witness_of Batch sel_batch_url True,
         witness_of Batch sel_batch2_url False],
      sc_excluded = [],
      sc_expect = ExpectSelected 3 [(0, ''https://batch.com/service'')]\<rparr>"

text \<open>success - policy with AND and OutOf (line 949).\<close>

definition test_select_and_outof :: select_case where
  "test_select_and_outof =
     \<lparr>sc_policy = ''OutOf(2,system) AND OutOf(1,batch) LogRequired'',
      sc_witnesses =
        [witness_of System sel_system_url True,
         witness_of System sel_system2_url True,
         witness_of System sel_system3_url True,
         witness_of Batch sel_batch_url True,
         witness_of Batch sel_batch2_url False],
      sc_excluded = [],
      sc_expect = ExpectSelected 3 [(0, ''https://batch.com/service'')]\<rparr>"

text \<open>success - policy with OR (batch witnesses selected) (line 991).\<close>

definition test_select_or_batch :: select_case where
  "test_select_or_batch =
     \<lparr>sc_policy = ''MinPercent(50,system) OR MinPercent(50,batch) LogRequired'',
      sc_witnesses =
        [witness_of System sel_system_url True,
         witness_of System sel_system2_url True,
         witness_of System sel_system3_url True,
         witness_of Batch sel_batch_url True,
         witness_of Batch sel_batch2_url False],
      sc_excluded = [],
      sc_expect = ExpectSelected 1 [(0, ''https://batch.com/service'')]\<rparr>"

text \<open>success - policy with OR (system witnesses selected) (line 1033).\<close>

definition test_select_or_system :: select_case where
  "test_select_or_system =
     \<lparr>sc_policy = ''MinPercent(50,system) OR MinPercent(50,batch) LogRequired'',
      sc_witnesses =
        [witness_of System sel_system_url True],
      sc_excluded = [],
      sc_expect = ExpectSelected 1 [(0, ''https://system.com/service'')]\<rparr>"

text \<open>error - default policy (AND) plus excluded system witness (line 1055).\<close>

definition test_select_excluded_system :: select_case where
  "test_select_excluded_system =
     \<lparr>sc_policy = [],
      sc_witnesses =
        [witness_of Batch sel_batch_url False,
         witness_of System sel_system_url False],
      sc_excluded = [witness_of System sel_system_url False],
      sc_expect = ExpectError ''unable to select 1 witnesses from witness array of length 0''\<rparr>"

text \<open>error - default policy (AND) plus excluded batch witness (line 1083).\<close>

definition test_select_excluded_batch :: select_case where
  "test_select_excluded_batch =
     \<lparr>sc_policy = [],
      sc_witnesses =
        [witness_of Batch sel_batch_url False,
         witness_of Batch sel_batch2_url False,
         witness_of System sel_system_url False],
      sc_excluded = [witness_of Batch sel_batch_url False],
      sc_expect = ExpectError ''unable to select 2 witnesses from witness array of length 1''\<rparr>"

text \<open>error - number of eligible system witnesses doesn't meet policy requirements (line 1117).\<close>

definition test_select_short_system :: select_case where
  "test_select_short_system =
     \<lparr>sc_policy = ''OutOf(2,system) AND OutOf(1,batch) LogRequired'',
      sc_witnesses =
        [witness_of System sel_system_url True,
         witness_of Batch sel_batch_url True],
      sc_excluded = [],
      sc_expect = ExpectError ''unable to select 2 witnesses from witness array of length 1''\<rparr>"

text \<open>error - number of eligible batch witnesses doesn't meet policy requirements (line 1144).\<close>

definition test_select_short_batch :: select_case where
  "test_select_short_batch =
     \<lparr>sc_policy = ''OutOf(1,system) AND OutOf(2,batch) LogRequired'',
      sc_witnesses =
        [witness_of System sel_system_url True,
         witness_of Batch sel_batch_url True],
      sc_excluded = [],
      sc_expect = ExpectError ''unable to select 2 witnesses from witness array of length 1''\<rparr>"


section \<open>The policy cache and the mock cache\<close>

text \<open>\<open>require.Error\<close> with \<open>require.Contains(t, err.Error(), m)\<close>.\<close>

definition fails_with :: "go_error + 'a \<Rightarrow> string \<Rightarrow> bool" where
  "fails_with r m = (case r of Inl e \<Rightarrow> str_contains (error_string e) m | Inr _ \<Rightarrow> False)"

text \<open>\<open>TestNew\<close>: the mock store's default answer, a policy, and a store error.\<close>

definition test_new_store :: policy_store where
  "test_new_store = \<lparr>ps_get = Inr []\<rparr>"

definition test_new_loader_store :: policy_store where
  "test_new_loader_store = \<lparr>ps_get = Inr ''MinPercent(30,system) AND MinPercent(70,batch)''\<rparr>"

definition test_new_error_store :: policy_store where
  "test_new_error_store = \<lparr>ps_get = Inl (Err ''get error'')\<rparr>"

text \<open>
  The policy change test: New with a one-second expiry, evaluate, change the store's policy,
  sleep two seconds, evaluate, add the missing proof, evaluate.
\<close>

definition change_store_1 :: policy_store where
  "change_store_1 = \<lparr>ps_get = Inr ''OutOf(0,batch) AND OutOf(1,system)''\<rparr>"

definition change_store_2 :: policy_store where
  "change_store_2 = \<lparr>ps_get = Inr ''OutOf(1,batch) AND OutOf(1,system)''\<rparr>"

definition change_proofs :: "witness_proof list" where
  "change_proofs = [wproof Batch ev_batch_url False [], wproof System ev_system_url False ''proof'']"

definition test_policy_change :: "(go_error + bool) list" where
  "test_policy_change =
     (case policy_new change_store_1 1 0 of
        Inl e \<Rightarrow> [Inl e]
      | Inr c0 \<Rightarrow>
          (let (r1, c1) = cache_get change_store_1 0 c0;
               (r2, c2) = cache_get change_store_2 2 c1;
               (r3, _) = cache_get change_store_2 2 c2
           in [wp_evaluate r1 change_proofs, wp_evaluate r2 change_proofs,
               wp_evaluate r3 (change_proofs[0 := wproof Batch ev_batch_url False ''added proof''])]))"

text \<open>The mock caches the error subtests install.\<close>

definition mock_nil :: mock_cache where
  "mock_nil = \<lparr>mc_get_err = None, mc_set_err = None, mc_get_value = CacheNil\<rparr>"

definition mock_get_error :: mock_cache where
  "mock_get_error = \<lparr>mc_get_err = Some (Err ''get error''), mc_set_err = None, mc_get_value = CacheNil\<rparr>"

definition mock_bytes :: mock_cache where
  "mock_bytes = \<lparr>mc_get_err = None, mc_set_err = None, mc_get_value = CacheOther ''[]uint8''\<rparr>"

definition mock_bad_policy :: mock_cache where
  "mock_bad_policy = \<lparr>mc_get_err = None, mc_set_err = None, mc_get_value = CacheString ''Test(a,b)''\<rparr>"

definition mock_get_policy_error :: mock_cache where
  "mock_get_policy_error =
     \<lparr>mc_get_err = Some (Err ''get policy from cache error''), mc_set_err = None, mc_get_value = CacheNil\<rparr>"

definition eval_error_proofs :: "witness_proof list" where
  "eval_error_proofs = [wproof Batch ev_witness_url False ''proof'', wproof System ev_witness_url False ''proof'']"

definition select_error_witnesses :: "witness list" where
  "select_error_witnesses = [witness_of System sel_system_url False]"

section \<open>TestIntersection and TestDifference\<close>

definition int_witness_url :: iri where "int_witness_url = ''https://witness.com/service''"
definition int_other_url :: iri where "int_other_url = ''https://other.witness.com/service''"

definition test_intersection_cases :: "(witness list \<times> witness list \<times> nat) list" where
  "test_intersection_cases =
     [([witness_of Batch int_witness_url False], [witness_of System int_other_url False], 0),
      ([witness_of Batch int_witness_url False], [witness_of System int_witness_url False], 1),
      ([witness_of Batch int_witness_url False],
       [witness_of System int_witness_url False, witness_of System int_witness_url False], 1)]"

definition test_difference_eligible :: "witness list" where
  "test_difference_eligible = [witness_of Batch int_witness_url False, witness_of System int_other_url False]"

definition test_difference_preferred :: "witness list" where
  "test_difference_preferred = [witness_of System int_other_url False]"

text \<open>
  The two other subtests of \<open>TestDifference\<close>: eligible witnesses, preferred witnesses
  (\<open>nil\<close> in both) and the expected difference.
\<close>

definition test_difference_nil_cases :: "(witness list \<times> witness list \<times> witness list) list" where
  "test_difference_nil_cases = [(test_difference_eligible, [], test_difference_eligible), ([], [], [])]"

section \<open>The model against the tests\<close>

lemmas parse_defs = parse_policy_def tokens_def parse_expr_def parse_rule_def strip_affixes_def
  parse_args_def parse_nat_def is_dec_digit_def parse_role_def default_expr_def

lemmas eval_run_defs = run_eval_case_def eval_case_passes_def policy_new_def cache_get_def
  wp_evaluate_def policy_config_def default_policy_cache_expiry_def evaluate_def eligible_def proofs_def

lemmas select_run_defs = run_select_case_def select_case_passes_def policy_new_def cache_get_def
  wp_select_def policy_config_def default_policy_cache_expiry_def select_def select_eligible_def
  excluded_def witness_key_def role_pool_def select_role_def percent_required_def req_fits_def
  unable_to_select_def digit_char_simps

text \<open>
  The specification's evaluator passes fifteen of the seventeen \<open>TestEvaluate\<close>
  subtests that use the mock policy store: for each, the policy the store returns, loaded
  by \<open>New\<close> and read through the cache, evaluates the subtest's witness proofs to the
  asserted result.
\<close>

theorem evaluate_tests_pass:
  "list_all eval_case_passes
     [test_eval_default, test_eval_default_log, test_eval_percent_log, test_eval_outof_or_log,
      test_eval_outof_and_log, test_eval_outof_and_log_fails, test_eval_no_proofs,
      test_eval_no_system_proofs, test_eval_one_system_proof, test_eval_percent_and,
      test_eval_percent_or, test_eval_percent_or_short, test_eval_one_system_proof_2,
      test_eval_no_system_witnesses, test_eval_no_batch_witnesses]"
  by (simp add: test_eval_default_def test_eval_default_log_def test_eval_percent_log_def
      test_eval_outof_or_log_def test_eval_outof_and_log_def test_eval_outof_and_log_fails_def
      test_eval_no_proofs_def test_eval_no_system_proofs_def test_eval_one_system_proof_def
      test_eval_percent_and_def test_eval_percent_or_def test_eval_percent_or_short_def
      test_eval_one_system_proof_2_def test_eval_no_system_witnesses_def
      test_eval_no_batch_witnesses_def eval_run_defs parse_defs)

text \<open>
  On the two remaining subtests (lines 134 and 214) the specification's
  evaluator answers \<open>true\<close> where the tests assert \<open>false\<close>. Section 4.6 filters a
  role's pool to the witnesses with a log before the \<open>MinPercent\<close> check, so a pool
  emptied by the filter is vacuously satisfied; the tests expect the witnesses without a log
  to stay in the pool and only their proofs not to count.
\<close>

theorem log_required_divergence:
  "run_eval_case test_eval_default_log_fails = Inr True \<and> \<not> ec_expected test_eval_default_log_fails \<and>
   run_eval_case test_eval_percent_log_fails = Inr True \<and> \<not> ec_expected test_eval_percent_log_fails"
  by (simp add: test_eval_default_log_fails_def test_eval_percent_log_fails_def eval_run_defs parse_defs)

text \<open>
  The specification's \<open>Select\<close> passes eight of the eleven \<open>TestSelect\<close>
  subtests that use the mock policy store: the number of witnesses selected, the URIs the
  tests check, and the shortfall errors \<open>unable to select N witnesses from witness array
  of length M\<close>.
\<close>

theorem select_tests_pass:
  "list_all select_case_passes
     [test_select_default, test_select_common, test_select_zero_batch, test_select_and_percent,
      test_select_and_outof, test_select_or_batch, test_select_short_system, test_select_short_batch]"
  by (simp add: test_select_default_def test_select_common_def test_select_zero_batch_def
      test_select_and_percent_def test_select_and_outof_def test_select_or_batch_def
      test_select_short_system_def test_select_short_batch_def sel_batch_url_def sel_system_url_def
      sel_batch2_url_def sel_system2_url_def sel_system3_url_def select_run_defs parse_defs
      show_nat.simps)

text \<open>
  On the other three subtests the specification's \<open>Select\<close> disagrees
  with the tests. For \<open>MinPercent(50,system) OR MinPercent(50,batch)\<close> with no batch
  witness, the batch alternative needs no witness and is the cheaper one, so nothing is
  selected where the test expects the system witness. With an excluded witness, the
  percentage is taken of the pool after the exclusion, so the default policy is met by
  what remains, where the tests expect the excluded witness to count in the requirement and
  the selection to fail.
\<close>

theorem select_divergence:
  "run_select_case test_select_or_system = Inr [] \<and>
   run_select_case test_select_excluded_system = Inr [witness_of Batch sel_batch_url False] \<and>
   run_select_case test_select_excluded_batch =
     Inr [witness_of Batch sel_batch2_url False, witness_of System sel_system_url False] \<and>
   \<not> select_case_passes test_select_or_system \<and> \<not> select_case_passes test_select_excluded_system \<and>
   \<not> select_case_passes test_select_excluded_batch"
  by (simp add: test_select_or_system_def test_select_excluded_system_def test_select_excluded_batch_def
      sel_batch_url_def sel_system_url_def sel_batch2_url_def select_run_defs parse_defs)


text \<open>
  Every error path of \<open>getWitnessPolicyConfig\<close> that the tests drive through the
  mock cache reports what they assert: a nil value, a cache error (also through
  \<open>Evaluate\<close> and \<open>Select\<close>), a value of type \<open>[]uint8\<close>, and a policy text that does
  not parse.
\<close>

theorem policy_cache_error_tests:
  "fails_with (policy_config (mock_cache_get mock_nil)) ''failed to retrieve policy from policy cache (nil value)'' \<and>
   fails_with (policy_config (mock_cache_get mock_get_error)) ''get error'' \<and>
   fails_with (policy_config (mock_cache_get mock_bytes))
     ''unexpected interface '[]uint8' for witness policy value in policy cache'' \<and>
   fails_with (policy_config (mock_cache_get mock_bad_policy)) ''rule not supported: Test(a,b)'' \<and>
   fails_with (wp_evaluate (mock_cache_get mock_get_policy_error) eval_error_proofs)
     ''failed to retrieve policy from policy cache: get policy from cache error'' \<and>
   fails_with (wp_select (mock_cache_get mock_get_policy_error) select_error_witnesses [])
     ''failed to retrieve policy from policy cache: get policy from cache error''"
  by (simp add: fails_with_def mock_cache_get_def mock_nil_def mock_get_error_def mock_bytes_def
      mock_bad_policy_def mock_get_policy_error_def policy_config_def wp_evaluate_def wp_select_def
      quote_char_def parse_defs rule_not_supported_def)

text \<open>
  The policy cache tests: \<open>New\<close> fails on a store error and loads the policy at
  construction; after the one-second expiry the cache reloads, so a policy changed in the
  store takes effect, and adding the missing proof satisfies the new policy.
\<close>

theorem policy_cache_tests:
  "test_policy_change = [Inr True, Inr False, Inr True] \<and>
   fails_with (policy_new test_new_error_store default_policy_cache_expiry 0) ''get error'' \<and>
   (case policy_new test_new_store default_policy_cache_expiry 0 of
      Inr c \<Rightarrow> policy_config (fst (cache_get test_new_store 0 c)) =
               Inr \<lparr>pol_expr = default_expr, log_required = False\<rparr>
    | Inl _ \<Rightarrow> False) \<and>
   (case policy_new test_new_loader_store 1 0 of
      Inr c \<Rightarrow> fst (cache_get test_new_loader_store 2 c) =
               Inr (CacheString ''MinPercent(30,system) AND MinPercent(70,batch)'')
    | Inl _ \<Rightarrow> False)"
  by (simp add: test_policy_change_def change_store_1_def change_store_2_def change_proofs_def
      test_new_error_store_def test_new_store_def test_new_loader_store_def fails_with_def
      policy_new_def cache_get_def cache_load_def wp_evaluate_def policy_config_def evaluate_def
      eligible_def proofs_def parse_defs default_policy_cache_expiry_def)

lemma intersection_difference_tests:
  "map (\<lambda>(a, b, n). length (intersection a b)) test_intersection_cases = map (\<lambda>(a, b, n). n) test_intersection_cases \<and>
   map w_uri (difference test_difference_eligible test_difference_preferred) = [''https://witness.com/service''] \<and>
   map (\<lambda>(e, p, r). difference e p) test_difference_nil_cases = map (\<lambda>(e, p, r). r) test_difference_nil_cases"
  by (simp add: test_intersection_cases_def test_difference_eligible_def test_difference_preferred_def
      test_difference_nil_cases_def
      int_witness_url_def int_other_url_def intersection_def difference_def)

end
