(* ===== verification/PolicyFlow.thy ===== *)
theory PolicyFlow
  imports RestHandlers WitnessPolicy
begin

text \<open>
  How a witness policy travels from the REST configurator to the evaluator: the
  configurator (\<open>src/unnamed/part_002\<close>) stores the posted text in the configuration
  store under \<open>policy.WitnessPolicyKey\<close>; the policy store of the witness-policy package
  (specification section 6: \<open>GetPolicy\<close> reads one fixed key) reads the same key; the
  policy cache serves the text it read until its entry expires; \<open>getWitnessPolicyConfig\<close>
  parses what the cache serves. The lemmas show that an accepted update becomes visible at
  the first read after the cached entry expires, that reads before it still see the old
  policy, and that with the configurator as the only writer the evaluator never meets a
  policy text that does not parse.
\<close>

definition config_policy_store :: "config_store \<Rightarrow> policy_store" where
  "config_policy_store cs = \<lparr>ps_get = cs_get cs witness_policy_key\<rparr>"

text \<open>The cached policy text, if any, parses.\<close>

definition entry_parses :: "ttl_cache \<Rightarrow> bool" where
  "entry_parses c \<longleftrightarrow> (case tc_entry c of None \<Rightarrow> True | Some (v, _) \<Rightarrow> \<not> isl (parse_policy v))"

subsection \<open>Lemmas\<close>

lemma pc_handler_accepts:
  assumes "parse_policy b = Inr p" and "cs_put_fault (pc_config_store pc) = None"
  shows "pc_handler parse_policy pc (Inr b) =
           (write_response 200 [],
            pc\<lparr>pc_config_store := (pc_config_store pc)\<lparr>cs_data :=
               (cs_data (pc_config_store pc))(witness_policy_key \<mapsto> b)\<rparr>\<rparr>)"
  using assms by (simp add: pc_handler_def policy_handle_def cs_put_def)

text \<open>
  An update posted to the configurator becomes visible at the first cache read at or after
  the expiry of the cached entry: the cache reloads the posted text and the evaluator's
  configuration is the posted policy.
\<close>

lemma policy_update_visible_after_expiry:
  assumes "parse_policy b = Inr p" and "cs_put_fault cs = None" and "cs_get_fault cs = None"
    and "tc_entry c = Some (v, exp)" and "exp \<le> now"
  shows "resp_status (fst (pc_handler parse_policy (pc_new cs) (Inr b))) = 200 \<and>
         (let st = config_policy_store (pc_config_store (snd (pc_handler parse_policy (pc_new cs) (Inr b))));
              (res, c') = cache_get st now c
          in policy_config res = Inr p \<and> tc_entry c' = Some (b, now + tc_ttl c))"
  using assms
  by (simp add: pc_handler_accepts pc_new_def write_response_def config_policy_store_def cs_get_def
                cache_get_def cache_load_def policy_config_def)

text \<open>Before the entry expires, the cache still serves the policy it read before the update.\<close>

lemma policy_update_stale_before_expiry:
  assumes "tc_entry c = Some (v, exp)" and "now < exp"
  shows "cache_get (config_policy_store cs') now c = (Inr (CacheString v), c)"
  using assms by (simp add: cache_get_def)

text \<open>
  With the configurator as the only writer of the policy key, every cache read keeps the
  cached text parseable, and \<open>getWitnessPolicyConfig\<close> fails only with a store error
  wrapped by the cache, never with a parse error.
\<close>

lemma cache_get_entry_parses:
  assumes "stored_policy_parses parse_policy cs" and "entry_parses c"
    and "cache_get (config_policy_store cs) now c = (res, c')"
  shows "entry_parses c' \<and>
         (case res of
            Inr (CacheString s) \<Rightarrow> \<not> isl (parse_policy s)
          | Inr _ \<Rightarrow> False
          | Inl _ \<Rightarrow> True)"
  using assms
  by (auto simp: cache_get_def cache_load_def config_policy_store_def cs_get_def entry_parses_def
                 stored_policy_parses_def split: option.splits sum.splits if_splits)

lemma served_policy_parses:
  assumes "stored_policy_parses parse_policy cs" and "entry_parses c"
    and "cache_get (config_policy_store cs) now c = (res, c')"
    and "policy_config res = Inl e"
  shows "\<exists>e'. e = Wrap ''failed to retrieve policy from policy cache'' e'"
proof -
  from cache_get_entry_parses [OF assms(1-3)]
  have "case res of Inr (CacheString s) \<Rightarrow> \<not> isl (parse_policy s) | Inr _ \<Rightarrow> False | Inl _ \<Rightarrow> True"
    by simp
  with assms(4) show ?thesis
    by (auto simp: policy_config_def split: sum.splits cache_value.splits)
qed

text \<open>
  The configurator keeps the store parseable (lemma \<open>policy_handle_preserves\<close>), so after
  any sequence of posts, reads through the cache never meet an unparseable policy.
\<close>

lemma posts_then_read_parses:
  assumes "stored_policy_parses parse_policy cs" and "entry_parses c"
    and "cache_get (config_policy_store (snd (policy_handle_all parse_policy bs cs))) now c = (res, c')"
  shows "entry_parses c' \<and> (\<forall>e. policy_config res = Inl e \<longrightarrow>
           (\<exists>e'. e = Wrap ''failed to retrieve policy from policy cache'' e'))"
proof -
  have "stored_policy_parses parse_policy (snd (policy_handle_all parse_policy bs cs))"
    using assms(1) by (rule policy_handle_all_preserves)
  with assms(2,3) show ?thesis
    using cache_get_entry_parses served_policy_parses by blast
qed

end
