(* ===== verification/AmqpPubSub.thy ===== *)
theory AmqpPubSub
  imports Complex_Main Lifecycle
begin

text \<open>
  The AMQP pub/sub core and its connection manager (\<open>pkg/pubsub/amqp\<close>, not part of the
  sources under \<open>src/\<close>; modelled from the specification, sections 4.2 and 4.3), with the
  mocks and fixtures of its test file (\<open>src/unnamed/part_006\<close>). The model covers the
  redelivery schedule of one message (the backoff interval and the sequence of dispatches
  a consumer observes), the channel-bounded connection pools with dial retries, and the
  lifecycle guard of \<open>Publish\<close> and \<open>Subscribe\<close>. Durations are milliseconds.
\<close>

subsection \<open>Configuration and redelivery\<close>

record amqp_config =
  cfg_uri :: string
  cfg_max_connection_channels :: nat
  cfg_max_connect_retries :: nat
  cfg_max_redelivery_attempts :: nat
  cfg_redelivery_initial_interval :: int
  cfg_redelivery_multiplier :: rat
  cfg_max_redelivery_interval :: int

text \<open>
  \<open>getRedeliveryInterval\<close>: \<open>interval(0) = 0\<close>, and for \<open>k \<ge> 1\<close> the initial interval
  times the multiplier to the power \<open>k - 1\<close>, capped at the maximum interval.
\<close>

definition get_redelivery_interval :: "amqp_config \<Rightarrow> nat \<Rightarrow> rat" where
  "get_redelivery_interval cfg k =
     (if k = 0 then 0
      else min (of_int (cfg_redelivery_initial_interval cfg) * cfg_redelivery_multiplier cfg ^ (k - 1))
               (of_int (cfg_max_redelivery_interval cfg)))"

datatype consumer_reply = ReplyAck | ReplyNack

text \<open>
  The dispatches of one message, by the value of its \<open>delivery-attempt\<close> header (absent,
  that is 0, on the first delivery). The consumer answers each dispatch; a \<open>Nack\<close> sends the
  message through the redelivery queue, which republishes it with the header incremented,
  and redelivery halts once the header would exceed \<open>MaxRedeliveryAttempts\<close>. The loop
  runs on the header value, so its termination is proved with the measure
  \<open>MaxRedeliveryAttempts + 1 - attempt\<close>.
\<close>

function dispatches :: "amqp_config \<Rightarrow> (nat \<Rightarrow> consumer_reply) \<Rightarrow> nat \<Rightarrow> nat list" where
  "dispatches cfg consumer a =
     (if cfg_max_redelivery_attempts cfg < a then []
      else a # (case consumer a of
                  ReplyAck \<Rightarrow> []
                | ReplyNack \<Rightarrow> dispatches cfg consumer (Suc a)))"
  by pat_completeness auto
termination
  by (relation "measure (\<lambda>(cfg, consumer, a). Suc (cfg_max_redelivery_attempts cfg) - a)") auto

text \<open>
  The waits of the redelivery queue: before the dispatch with header \<open>k \<ge> 1\<close> the message
  waits \<open>interval(k)\<close>, the per-message TTL of the redelivery queue.
\<close>

definition redelivery_waits :: "amqp_config \<Rightarrow> (nat \<Rightarrow> consumer_reply) \<Rightarrow> rat list" where
  "redelivery_waits cfg consumer = map (get_redelivery_interval cfg) (tl (dispatches cfg consumer 0))"

subsection \<open>Connection manager\<close>

text \<open>
  Dialing tries attempt \<open>k\<close>, then retries up to \<open>MaxConnectRetries\<close> times; \<open>ok k\<close> says
  whether attempt \<open>k\<close> reaches the broker. The result is the successful attempt.
\<close>

fun dial :: "(nat \<Rightarrow> bool) \<Rightarrow> nat \<Rightarrow> nat \<Rightarrow> go_error + nat" where
  "dial ok 0 k = (if ok k then Inr k else Inl (Err ''failed to connect to AMQP broker''))"
| "dial ok (Suc n) k = (if ok k then Inr k else dial ok n (Suc k))"

text \<open>
  A connection pool is the list of its connections' channel counts. Opening a channel uses
  the first connection whose count is below \<open>MaxConnectionChannels\<close>; when every connection
  is full a new connection is dialled and the channel is its first.
\<close>

definition open_channel ::
  "nat \<Rightarrow> (nat \<Rightarrow> bool) \<Rightarrow> nat \<Rightarrow> nat list \<Rightarrow> go_error + (nat \<times> nat list)" where
  "open_channel maxch ok retries pool =
     (case find (\<lambda>i. pool ! i < maxch) [0..<length pool] of
        Some i \<Rightarrow> Inr (i, pool[i := Suc (pool ! i)])
      | None \<Rightarrow> (case dial ok retries 0 of
                   Inl e \<Rightarrow> Inl e
                 | Inr _ \<Rightarrow> Inr (length pool, pool @ [1])))"

record conn_mgr =
  cm_publisher_conns :: "nat list"
  cm_subscriber_conns :: "nat list"

text \<open>
  \<open>getConnection(forPublisher)\<close> followed by \<open>incrementChannelCount\<close>: publisher and
  subscriber connections are kept in separate pools.
\<close>

definition get_connection ::
  "amqp_config \<Rightarrow> (nat \<Rightarrow> bool) \<Rightarrow> bool \<Rightarrow> conn_mgr \<Rightarrow> go_error + (nat \<times> conn_mgr)" where
  "get_connection cfg ok for_publisher cm =
     (let maxch = cfg_max_connection_channels cfg; retries = cfg_max_connect_retries cfg in
      if for_publisher
      then (case open_channel maxch ok retries (cm_publisher_conns cm) of
              Inl e \<Rightarrow> Inl e
            | Inr (i, p) \<Rightarrow> Inr (i, cm\<lparr>cm_publisher_conns := p\<rparr>))
      else (case open_channel maxch ok retries (cm_subscriber_conns cm) of
              Inl e \<Rightarrow> Inl e
            | Inr (i, p) \<Rightarrow> Inr (i, cm\<lparr>cm_subscriber_conns := p\<rparr>)))"

text \<open>\<open>New\<close> dials at construction; when the retries are exhausted it panics.\<close>

definition amqp_connect :: "amqp_config \<Rightarrow> (nat \<Rightarrow> bool) \<Rightarrow> go_error + conn_mgr" where
  "amqp_connect cfg ok =
     (case dial ok (cfg_max_connect_retries cfg) 0 of
        Inl e \<Rightarrow> Inl (Panic (error_string e))
      | Inr _ \<Rightarrow> Inr \<lparr>cm_publisher_conns = [], cm_subscriber_conns = []\<rparr>)"

subsection \<open>Publish and subscribe\<close>

text \<open>
  The pub/sub's publisher and subscriber are interfaces; the model keeps the result each
  returns for a topic. \<open>Publish\<close> and \<open>Subscribe\<close> first require a started lifecycle.
\<close>

record pubsub =
  ps_lc :: lifecycle
  ps_subscribe_fn :: "string \<Rightarrow> go_error + unit"
  ps_publish_fn :: "string \<Rightarrow> go_error + unit"

definition ps_start :: "pubsub \<Rightarrow> pubsub" where
  "ps_start p = p\<lparr>ps_lc := lc_start (ps_lc p)\<rparr>"

definition ps_close :: "pubsub \<Rightarrow> pubsub" where
  "ps_close p = p\<lparr>ps_lc := lc_stop (ps_lc p)\<rparr>"

definition ps_subscribe :: "pubsub \<Rightarrow> string \<Rightarrow> go_error + unit" where
  "ps_subscribe p topic =
     (case lc_require_started (ps_lc p) of Inl e \<Rightarrow> Inl e | Inr _ \<Rightarrow> ps_subscribe_fn p topic)"

definition ps_publish :: "pubsub \<Rightarrow> string \<Rightarrow> go_error + unit" where
  "ps_publish p topic =
     (case lc_require_started (ps_lc p) of Inl e \<Rightarrow> Inl e | Inr _ \<Rightarrow> ps_publish_fn p topic)"

text \<open>
  The channel bound of the specification's connection invariant: no connection of either
  pool has more channels than \<open>MaxConnectionChannels\<close>.
\<close>

definition cm_inv :: "nat \<Rightarrow> conn_mgr \<Rightarrow> bool" where
  "cm_inv maxch cm \<longleftrightarrow>
     list_all (\<lambda>c. c \<le> maxch) (cm_publisher_conns cm) \<and>
     list_all (\<lambda>c. c \<le> maxch) (cm_subscriber_conns cm)"

text \<open>A sequence of \<open>getConnection\<close> calls; a call that fails leaves the manager as it was.\<close>

fun cm_run :: "amqp_config \<Rightarrow> (nat \<Rightarrow> bool) \<Rightarrow> conn_mgr \<Rightarrow> bool list \<Rightarrow> conn_mgr" where
  "cm_run cfg ok cm [] = cm"
| "cm_run cfg ok cm (b # bs) =
     cm_run cfg ok (case get_connection cfg ok b cm of Inl _ \<Rightarrow> cm | Inr (_, cm') \<Rightarrow> cm') bs"

subsection \<open>Lemmas: redelivery\<close>

declare dispatches.simps [simp del]

lemma dispatches_ack_at:
  assumes "a \<le> k" "k \<le> cfg_max_redelivery_attempts cfg"
    and "\<forall>i. a \<le> i \<longrightarrow> i < k \<longrightarrow> consumer i = ReplyNack" "consumer k = ReplyAck"
  shows "dispatches cfg consumer a = [a..<Suc k]"
  using assms
proof (induction cfg consumer a rule: dispatches.induct)
  case (1 cfg consumer a)
  show ?case
  proof (cases "a = k")
    case True
    with "1.prems" show ?thesis by (subst dispatches.simps) simp
  next
    case False
    with "1.prems" have "a < k" "consumer a = ReplyNack" by auto
    with "1.prems" "1.IH" have "dispatches cfg consumer (Suc a) = [Suc a..<Suc k]" by auto
    with \<open>a < k\<close> \<open>consumer a = ReplyNack\<close> "1.prems" show ?thesis
      by (subst dispatches.simps) (simp add: upt_conv_Cons)
  qed
qed

lemma dispatches_all_nack:
  assumes "\<forall>i. a \<le> i \<longrightarrow> i \<le> cfg_max_redelivery_attempts cfg \<longrightarrow> consumer i = ReplyNack"
  shows "dispatches cfg consumer a = [a..<Suc (cfg_max_redelivery_attempts cfg)]"
  using assms
proof (induction cfg consumer a rule: dispatches.induct)
  case (1 cfg consumer a)
  show ?case
  proof (cases "cfg_max_redelivery_attempts cfg < a")
    case True
    then show ?thesis by (subst dispatches.simps) simp
  next
    case False
    with "1.prems" have "consumer a = ReplyNack" by simp
    with False "1.prems" "1.IH" show ?thesis
      by (subst dispatches.simps) (simp add: upt_conv_Cons)
  qed
qed

lemma dispatches_upt:
  "dispatches cfg consumer a = [a..<a + length (dispatches cfg consumer a)] \<and>
   length (dispatches cfg consumer a) \<le> Suc (cfg_max_redelivery_attempts cfg) - a"
proof (induction cfg consumer a rule: dispatches.induct)
  case (1 cfg consumer a)
  show ?case
  proof (cases "cfg_max_redelivery_attempts cfg < a")
    case True
    then show ?thesis by (subst (1 2 3) dispatches.simps) simp
  next
    case False
    show ?thesis
    proof (cases "consumer a")
      case ReplyAck
      with False show ?thesis by (subst (1 2 3) dispatches.simps) simp
    next
      case ReplyNack
      let ?r = "dispatches cfg consumer (Suc a)"
      have ih: "?r = [Suc a..<Suc a + length ?r]"
        "length ?r \<le> Suc (cfg_max_redelivery_attempts cfg) - Suc a"
        using "1.IH" False ReplyNack by (simp_all del: upt_Suc)
      have "a # ?r = [a..<a + length (a # ?r)]"
        by (subst ih(1)) (simp add: upt_conv_Cons del: upt_Suc)
      with ih(2) False ReplyNack show ?thesis
        by (subst (1 2 3) dispatches.simps) simp
    qed
  qed
qed

lemma get_redelivery_interval_le_max:
  "0 < k \<Longrightarrow> get_redelivery_interval cfg k \<le> of_int (cfg_max_redelivery_interval cfg)"
  by (simp add: get_redelivery_interval_def)

lemma get_redelivery_interval_mono:
  assumes "1 \<le> cfg_redelivery_multiplier cfg" "0 \<le> cfg_redelivery_initial_interval cfg"
    and "0 < j" "j \<le> k"
  shows "get_redelivery_interval cfg j \<le> get_redelivery_interval cfg k"
proof -
  have "cfg_redelivery_multiplier cfg ^ (j - 1) \<le> cfg_redelivery_multiplier cfg ^ (k - 1)"
    using assms by (intro power_increasing) auto
  then have "of_int (cfg_redelivery_initial_interval cfg) * cfg_redelivery_multiplier cfg ^ (j - 1)
           \<le> of_int (cfg_redelivery_initial_interval cfg) * cfg_redelivery_multiplier cfg ^ (k - 1)"
    using assms(2) by (intro mult_left_mono) simp_all
  with assms show ?thesis by (auto simp: get_redelivery_interval_def)
qed

lemma sum_list_le_bound:
  "\<forall>x\<in>set xs. x \<le> (b :: 'a :: linordered_semiring_1) \<Longrightarrow> sum_list xs \<le> of_nat (length xs) * b"
  by (induction xs) (auto simp: algebra_simps intro: add_mono)

lemma redelivery_waits_bounded:
  assumes "0 \<le> cfg_max_redelivery_interval cfg"
  shows "length (redelivery_waits cfg consumer) \<le> cfg_max_redelivery_attempts cfg \<and>
         sum_list (redelivery_waits cfg consumer)
           \<le> of_nat (cfg_max_redelivery_attempts cfg) * of_int (cfg_max_redelivery_interval cfg)"
proof -
  let ?d = "dispatches cfg consumer 0"
  have d: "?d = [0..<length ?d]" "length ?d \<le> Suc (cfg_max_redelivery_attempts cfg)"
    using dispatches_upt [of cfg consumer 0] by simp_all
  have pos: "\<forall>k\<in>set (tl ?d). 0 < k"
    by (subst d(1), cases "length ?d") (auto simp: upt_conv_Cons simp del: upt_Suc)
  have len: "length (redelivery_waits cfg consumer) \<le> cfg_max_redelivery_attempts cfg"
    using d(2) by (simp add: redelivery_waits_def)
  have "\<forall>w\<in>set (redelivery_waits cfg consumer). w \<le> of_int (cfg_max_redelivery_interval cfg)"
    using pos by (auto simp: redelivery_waits_def get_redelivery_interval_le_max)
  then have "sum_list (redelivery_waits cfg consumer)
      \<le> of_nat (length (redelivery_waits cfg consumer)) * of_int (cfg_max_redelivery_interval cfg)"
    by (rule sum_list_le_bound)
  also have "\<dots> \<le> of_nat (cfg_max_redelivery_attempts cfg) * of_int (cfg_max_redelivery_interval cfg)"
    using len assms by (intro mult_right_mono) simp_all
  finally show ?thesis using len by simp
qed

subsection \<open>Lemmas: connection manager\<close>

lemma dial_Inr:
  "dial ok n k = Inr j \<Longrightarrow> k \<le> j \<and> j \<le> k + n \<and> ok j \<and> (\<forall>i. k \<le> i \<longrightarrow> i < j \<longrightarrow> \<not> ok i)"
proof (induction n arbitrary: k)
  case (Suc n)
  show ?case
  proof (cases "ok k")
    case False
    with Suc.prems have "dial ok n (Suc k) = Inr j" by simp
    note ih = Suc.IH [OF this]
    have "\<forall>i. k \<le> i \<longrightarrow> i < j \<longrightarrow> \<not> ok i"
    proof (intro allI impI)
      fix i assume "k \<le> i" "i < j"
      then show "\<not> ok i" using ih False by (cases "i = k") auto
    qed
    with ih show ?thesis by simp
  qed (use Suc.prems in simp)
qed (auto split: if_splits)

lemma dial_Inl:
  "(\<exists>e. dial ok n k = Inl e) \<longleftrightarrow> (\<forall>i\<in>{k..k + n}. \<not> ok i)"
proof (induction n arbitrary: k)
  case 0
  then show ?case by auto
next
  case (Suc n)
  have "{k..k + Suc n} = insert k {Suc k..Suc k + n}" by auto
  with Suc.IH [of "Suc k"] show ?case by simp
qed

lemma find_free_None:
  "find (\<lambda>i. pool ! i < maxch) [0..<length pool] = None \<longleftrightarrow> (\<forall>c\<in>set pool. maxch \<le> (c :: nat))"
  by (auto simp: find_None_iff all_set_conv_all_nth not_less; metis not_le)

lemma open_channel_Inr:
  assumes "open_channel maxch ok r pool = Inr (i, pool')"
  shows "(i < length pool \<and> pool ! i < maxch \<and> (\<forall>j<i. maxch \<le> pool ! j) \<and>
          pool' = pool[i := Suc (pool ! i)]) \<or>
         (i = length pool \<and> (\<forall>c\<in>set pool. maxch \<le> c) \<and> pool' = pool @ [1] \<and>
          (\<exists>j. dial ok r 0 = Inr j))"
  using assms
  by (auto simp: open_channel_def find_Some_iff find_free_None
           split: option.splits sum.splits)

lemma open_channel_Inl:
  "open_channel maxch ok r pool = Inl e \<Longrightarrow> (\<forall>c\<in>set pool. maxch \<le> c) \<and> dial ok r 0 = Inl e"
  by (auto simp: open_channel_def find_free_None split: option.splits sum.splits)

lemma open_channel_bounded:
  assumes "0 < maxch" "list_all (\<lambda>c. c \<le> maxch) pool"
    and "open_channel maxch ok r pool = Inr (i, pool')"
  shows "list_all (\<lambda>c. c \<le> maxch) pool' \<and> i < length pool' \<and> 0 < pool' ! i"
  using open_channel_Inr [OF assms(3)] assms(1,2)
  by (auto simp: list_all_length nth_list_update nth_append Suc_le_eq)

lemma get_connection_inv:
  assumes "0 < cfg_max_connection_channels cfg" "cm_inv (cfg_max_connection_channels cfg) cm"
    and "get_connection cfg ok b cm = Inr (i, cm')"
  shows "cm_inv (cfg_max_connection_channels cfg) cm'"
  using assms open_channel_bounded [OF assms(1)]
  by (auto simp: get_connection_def cm_inv_def Let_def split: if_splits sum.splits prod.splits)

lemma cm_run_inv:
  "0 < cfg_max_connection_channels cfg \<Longrightarrow> cm_inv (cfg_max_connection_channels cfg) cm \<Longrightarrow>
   cm_inv (cfg_max_connection_channels cfg) (cm_run cfg ok cm bs)"
proof (induction bs arbitrary: cm)
  case (Cons b bs)
  show ?case
    using Cons.prems get_connection_inv [OF Cons.prems, of ok b]
    by (auto intro!: Cons.IH split: sum.splits prod.splits)
qed simp

lemma amqp_connect_inv:
  "amqp_connect cfg ok = Inr cm \<Longrightarrow> cm_inv maxch cm"
  by (auto simp: amqp_connect_def cm_inv_def split: sum.splits)

subsection \<open>Lemmas: publish and subscribe\<close>

lemma ps_not_started:
  "lc_state (ps_lc p) \<noteq> StateStarted \<Longrightarrow>
   ps_subscribe p topic = Inl err_not_started \<and> ps_publish p topic = Inl err_not_started"
  by (simp add: ps_subscribe_def ps_publish_def lc_require_started_def)

lemma ps_started:
  "lc_state (ps_lc p) = StateStarted \<Longrightarrow>
   ps_subscribe p topic = ps_subscribe_fn p topic \<and> ps_publish p topic = ps_publish_fn p topic"
  by (simp add: ps_subscribe_def ps_publish_def lc_require_started_def)

lemma ps_start_new:
  "ps_lc p = lc_new \<Longrightarrow> lc_state (ps_lc (ps_start p)) = StateStarted"
  by (simp add: ps_start_def lc_start_def lc_new_def)

lemma ps_close_started:
  "lc_state (ps_lc p) = StateStarted \<Longrightarrow> lc_state (ps_lc (ps_close p)) = StateStopped"
  by (simp add: ps_close_def lc_stop_def lc_stop_begin_def lc_stop_end_def)

end
