(* ===== verification/AmqpBroker.thy ===== *)
theory AmqpBroker
  imports AmqpPubSub "HOL-Library.Multiset"
begin

text \<open>
  The broker side of the AMQP pub/sub for one topic (\<open>pkg/pubsub/amqp\<close>, not under
  \<open>src/\<close>; modelled from the specification, sections 3, 4.3 and 6): the primary queue, the
  wait queue of delayed messages and the redelivery queue (both with per-message TTL,
  republishing to the primary queue on expiry), a pool of \<open>n\<close> consumers with prefetch 1
  fanned into one channel of capacity \<open>n\<close>, and the application that receives each
  message and answers \<open>Ack\<close> or \<open>Nack\<close>. Which step happens next is left to the
  scheduler, so the broker is an inductive step relation; time advances by a step of its
  own. Messages are identified by their UUID and carry their \<open>delivery-attempt\<close> header.
\<close>

type_synonym msg_id = string

record broker =
  br_clock :: nat
  br_published :: "(msg_id \<times> nat \<times> nat) list"
  br_wait :: "(msg_id \<times> nat \<times> nat) list"
  br_redelivery :: "(msg_id \<times> nat \<times> nat) list"
  br_primary :: "(msg_id \<times> nat) list"
  br_taken :: "(nat \<times> msg_id \<times> nat) list"
  br_out :: "(nat \<times> msg_id \<times> nat) list"
  br_app :: "(nat \<times> msg_id \<times> nat) list"
  br_deliveries :: "(msg_id \<times> nat \<times> nat) list"
  br_acked :: "msg_id list"
  br_dropped :: "msg_id list"

text \<open>
  \<open>br_published\<close> records each published message with its publication time and delivery
  delay; \<open>br_wait\<close> and \<open>br_redelivery\<close> hold a message with the time its TTL expires and
  its attempt header; \<open>br_taken\<close>, \<open>br_out\<close> and \<open>br_app\<close> hold a message with the
  consumer of the pool that took it (still in the consumer, in the fan-in channel, with
  the application); \<open>br_deliveries\<close> is what the application observed: message,
  attempt header and time.
\<close>

definition broker_init :: broker where
  "broker_init =
     \<lparr>br_clock = 0, br_published = [], br_wait = [], br_redelivery = [], br_primary = [],
      br_taken = [], br_out = [], br_app = [], br_deliveries = [], br_acked = [], br_dropped = []\<rparr>"

text \<open>A consumer of the pool is busy from taking a message until the application answers it.\<close>

definition consumer_busy :: "broker \<Rightarrow> nat \<Rightarrow> bool" where
  "consumer_busy s i \<longleftrightarrow> i \<in> set (map fst (br_taken s @ br_out s @ br_app s))"

text \<open>The TTL of the redelivery queue for attempt \<open>k\<close>, in whole milliseconds.\<close>

definition redelivery_delay :: "amqp_config \<Rightarrow> nat \<Rightarrow> nat" where
  "redelivery_delay cfg k = nat \<lceil>get_redelivery_interval cfg k\<rceil>"

inductive broker_step :: "amqp_config \<Rightarrow> nat \<Rightarrow> broker \<Rightarrow> broker \<Rightarrow> bool"
  for cfg :: amqp_config and n :: nat where
  publish:
    "m \<notin> set (map fst (br_published s)) \<Longrightarrow>
     broker_step cfg n s (s\<lparr>br_published := br_published s @ [(m, br_clock s, 0)],
                            br_primary := br_primary s @ [(m, 0)]\<rparr>)"
| publish_delayed:
    "m \<notin> set (map fst (br_published s)) \<Longrightarrow> 0 < d \<Longrightarrow>
     broker_step cfg n s (s\<lparr>br_published := br_published s @ [(m, br_clock s, d)],
                            br_wait := br_wait s @ [(m, br_clock s + d, 0)]\<rparr>)"
| tick:
    "broker_step cfg n s (s\<lparr>br_clock := br_clock s + k\<rparr>)"
| wait_expire:
    "br_wait s = xs @ (m, r, a) # ys \<Longrightarrow> r \<le> br_clock s \<Longrightarrow>
     broker_step cfg n s (s\<lparr>br_wait := xs @ ys, br_primary := br_primary s @ [(m, a)]\<rparr>)"
| redelivery_expire:
    "br_redelivery s = xs @ (m, r, a) # ys \<Longrightarrow> r \<le> br_clock s \<Longrightarrow>
     broker_step cfg n s (s\<lparr>br_redelivery := xs @ ys, br_primary := br_primary s @ [(m, a)]\<rparr>)"
| consume:
    "i < n \<Longrightarrow> \<not> consumer_busy s i \<Longrightarrow> br_primary s = (m, a) # rest \<Longrightarrow>
     broker_step cfg n s (s\<lparr>br_primary := rest, br_taken := br_taken s @ [(i, m, a)]\<rparr>)"
| forward:
    "br_taken s = xs @ (i, m, a) # ys \<Longrightarrow> length (br_out s) < n \<Longrightarrow>
     broker_step cfg n s (s\<lparr>br_taken := xs @ ys, br_out := br_out s @ [(i, m, a)]\<rparr>)"
| receive:
    "br_out s = (i, m, a) # rest \<Longrightarrow>
     broker_step cfg n s (s\<lparr>br_out := rest, br_app := br_app s @ [(i, m, a)],
                            br_deliveries := br_deliveries s @ [(m, a, br_clock s)]\<rparr>)"
| ack:
    "br_app s = xs @ (i, m, a) # ys \<Longrightarrow>
     broker_step cfg n s (s\<lparr>br_app := xs @ ys, br_acked := br_acked s @ [m]\<rparr>)"
| nack_requeue:
    "br_app s = xs @ (i, m, a) # ys \<Longrightarrow> a < cfg_max_redelivery_attempts cfg \<Longrightarrow>
     broker_step cfg n s (s\<lparr>br_app := xs @ ys,
       br_redelivery := br_redelivery s @ [(m, br_clock s + redelivery_delay cfg (Suc a), Suc a)]\<rparr>)"
| nack_drop:
    "br_app s = xs @ (i, m, a) # ys \<Longrightarrow> cfg_max_redelivery_attempts cfg \<le> a \<Longrightarrow>
     broker_step cfg n s (s\<lparr>br_app := xs @ ys, br_dropped := br_dropped s @ [m]\<rparr>)"

inductive broker_reachable :: "amqp_config \<Rightarrow> nat \<Rightarrow> broker \<Rightarrow> bool"
  for cfg :: amqp_config and n :: nat where
  init: "broker_reachable cfg n broker_init"
| step: "broker_reachable cfg n s \<Longrightarrow> broker_step cfg n s t \<Longrightarrow> broker_reachable cfg n t"

subsection \<open>Invariants\<close>

text \<open>The identifiers of the message copies the broker and the application still hold.\<close>

definition live_list :: "broker \<Rightarrow> msg_id list" where
  "live_list s =
     map fst (br_wait s) @ map fst (br_redelivery s) @ map fst (br_primary s) @
     map (fst \<circ> snd) (br_taken s) @ map (fst \<circ> snd) (br_out s) @ map (fst \<circ> snd) (br_app s)"

text \<open>
  Conservation: every published message is held exactly once, or was acknowledged or
  dropped exactly once; the identifiers of published messages are distinct.
\<close>

definition conserved :: "broker \<Rightarrow> bool" where
  "conserved s \<longleftrightarrow>
     distinct (map fst (br_published s)) \<and>
     mset (live_list s) + mset (br_acked s) + mset (br_dropped s) = mset (map fst (br_published s))"

text \<open>
  Message \<open>m\<close> is ready by time \<open>t\<close> when, among the published messages \<open>ps\<close>, its
  publication time plus its delivery delay is at most \<open>t\<close>.
\<close>

definition ready_by :: "(msg_id \<times> nat \<times> nat) list \<Rightarrow> msg_id \<Rightarrow> nat \<Rightarrow> bool" where
  "ready_by ps m t \<longleftrightarrow> (\<exists>p \<in> set ps. fst p = m \<and> fst (snd p) + snd (snd p) \<le> t)"

text \<open>
  The delay invariant: a delayed message waits until its publication time plus its delay;
  every other copy and every delivery of a message is at or after that time.
\<close>

definition delay_inv :: "broker \<Rightarrow> bool" where
  "delay_inv s \<longleftrightarrow>
     (\<forall>w \<in> set (br_wait s). \<exists>p \<in> set (br_published s).
        fst p = fst w \<and> fst (snd w) = fst (snd p) + snd (snd p)) \<and>
     (\<forall>w \<in> set (br_redelivery s). ready_by (br_published s) (fst w) (br_clock s)) \<and>
     (\<forall>q \<in> set (br_primary s). ready_by (br_published s) (fst q) (br_clock s)) \<and>
     (\<forall>c \<in> set (br_taken s @ br_out s @ br_app s). ready_by (br_published s) (fst (snd c)) (br_clock s)) \<and>
     (\<forall>d \<in> set (br_deliveries s). ready_by (br_published s) (fst d) (snd (snd d))) \<and>
     (\<forall>p \<in> set (br_published s). fst (snd p) \<le> br_clock s)"

text \<open>The attempt headers of the deliveries of message \<open>m\<close>, in delivery order.\<close>

definition attempts_of :: "(msg_id \<times> nat \<times> nat) list \<Rightarrow> msg_id \<Rightarrow> nat list" where
  "attempts_of ds m = map (fst \<circ> snd) (filter (\<lambda>d. fst d = m) ds)"

definition delivered_below :: "(msg_id \<times> nat \<times> nat) list \<Rightarrow> msg_id \<Rightarrow> nat \<Rightarrow> bool" where
  "delivered_below ds m a \<longleftrightarrow> (\<forall>x \<in> set (attempts_of ds m). x < a)"

text \<open>
  The attempt invariant: the deliveries of a message carry distinct attempt headers, at
  most \<open>MaxRedeliveryAttempts\<close>; a copy not yet received carries a header above every
  delivered one, and the copy the application holds carries the largest.
\<close>

definition attempt_inv :: "amqp_config \<Rightarrow> broker \<Rightarrow> bool" where
  "attempt_inv cfg s \<longleftrightarrow>
     (let ds = br_deliveries s; mx = cfg_max_redelivery_attempts cfg in
      (\<forall>d \<in> set ds. fst d \<in> set (map fst (br_published s)) \<and>
         distinct (attempts_of ds (fst d)) \<and> (\<forall>x \<in> set (attempts_of ds (fst d)). x \<le> mx)) \<and>
      (\<forall>w \<in> set (br_wait s @ br_redelivery s). delivered_below ds (fst w) (snd (snd w)) \<and> snd (snd w) \<le> mx) \<and>
      (\<forall>q \<in> set (br_primary s). delivered_below ds (fst q) (snd q) \<and> snd q \<le> mx) \<and>
      (\<forall>c \<in> set (br_taken s @ br_out s). delivered_below ds (fst (snd c)) (snd (snd c)) \<and> snd (snd c) \<le> mx) \<and>
      (\<forall>c \<in> set (br_app s). delivered_below ds (fst (snd c)) (Suc (snd (snd c))) \<and> snd (snd c) \<le> mx))"

text \<open>
  The pool invariant: each consumer of the pool holds at most one message (prefetch 1),
  only consumers of the pool hold messages, and the fan-in channel stays within its
  capacity.
\<close>

definition pool_inv :: "nat \<Rightarrow> broker \<Rightarrow> bool" where
  "pool_inv n s \<longleftrightarrow>
     distinct (map fst (br_taken s @ br_out s @ br_app s)) \<and>
     (\<forall>c \<in> set (br_taken s @ br_out s @ br_app s). fst c < n) \<and>
     length (br_out s) \<le> n"

text \<open>
  The order invariant: the deliveries of a message carry the attempt headers
  \<open>0, 1, 2, \<dots>\<close> in order; a copy not yet received carries the number of its deliveries so
  far, the copy the application holds the number minus one; an acknowledged message was
  delivered at least once and at most \<open>MaxRedeliveryAttempts + 1\<close> times, a dropped one
  exactly \<open>MaxRedeliveryAttempts + 1\<close> times.
\<close>

definition order_inv :: "amqp_config \<Rightarrow> broker \<Rightarrow> bool" where
  "order_inv cfg s \<longleftrightarrow>
     (let ds = br_deliveries s; mx = cfg_max_redelivery_attempts cfg; cnt = (\<lambda>m. length (attempts_of ds m)) in
      (\<forall>d \<in> set ds. attempts_of ds (fst d) = [0..<cnt (fst d)]) \<and>
      (\<forall>w \<in> set (br_wait s @ br_redelivery s). snd (snd w) = cnt (fst w)) \<and>
      (\<forall>q \<in> set (br_primary s). snd q = cnt (fst q)) \<and>
      (\<forall>c \<in> set (br_taken s @ br_out s). snd (snd c) = cnt (fst (snd c))) \<and>
      (\<forall>c \<in> set (br_app s). Suc (snd (snd c)) = cnt (fst (snd c))) \<and>
      (\<forall>m \<in> set (br_acked s). 0 < cnt m \<and> cnt m \<le> Suc mx) \<and>
      (\<forall>m \<in> set (br_dropped s). cnt m = Suc mx))"

subsection \<open>Lemmas: conservation\<close>

lemma conserved_init: "conserved broker_init"
  by (simp add: conserved_def live_list_def broker_init_def)

lemma conserved_step:
  "broker_step cfg n s t \<Longrightarrow> conserved s \<Longrightarrow> conserved t"
  by (induction rule: broker_step.induct) (auto simp: conserved_def live_list_def ac_simps)

lemma reachable_conserved: "broker_reachable cfg n s \<Longrightarrow> conserved s"
  by (induction rule: broker_reachable.induct) (auto intro: conserved_init conserved_step)

lemma distinct_sub_mset:
  assumes "mset xs \<subseteq># mset ys" and "distinct ys"
  shows "distinct xs"
  unfolding distinct_count_atmost_1
proof
  fix a
  have "count (mset xs) a \<le> count (mset ys) a"
    using assms(1) by (rule mset_subset_eq_count)
  also have "count (mset ys) a \<le> 1"
    using assms(2) by (simp add: distinct_count_atmost_1)
  finally have le: "count (mset xs) a \<le> 1" .
  show "count (mset xs) a = (if a \<in> set xs then 1 else 0)"
  proof (cases "a \<in> set xs")
    case True
    then have "1 \<le> count (mset xs) a" by (simp add: Suc_le_eq)
    with le have "count (mset xs) a = 1" by (rule le_antisym)
    with True show ?thesis by simp
  qed (simp add: count_eq_zero_iff)
qed

lemma conserved_live_sub:
  "conserved s \<Longrightarrow> mset (live_list s) \<subseteq># mset (map fst (br_published s))"
  unfolding conserved_def by (metis add.assoc mset_subset_eq_add_left)

lemma conserved_live_distinct:
  assumes "conserved s" shows "distinct (live_list s)"
proof (rule distinct_sub_mset)
  show "mset (live_list s) \<subseteq># mset (map fst (br_published s))"
    using assms by (rule conserved_live_sub)
  show "distinct (map fst (br_published s))"
    using assms by (simp add: conserved_def)
qed

lemma conserved_live_published:
  "conserved s \<Longrightarrow> set (live_list s) \<subseteq> set (map fst (br_published s))"
  using set_mset_mono [OF conserved_live_sub [of s]] by simp

subsection \<open>Lemmas: delivery delay\<close>

lemma ready_by_mono: "ready_by ps m t \<Longrightarrow> t \<le> t' \<Longrightarrow> ready_by ps m t'"
  by (auto simp: ready_by_def)

lemma ready_byI: "(m, t0, d) \<in> set ps \<Longrightarrow> t0 + d \<le> t \<Longrightarrow> ready_by ps m t"
  by (force simp: ready_by_def)

lemma ready_by_append: "ready_by ps m t \<Longrightarrow> ready_by (ps @ qs) m t"
  by (auto simp: ready_by_def)

lemma delay_inv_init: "delay_inv broker_init"
  by (simp add: delay_inv_def broker_init_def)

lemma delay_inv_step:
  "broker_step cfg n s t \<Longrightarrow> delay_inv s \<Longrightarrow> delay_inv t"
proof (induction rule: broker_step.induct)
  case (publish m s)
  then show ?case by (auto simp: delay_inv_def ready_by_def)
next
  case (wait_expire s xs m r a ys)
  then show ?case by (auto simp: delay_inv_def intro: ready_byI)
qed (auto simp: delay_inv_def intro: ready_by_mono ready_by_append)

lemma reachable_delay_inv: "broker_reachable cfg n s \<Longrightarrow> delay_inv s"
  by (induction rule: broker_reachable.induct) (auto intro: delay_inv_init delay_inv_step)

subsection \<open>Lemmas: the consumer pool\<close>

lemma pool_inv_init: "pool_inv n broker_init"
  by (simp add: pool_inv_def broker_init_def)

lemma pool_inv_step:
  "broker_step cfg n s t \<Longrightarrow> pool_inv n s \<Longrightarrow> pool_inv n t"
  by (induction rule: broker_step.induct) (auto simp: pool_inv_def consumer_busy_def)

lemma reachable_pool_inv: "broker_reachable cfg n s \<Longrightarrow> pool_inv n s"
  by (induction rule: broker_reachable.induct) (auto intro: pool_inv_init pool_inv_step)

subsection \<open>Lemmas: attempt headers\<close>

lemma attempts_of_append:
  "attempts_of (ds @ [(m, a, t)]) m' = attempts_of ds m' @ (if m' = m then [a] else [])"
  by (simp add: attempts_of_def)

lemma attempts_of_fresh: "m \<notin> set (map fst ds) \<Longrightarrow> attempts_of ds m = []"
  by (auto simp: attempts_of_def filter_empty_conv)

lemma delivered_below_append:
  "delivered_below (ds @ [(m, a, t)]) m' b \<longleftrightarrow>
   delivered_below ds m' b \<and> (m' = m \<longrightarrow> a < b)"
  by (auto simp: delivered_below_def attempts_of_append)

lemma delivered_below_Suc: "delivered_below ds m a \<Longrightarrow> delivered_below ds m (Suc a)"
  by (auto simp: delivered_below_def)

lemma attempts_of_receive:
  "delivered_below ds m a \<Longrightarrow> distinct (attempts_of ds m) \<Longrightarrow>
   distinct (attempts_of (ds @ [(m, a, t)]) m)"
  by (auto simp: attempts_of_append delivered_below_def)

lemma attempt_inv_init: "attempt_inv cfg broker_init"
  by (simp add: attempt_inv_def broker_init_def)

lemma attempt_inv_fresh:
  "attempt_inv cfg s \<Longrightarrow> m \<notin> set (map fst (br_published s)) \<Longrightarrow> delivered_below (br_deliveries s) m 0"
proof -
  assume "attempt_inv cfg s" "m \<notin> set (map fst (br_published s))"
  then have "m \<notin> set (map fst (br_deliveries s))"
    by (auto simp: attempt_inv_def Let_def)
  then show ?thesis by (simp add: delivered_below_def attempts_of_fresh)
qed

lemma attempt_inv_step:
  "broker_step cfg n s t \<Longrightarrow> attempt_inv cfg s \<Longrightarrow> conserved s \<Longrightarrow> attempt_inv cfg t"
proof (induction rule: broker_step.induct)
  case (publish m s)
  then show ?case
    using attempt_inv_fresh [of cfg s m] by (auto simp: attempt_inv_def Let_def)
next
  case (publish_delayed m s d)
  then show ?case
    using attempt_inv_fresh [of cfg s m] by (auto simp: attempt_inv_def Let_def)
next
  case (receive s i m a rest)
  from receive.prems(2) have dl: "distinct (live_list s)"
    by (rule conserved_live_distinct)
  from receive.prems(2) receive.hyps have pub: "m \<in> set (map fst (br_published s))"
    using conserved_live_published [of s] by (auto simp: live_list_def)
  from dl receive.hyps have fresh:
    "\<forall>w \<in> set (br_wait s @ br_redelivery s). fst w \<noteq> m"
    "\<forall>q \<in> set (br_primary s). fst q \<noteq> m"
    "\<forall>c \<in> set (br_taken s @ rest @ br_app s). fst (snd c) \<noteq> m"
    by (auto simp: live_list_def)
  from receive.prems(1) receive.hyps have below: "delivered_below (br_deliveries s) m a"
    "a \<le> cfg_max_redelivery_attempts cfg"
    by (auto simp: attempt_inv_def Let_def)
  have dist: "distinct (attempts_of (br_deliveries s) m)"
  proof (cases "attempts_of (br_deliveries s) m = []")
    case False
    then obtain d where "d \<in> set (br_deliveries s)" "fst d = m"
      by (auto simp: attempts_of_def filter_empty_conv)
    with receive.prems(1) show ?thesis by (auto simp: attempt_inv_def Let_def)
  qed simp
  have le: "\<forall>x \<in> set (attempts_of (br_deliveries s) m). x \<le> cfg_max_redelivery_attempts cfg"
    using below by (auto simp: delivered_below_def)
  show ?case
    using receive.prems(1) receive.hyps pub fresh below le attempts_of_receive [OF below(1) dist]
    unfolding attempt_inv_def Let_def
    by (auto simp: delivered_below_append attempts_of_append intro: delivered_below_Suc)
qed (auto simp: attempt_inv_def Let_def)

lemma reachable_attempt_inv: "broker_reachable cfg n s \<Longrightarrow> attempt_inv cfg s"
proof (induction rule: broker_reachable.induct)
  case init
  show ?case by (rule attempt_inv_init)
next
  case (step s t)
  then show ?case using attempt_inv_step reachable_conserved by blast
qed

subsection \<open>Lemmas: order of the attempt headers\<close>

lemma conserved_all_distinct:
  assumes "conserved s" shows "distinct (live_list s @ br_acked s @ br_dropped s)"
proof (rule distinct_sub_mset)
  show "mset (live_list s @ br_acked s @ br_dropped s) \<subseteq># mset (map fst (br_published s))"
    using assms by (simp add: conserved_def add.assoc)
  show "distinct (map fst (br_published s))"
    using assms by (simp add: conserved_def)
qed

lemma order_inv_init: "order_inv cfg broker_init"
  by (simp add: order_inv_def broker_init_def)

lemma order_inv_step:
  assumes "broker_step cfg n s t" and "order_inv cfg s" and "attempt_inv cfg s" and "conserved s"
  shows "order_inv cfg t"
  using assms
proof (induction rule: broker_step.induct)
  case (publish m s)
  then have "attempts_of (br_deliveries s) m = []"
    by (auto simp: attempt_inv_def Let_def intro!: attempts_of_fresh)
  with publish show ?case by (auto simp: order_inv_def Let_def)
next
  case (publish_delayed m s d)
  then have "attempts_of (br_deliveries s) m = []"
    by (auto simp: attempt_inv_def Let_def intro!: attempts_of_fresh)
  with publish_delayed show ?case by (auto simp: order_inv_def Let_def)
next
  case (receive s i m a rest)
  from conserved_all_distinct [OF receive.prems(3)] receive.hyps have fresh:
    "\<forall>w \<in> set (br_wait s @ br_redelivery s). fst w \<noteq> m"
    "\<forall>q \<in> set (br_primary s). fst q \<noteq> m"
    "\<forall>c \<in> set (br_taken s @ rest @ br_app s). fst (snd c) \<noteq> m"
    "m \<notin> set (br_acked s)" "m \<notin> set (br_dropped s)"
    by (auto simp: live_list_def)
  from receive.prems(1) receive.hyps have a: "length (attempts_of (br_deliveries s) m) = a"
    by (auto simp: order_inv_def Let_def)
  have seq: "attempts_of (br_deliveries s) m = [0..<a]"
  proof (cases "attempts_of (br_deliveries s) m = []")
    case False
    then obtain d where "d \<in> set (br_deliveries s)" "fst d = m"
      by (auto simp: attempts_of_def filter_empty_conv)
    with receive.prems(1) a show ?thesis by (force simp: order_inv_def Let_def)
  qed (use a in simp)
  show ?case
    using receive.prems(1) receive.hyps fresh seq
    unfolding order_inv_def Let_def
    by (auto simp: attempts_of_append)
next
  case (ack s xs i m a ys)
  then have "a \<le> cfg_max_redelivery_attempts cfg"
    by (auto simp: attempt_inv_def Let_def)
  with ack show ?case by (auto simp: order_inv_def Let_def)
next
  case (nack_drop s xs i m a ys)
  then have "a \<le> cfg_max_redelivery_attempts cfg"
    by (auto simp: attempt_inv_def Let_def)
  with nack_drop show ?case by (auto simp: order_inv_def Let_def)
qed (auto simp: order_inv_def Let_def)

lemma reachable_order_inv: "broker_reachable cfg n s \<Longrightarrow> order_inv cfg s"
proof (induction rule: broker_reachable.induct)
  case init
  show ?case by (rule order_inv_init)
next
  case (step s t)
  then show ?case
    using order_inv_step reachable_attempt_inv reachable_conserved by blast
qed

subsection \<open>Properties of every reachable state\<close>

lemma distinct_length_le:
  "distinct xs \<Longrightarrow> set xs \<subseteq> {0..<k} \<Longrightarrow> length xs \<le> k"
  using card_mono [of "{0..<k}" "set xs"] by (simp add: distinct_card)

text \<open>A message is never delivered before its publication time plus its delivery delay.\<close>

lemma delivery_after_delay:
  assumes "broker_reachable cfg n s" "(m, a, t) \<in> set (br_deliveries s)"
    and "(m, t0, d) \<in> set (br_published s)"
  shows "t0 + d \<le> t"
proof -
  from reachable_delay_inv [OF assms(1)] assms(2)
  obtain p where p: "p \<in> set (br_published s)" "fst p = m" "fst (snd p) + snd (snd p) \<le> t"
    by (force simp: delay_inv_def ready_by_def)
  from reachable_conserved [OF assms(1)] have "distinct (map fst (br_published s))"
    by (simp add: conserved_def)
  with p(1,2) assms(3) have "p = (m, t0, d)"
    by (metis eq_key_imp_eq_value prod.collapse)
  with p(3) show ?thesis by simp
qed

text \<open>Every message is delivered at most \<open>MaxRedeliveryAttempts + 1\<close> times.\<close>

lemma deliveries_bounded:
  assumes "broker_reachable cfg n s"
  shows "length (attempts_of (br_deliveries s) m) \<le> Suc (cfg_max_redelivery_attempts cfg)"
proof (cases "attempts_of (br_deliveries s) m = []")
  case False
  then obtain d where d: "d \<in> set (br_deliveries s)" "fst d = m"
    by (auto simp: attempts_of_def filter_empty_conv)
  with reachable_attempt_inv [OF assms]
  have "distinct (attempts_of (br_deliveries s) m)"
    "set (attempts_of (br_deliveries s) m) \<subseteq> {0..<Suc (cfg_max_redelivery_attempts cfg)}"
    by (auto simp: attempt_inv_def Let_def less_Suc_eq_le)
  then show ?thesis by (rule distinct_length_le)
qed simp

text \<open>No message is lost or duplicated: a published message is held exactly once or was
  acknowledged or dropped exactly once.\<close>

lemma conserved_accounted_once:
  assumes "conserved s"
  shows "count (mset (live_list s @ br_acked s @ br_dropped s)) m =
         (if m \<in> set (map fst (br_published s)) then 1 else 0)"
proof -
  from assms
  have "mset (live_list s @ br_acked s @ br_dropped s) = mset (map fst (br_published s))"
    "distinct (map fst (br_published s))"
    by (simp_all add: conserved_def add.assoc)
  then show ?thesis by (simp only: distinct_count_atmost_1)
qed

lemma message_accounted_once:
  assumes "broker_reachable cfg n s"
  shows "count (mset (live_list s @ br_acked s @ br_dropped s)) m =
         (if m \<in> set (map fst (br_published s)) then 1 else 0)"
  using reachable_conserved [OF assms] by (rule conserved_accounted_once)

text \<open>The pool holds at most \<open>n\<close> messages at a time, and so does the fan-in channel.\<close>

lemma pool_inv_bounded:
  assumes "pool_inv n s"
  shows "length (br_taken s @ br_out s @ br_app s) \<le> n \<and> length (br_out s) \<le> n"
proof -
  from assms
  have "distinct (map fst (br_taken s @ br_out s @ br_app s))"
    "set (map fst (br_taken s @ br_out s @ br_app s)) \<subseteq> {0..<n}" "length (br_out s) \<le> n"
    unfolding pool_inv_def by (auto simp del: map_append set_append)
  then have "length (map fst (br_taken s @ br_out s @ br_app s)) \<le> n"
    by (intro distinct_length_le)
  with \<open>length (br_out s) \<le> n\<close> show ?thesis by simp
qed

lemma pool_bounded:
  assumes "broker_reachable cfg n s"
  shows "length (br_taken s @ br_out s @ br_app s) \<le> n \<and> length (br_out s) \<le> n"
  using reachable_pool_inv [OF assms] by (rule pool_inv_bounded)

text \<open>
  Refinement of the functional redelivery model of \<open>AmqpPubSub\<close>: in every run of the
  broker, the attempt headers a message was delivered with are a prefix of the dispatches
  of \<open>dispatches\<close> for a consumer that always nacks; for a dropped message they are all of
  them, and for an acknowledged message they are exactly the dispatches for the consumer
  that nacked every delivery but the last and acknowledged the last.
\<close>

lemma reachable_attempts_upt:
  assumes "broker_reachable cfg n s"
  shows "attempts_of (br_deliveries s) m = [0..<length (attempts_of (br_deliveries s) m)]"
proof (cases "attempts_of (br_deliveries s) m = []")
  case False
  then obtain d where "d \<in> set (br_deliveries s)" "fst d = m"
    by (auto simp: attempts_of_def filter_empty_conv)
  with reachable_order_inv [OF assms] show ?thesis
    by (auto simp: order_inv_def Let_def)
qed simp

lemma upt_refines_dispatches:
  assumes upt: "xs = [0..<k]" and le: "k \<le> Suc (cfg_max_redelivery_attempts cfg)"
  shows "(k = Suc (cfg_max_redelivery_attempts cfg) \<longrightarrow> xs = dispatches cfg (\<lambda>_. ReplyNack) 0) \<and>
         (0 < k \<longrightarrow> xs = dispatches cfg (\<lambda>i. if Suc i < k then ReplyNack else ReplyAck) 0) \<and>
         xs = take k (dispatches cfg (\<lambda>_. ReplyNack) 0)"
proof -
  let ?mx = "cfg_max_redelivery_attempts cfg"
  have nack: "dispatches cfg (\<lambda>_. ReplyNack) 0 = [0..<Suc ?mx]"
    by (rule dispatches_all_nack) simp
  have ack_run: "dispatches cfg (\<lambda>i. if Suc i < k then ReplyNack else ReplyAck) 0 = [0..<k]"
    if "0 < k"
  proof -
    have "dispatches cfg (\<lambda>i. if Suc i < k then ReplyNack else ReplyAck) 0 = [0..<Suc (k - 1)]"
      using that le by (intro dispatches_ack_at) auto
    with that show ?thesis by simp
  qed
  have "take k [0..<Suc ?mx] = [0..<k]"
    using le by (simp add: take_upt min_def del: upt_Suc)
  then show ?thesis
    using upt nack ack_run by (auto simp del: upt_Suc)
qed

lemma broker_refines_dispatches:
  assumes "broker_reachable cfg n s"
  shows "(m \<in> set (br_dropped s) \<longrightarrow>
            attempts_of (br_deliveries s) m = dispatches cfg (\<lambda>_. ReplyNack) 0) \<and>
         (m \<in> set (br_acked s) \<longrightarrow>
            attempts_of (br_deliveries s) m =
              dispatches cfg (\<lambda>i. if Suc i < length (attempts_of (br_deliveries s) m)
                                  then ReplyNack else ReplyAck) 0) \<and>
         attempts_of (br_deliveries s) m =
           take (length (attempts_of (br_deliveries s) m)) (dispatches cfg (\<lambda>_. ReplyNack) 0)"
proof -
  let ?k = "length (attempts_of (br_deliveries s) m)"
  have inv: "order_inv cfg s"
    by (rule reachable_order_inv [OF assms])
  have "m \<in> set (br_dropped s) \<Longrightarrow> ?k = Suc (cfg_max_redelivery_attempts cfg)"
    "m \<in> set (br_acked s) \<Longrightarrow> 0 < ?k"
    using inv by (auto simp: order_inv_def Let_def)
  then show ?thesis
    using upt_refines_dispatches [OF reachable_attempts_upt [OF assms] deliveries_bounded [OF assms]]
    by blast
qed

subsection \<open>Runs\<close>

lemma broker_reachable_eq:
  "broker_reachable cfg n s \<Longrightarrow> broker_step cfg n s t \<Longrightarrow> t = u \<Longrightarrow> broker_reachable cfg n u"
  by (auto intro: broker_reachable.step)

text \<open>
  From a state where a message waits alone in the primary queue and the pool is idle, a
  consumer that nacks every delivery makes the broker redeliver it until its attempt header
  reaches \<open>MaxRedeliveryAttempts\<close>, after which the message is dropped without ever
  being acknowledged.
\<close>

lemma redeliver_until_drop:
  assumes "broker_reachable cfg n s" and "0 < n" and "br_primary s = [(m, a)]"
    and "br_taken s = []" and "br_out s = []" and "br_app s = []"
    and "a \<le> cfg_max_redelivery_attempts cfg" and "m \<notin> set (br_acked s)"
  shows "\<exists>t. broker_reachable cfg n t \<and> m \<in> set (br_dropped t) \<and> m \<notin> set (br_acked t)"
  using assms
proof (induction "cfg_max_redelivery_attempts cfg - a" arbitrary: s a)
  case 0
  let ?s3 = "s\<lparr>br_primary := [], br_app := [(0, m, a)],
                br_deliveries := br_deliveries s @ [(m, a, br_clock s)]\<rparr>"
  have r3: "broker_reachable cfg n ?s3"
  proof -
    have "broker_reachable cfg n (s\<lparr>br_primary := [], br_taken := [(0, m, a)]\<rparr>)"
      by (rule broker_reachable_eq [OF "0.prems"(1) broker_step.consume [where i = 0 and m = m and a = a
            and rest = "[]"]]) (simp_all add: "0.prems" consumer_busy_def)
    then have "broker_reachable cfg n (s\<lparr>br_primary := [], br_out := [(0, m, a)]\<rparr>)"
      by (rule broker_reachable_eq [OF _ broker_step.forward [where xs = "[]" and i = 0 and m = m
            and a = a and ys = "[]"]]) (simp_all add: "0.prems")
    then show ?thesis
      by (rule broker_reachable_eq [OF _ broker_step.receive [where i = 0 and m = m and a = a
            and rest = "[]"]]) (simp_all add: "0.prems")
  qed
  have "broker_reachable cfg n (?s3\<lparr>br_app := [], br_dropped := br_dropped s @ [m]\<rparr>)"
    by (rule broker_reachable_eq [OF r3 broker_step.nack_drop [where xs = "[]" and i = 0 and m = m
          and a = a and ys = "[]"]]) (use "0.hyps" "0.prems" in simp_all)
  with "0.prems" show ?case by force
next
  case (Suc k)
  let ?d = "redelivery_delay cfg (Suc a)"
  let ?s3 = "s\<lparr>br_primary := [], br_app := [(0, m, a)],
                br_deliveries := br_deliveries s @ [(m, a, br_clock s)]\<rparr>"
  let ?s4 = "?s3\<lparr>br_app := [], br_redelivery := br_redelivery s @ [(m, br_clock s + ?d, Suc a)]\<rparr>"
  let ?s6 = "?s4\<lparr>br_clock := br_clock s + ?d, br_redelivery := br_redelivery s, br_primary := [(m, Suc a)]\<rparr>"
  have r3: "broker_reachable cfg n ?s3"
  proof -
    have "broker_reachable cfg n (s\<lparr>br_primary := [], br_taken := [(0, m, a)]\<rparr>)"
      by (rule broker_reachable_eq [OF Suc.prems(1) broker_step.consume [where i = 0 and m = m and a = a
            and rest = "[]"]]) (simp_all add: Suc.prems consumer_busy_def)
    then have "broker_reachable cfg n (s\<lparr>br_primary := [], br_out := [(0, m, a)]\<rparr>)"
      by (rule broker_reachable_eq [OF _ broker_step.forward [where xs = "[]" and i = 0 and m = m
            and a = a and ys = "[]"]]) (simp_all add: Suc.prems)
    then show ?thesis
      by (rule broker_reachable_eq [OF _ broker_step.receive [where i = 0 and m = m and a = a
            and rest = "[]"]]) (simp_all add: Suc.prems)
  qed
  have "broker_reachable cfg n ?s4"
    by (rule broker_reachable_eq [OF r3 broker_step.nack_requeue [where xs = "[]" and i = 0 and m = m
          and a = a and ys = "[]"]]) (use Suc.hyps in simp_all)
  then have "broker_reachable cfg n (?s4\<lparr>br_clock := br_clock s + ?d\<rparr>)"
    by (rule broker_reachable_eq [OF _ broker_step.tick [where k = ?d]]) simp
  then have r6: "broker_reachable cfg n ?s6"
    by (rule broker_reachable_eq [OF _ broker_step.redelivery_expire [where xs = "br_redelivery s"
          and m = m and r = "br_clock s + ?d" and a = "Suc a" and ys = "[]"]]) simp_all
  have "k = cfg_max_redelivery_attempts cfg - Suc a" using Suc.hyps(2) by arith
  moreover have "Suc a \<le> cfg_max_redelivery_attempts cfg" using Suc.hyps(2) by arith
  ultimately show ?case
    using Suc.hyps(1) [OF _ r6] Suc.prems by simp
qed

end
