(* ===== verification/AmqpReconnect.thy ===== *)
theory AmqpReconnect
  imports AmqpBroker
begin

text \<open>
  Connection loss of a pool consumer (specification, sections 4.2 and 7): when the channel
  of a consumer of the pool is lost, its in-flight operations fail with a transport error
  and the broker re-queues every message the consumer had not acknowledged, with its
  \<open>delivery-attempt\<close> header unchanged; an answer of the application to such a copy is
  ignored. The relation \<open>lossy_step\<close> extends \<open>broker_step\<close> by this step. The lemmas
  show that conservation, the delivery delay and the pool bound survive it, that the
  attempt headers still follow \<open>dispatches\<close> once the repeats caused by losses are
  collapsed, and that the number of deliveries of a message is no longer bounded.
\<close>

text \<open>The copies consumer \<open>i\<close> holds, and the copies of the other consumers.\<close>

definition held_by :: "nat \<Rightarrow> (nat \<times> msg_id \<times> nat) list \<Rightarrow> (nat \<times> msg_id \<times> nat) list" where
  "held_by i cs = filter (\<lambda>c. fst c = i) cs"

definition held_by_others :: "nat \<Rightarrow> (nat \<times> msg_id \<times> nat) list \<Rightarrow> (nat \<times> msg_id \<times> nat) list" where
  "held_by_others i cs = filter (\<lambda>c. fst c \<noteq> i) cs"

inductive lossy_step :: "amqp_config \<Rightarrow> nat \<Rightarrow> broker \<Rightarrow> broker \<Rightarrow> bool"
  for cfg :: amqp_config and n :: nat where
  broker: "broker_step cfg n s t \<Longrightarrow> lossy_step cfg n s t"
| consumer_lost:
    "lossy_step cfg n s
       (s\<lparr>br_primary := map snd (held_by i (br_taken s @ br_out s @ br_app s)) @ br_primary s,
          br_taken := held_by_others i (br_taken s), br_out := held_by_others i (br_out s),
          br_app := held_by_others i (br_app s)\<rparr>)"

inductive lossy_reachable :: "amqp_config \<Rightarrow> nat \<Rightarrow> broker \<Rightarrow> bool"
  for cfg :: amqp_config and n :: nat where
  init: "lossy_reachable cfg n broker_init"
| step: "lossy_reachable cfg n s \<Longrightarrow> lossy_step cfg n s t \<Longrightarrow> lossy_reachable cfg n t"

text \<open>The attempt headers of the deliveries of \<open>m\<close> with adjacent repeats collapsed.\<close>

definition collapsed :: "(msg_id \<times> nat \<times> nat) list \<Rightarrow> msg_id \<Rightarrow> nat list" where
  "collapsed ds m = remdups_adj (attempts_of ds m)"

text \<open>
  The order invariant under connection loss: the collapsed headers of a delivered message
  are \<open>0, 1, 2, \<dots>\<close>; a copy not yet received carries the number \<open>k\<close> of collapsed
  headers (a fresh dispatch) or \<open>k - 1\<close> (re-queued after a loss); the copy the
  application holds carries \<open>k - 1\<close>; every header is at most \<open>MaxRedeliveryAttempts\<close>,
  so \<open>k\<close> is at most \<open>MaxRedeliveryAttempts + 1\<close>.
\<close>

definition lossy_order_inv :: "amqp_config \<Rightarrow> broker \<Rightarrow> bool" where
  "lossy_order_inv cfg s \<longleftrightarrow>
     (let ds = br_deliveries s; mx = cfg_max_redelivery_attempts cfg;
          k = (\<lambda>m. length (collapsed ds m));
          pending = (\<lambda>m a. a \<le> mx \<and> (a = k m \<or> Suc a = k m)) in
      (\<forall>d \<in> set ds. fst d \<in> set (map fst (br_published s)) \<and> collapsed ds (fst d) = [0..<k (fst d)] \<and>
         k (fst d) \<le> Suc mx) \<and>
      (\<forall>w \<in> set (br_wait s @ br_redelivery s). pending (fst w) (snd (snd w))) \<and>
      (\<forall>q \<in> set (br_primary s). pending (fst q) (snd q)) \<and>
      (\<forall>c \<in> set (br_taken s @ br_out s). pending (fst (snd c)) (snd (snd c))) \<and>
      (\<forall>c \<in> set (br_app s). snd (snd c) \<le> mx \<and> Suc (snd (snd c)) = k (fst (snd c))) \<and>
      (\<forall>m \<in> set (br_acked s). 0 < k m \<and> k m \<le> Suc mx) \<and>
      (\<forall>m \<in> set (br_dropped s). k m = Suc mx))"

subsection \<open>Lemmas\<close>

lemma broker_reachable_lossy: "broker_reachable cfg n s \<Longrightarrow> lossy_reachable cfg n s"
  by (induction rule: broker_reachable.induct) (auto intro: lossy_reachable.intros lossy_step.broker)

lemma mset_held_split:
  "mset (map f (held_by i cs)) + mset (map f (held_by_others i cs)) = mset (map f cs)"
  by (induction cs) (auto simp: held_by_def held_by_others_def)

lemma set_held_split:
  "set (held_by i cs) \<union> set (held_by_others i cs) = set cs"
  by (auto simp: held_by_def held_by_others_def)

lemma held_by_append: "held_by i (xs @ ys) = held_by i xs @ held_by i ys"
  by (simp add: held_by_def)

lemma conserved_lost:
  assumes "conserved s"
  shows "conserved (s\<lparr>br_primary := map snd (held_by i (br_taken s @ br_out s @ br_app s)) @ br_primary s,
          br_taken := held_by_others i (br_taken s), br_out := held_by_others i (br_out s),
          br_app := held_by_others i (br_app s)\<rparr>)"
proof -
  let ?f = "fst \<circ> snd" and ?h = "\<lambda>cs. mset (map (fst \<circ> snd) (held_by i cs))"
    and ?o = "\<lambda>cs. mset (map (fst \<circ> snd) (held_by_others i cs))"
  have "mset (map fst (map snd (held_by i (br_taken s @ br_out s @ br_app s)))) +
        ?o (br_taken s) + ?o (br_out s) + ?o (br_app s) =
        (?h (br_taken s) + ?o (br_taken s)) + (?h (br_out s) + ?o (br_out s)) +
        (?h (br_app s) + ?o (br_app s))"
    by (simp add: held_by_append ac_simps)
  also have "\<dots> = mset (map ?f (br_taken s)) + mset (map ?f (br_out s)) + mset (map ?f (br_app s))"
    by (simp only: mset_held_split)
  finally show ?thesis
    using assms by (simp add: conserved_def live_list_def ac_simps)
qed

lemma lossy_conserved: "lossy_reachable cfg n s \<Longrightarrow> conserved s"
proof (induction rule: lossy_reachable.induct)
  case init
  show ?case by (rule conserved_init)
next
  case (step s t)
  from step.hyps(2) step.IH show ?case
    by (cases rule: lossy_step.cases) (auto intro: conserved_step conserved_lost)
qed


lemma held_by_subset: "set (held_by i cs) \<subseteq> set cs"
  by (auto simp: held_by_def)

lemma held_by_others_subset: "set (held_by_others i cs) \<subseteq> set cs"
  by (auto simp: held_by_others_def)

lemma delay_inv_lost:
  assumes inv: "delay_inv s"
  shows "delay_inv (s\<lparr>br_primary := map snd (held_by i (br_taken s @ br_out s @ br_app s)) @ br_primary s,
          br_taken := held_by_others i (br_taken s), br_out := held_by_others i (br_out s),
          br_app := held_by_others i (br_app s)\<rparr>)"
proof -
  let ?cs = "br_taken s @ br_out s @ br_app s" and ?r = "\<lambda>m. ready_by (br_published s) m (br_clock s)"
  from inv have cs: "\<forall>c \<in> set ?cs. ?r (fst (snd c))"
    by (simp add: delay_inv_def)
  have "\<forall>q \<in> set (map snd (held_by i ?cs)). ?r (fst q)"
    using cs held_by_subset [of i ?cs] by auto
  moreover have "\<forall>c \<in> set (held_by_others i (br_taken s) @ held_by_others i (br_out s) @
                   held_by_others i (br_app s)). ?r (fst (snd c))"
    using cs held_by_others_subset [of i] by auto
  ultimately show ?thesis
    using inv unfolding delay_inv_def by (simp add: ball_Un)
qed

lemma lossy_delay_inv: "lossy_reachable cfg n s \<Longrightarrow> delay_inv s"
proof (induction rule: lossy_reachable.induct)
  case init
  show ?case by (rule delay_inv_init)
next
  case (step s t)
  from step.hyps(2) step.IH show ?case
    by (cases rule: lossy_step.cases) (auto intro: delay_inv_step delay_inv_lost)
qed

lemma pool_inv_lost:
  "pool_inv n s \<Longrightarrow>
   pool_inv n (s\<lparr>br_primary := map snd (held_by i (br_taken s @ br_out s @ br_app s)) @ br_primary s,
          br_taken := held_by_others i (br_taken s), br_out := held_by_others i (br_out s),
          br_app := held_by_others i (br_app s)\<rparr>)"
  by (auto simp: pool_inv_def held_by_others_def distinct_map_filter intro: order_trans [OF length_filter_le])

lemma lossy_pool_inv: "lossy_reachable cfg n s \<Longrightarrow> pool_inv n s"
proof (induction rule: lossy_reachable.induct)
  case init
  show ?case by (rule pool_inv_init)
next
  case (step s t)
  from step.hyps(2) step.IH show ?case
    by (cases rule: lossy_step.cases) (auto intro: pool_inv_step pool_inv_lost)
qed


lemma remdups_adj_snoc:
  "remdups_adj (xs @ [x]) = (if xs \<noteq> [] \<and> last xs = x then remdups_adj xs else remdups_adj xs @ [x])"
  by (induction xs rule: remdups_adj.induct) auto

lemma collapsed_other:
  "m' \<noteq> m \<Longrightarrow> collapsed (ds @ [(m, a, t)]) m' = collapsed ds m'"
  by (simp add: collapsed_def attempts_of_append)

lemma collapsed_fresh_dispatch:
  assumes "collapsed ds m = [0..<a]"
  shows "collapsed (ds @ [(m, a, t)]) m = [0..<Suc a]"
proof (cases "attempts_of ds m = []")
  case True
  with assms show ?thesis by (simp add: collapsed_def attempts_of_append)
next
  case False
  then have "last (remdups_adj (attempts_of ds m)) = last [0..<a]"
    using assms by (simp add: collapsed_def)
  moreover from False assms have "0 < a"
    by (cases a) (simp_all add: collapsed_def)
  ultimately have "last (attempts_of ds m) \<noteq> a"
    by simp
  with assms show ?thesis
    by (simp add: collapsed_def attempts_of_append remdups_adj_snoc)
qed

lemma collapsed_redispatch:
  assumes "collapsed ds m = [0..<Suc a]"
  shows "collapsed (ds @ [(m, a, t)]) m = [0..<Suc a]"
proof -
  have "attempts_of ds m \<noteq> []"
    using assms by (auto simp: collapsed_def)
  moreover have "last (remdups_adj (attempts_of ds m)) = a"
    using assms by (simp add: collapsed_def del: upt_Suc)
  ultimately show ?thesis
    using assms by (simp add: collapsed_def attempts_of_append remdups_adj_snoc)
qed

lemma lossy_order_inv_init: "lossy_order_inv cfg broker_init"
  by (simp add: lossy_order_inv_def broker_init_def)

lemma lossy_order_inv_collapsed:
  assumes "lossy_order_inv cfg s"
  shows "collapsed (br_deliveries s) m = [0..<length (collapsed (br_deliveries s) m)]"
proof (cases "attempts_of (br_deliveries s) m = []")
  case False
  then obtain d where "d \<in> set (br_deliveries s)" "fst d = m"
    by (auto simp: attempts_of_def filter_empty_conv)
  with assms show ?thesis
    by (auto simp: lossy_order_inv_def Let_def)
qed (simp add: collapsed_def)

lemma lossy_order_inv_fresh:
  assumes "lossy_order_inv cfg s" and "m \<notin> set (map fst (br_published s))"
  shows "collapsed (br_deliveries s) m = []"
proof -
  from assms have "m \<notin> set (map fst (br_deliveries s))"
    by (auto simp: lossy_order_inv_def Let_def)
  then show ?thesis by (simp add: collapsed_def attempts_of_fresh)
qed


lemma lossy_order_inv_step:
  assumes "broker_step cfg n s t" and "lossy_order_inv cfg s" and "conserved s"
  shows "lossy_order_inv cfg t"
  using assms
proof (induction rule: broker_step.induct)
  case (publish m s)
  then have "collapsed (br_deliveries s) m = []"
    by (intro lossy_order_inv_fresh)
  with publish show ?case by (auto simp: lossy_order_inv_def Let_def)
next
  case (publish_delayed m s d)
  then have "collapsed (br_deliveries s) m = []"
    by (intro lossy_order_inv_fresh)
  with publish_delayed show ?case by (auto simp: lossy_order_inv_def Let_def)
next
  case (receive s i m a rest)
  let ?ds = "br_deliveries s" and ?ds' = "br_deliveries s @ [(m, a, br_clock s)]"
  let ?k = "length (collapsed (br_deliveries s) m)"
  from conserved_all_distinct [OF receive.prems(2)] receive.hyps have fresh:
    "\<forall>w \<in> set (br_wait s @ br_redelivery s). fst w \<noteq> m"
    "\<forall>q \<in> set (br_primary s). fst q \<noteq> m"
    "\<forall>c \<in> set (br_taken s @ rest @ br_app s). fst (snd c) \<noteq> m"
    "m \<notin> set (br_acked s)" "m \<notin> set (br_dropped s)"
    by (auto simp: live_list_def)
  from conserved_live_published [OF receive.prems(2)] receive.hyps
  have pub: "m \<in> set (map fst (br_published s))"
    by (auto simp: live_list_def)
  have coll: "collapsed ?ds m = [0..<?k]"
    using receive.prems(1) by (rule lossy_order_inv_collapsed)
  from receive.prems(1) receive.hyps have pend: "a \<le> cfg_max_redelivery_attempts cfg" "a = ?k \<or> Suc a = ?k"
    by (auto simp: lossy_order_inv_def Let_def)
  from pend(2) show ?case
  proof
    assume "a = ?k"
    with coll have "\<And>m'. collapsed ?ds' m' = (if m' = m then [0..<Suc a] else collapsed ?ds m')"
      by (simp add: collapsed_fresh_dispatch collapsed_other)
    with receive.prems(1) receive.hyps fresh pend(1) pub show ?case
      unfolding lossy_order_inv_def Let_def by auto
  next
    assume "Suc a = ?k"
    with coll have "collapsed ?ds' m = collapsed ?ds m"
      by (simp add: collapsed_redispatch del: upt_Suc)
    then have "\<And>m'. collapsed ?ds' m' = collapsed ?ds m'"
      by (metis collapsed_other)
    with receive.prems(1) receive.hyps \<open>Suc a = ?k\<close> pend(1) pub coll show ?case
      unfolding lossy_order_inv_def Let_def by auto
  qed
qed (auto simp: lossy_order_inv_def Let_def)


lemma lossy_order_inv_lost:
  assumes inv: "lossy_order_inv cfg s"
  shows "lossy_order_inv cfg (s\<lparr>br_primary := map snd (held_by i (br_taken s @ br_out s @ br_app s)) @ br_primary s,
          br_taken := held_by_others i (br_taken s), br_out := held_by_others i (br_out s),
          br_app := held_by_others i (br_app s)\<rparr>)"
proof -
  let ?mx = "cfg_max_redelivery_attempts cfg" and ?k = "\<lambda>m. length (collapsed (br_deliveries s) m)"
  let ?p = "\<lambda>m a. a \<le> ?mx \<and> (a = ?k m \<or> Suc a = ?k m)"
  from inv have tk: "\<forall>c \<in> set (br_taken s @ br_out s). ?p (fst (snd c)) (snd (snd c))"
    and ap: "\<forall>c \<in> set (br_app s). snd (snd c) \<le> ?mx \<and> Suc (snd (snd c)) = ?k (fst (snd c))"
    by (simp_all add: lossy_order_inv_def Let_def)
  have "\<forall>c \<in> set (br_taken s @ br_out s @ br_app s). ?p (fst (snd c)) (snd (snd c))"
    using tk ap by auto
  then have "\<forall>q \<in> set (map snd (held_by i (br_taken s @ br_out s @ br_app s))). ?p (fst q) (snd q)"
    using held_by_subset [of i "br_taken s @ br_out s @ br_app s"] by auto
  moreover have "\<forall>c \<in> set (held_by_others i (br_taken s) @ held_by_others i (br_out s)). ?p (fst (snd c)) (snd (snd c))"
    using tk held_by_others_subset [of i] by auto
  moreover have "\<forall>c \<in> set (held_by_others i (br_app s)). snd (snd c) \<le> ?mx \<and> Suc (snd (snd c)) = ?k (fst (snd c))"
    using ap held_by_others_subset [of i] by auto
  ultimately show ?thesis
    using inv unfolding lossy_order_inv_def Let_def by (simp add: ball_Un)
qed

lemma lossy_reachable_order_inv:
  "lossy_reachable cfg n s \<Longrightarrow> lossy_order_inv cfg s"
proof (induction rule: lossy_reachable.induct)
  case init
  show ?case by (rule lossy_order_inv_init)
next
  case (step s t)
  have "conserved s"
    using step.hyps(1) by (rule lossy_conserved)
  with step.hyps(2) step.IH show ?case
    by (cases rule: lossy_step.cases) (auto intro: lossy_order_inv_step lossy_order_inv_lost)
qed


lemma lossy_collapsed_bounded:
  assumes "lossy_order_inv cfg s"
  shows "length (collapsed (br_deliveries s) m) \<le> Suc (cfg_max_redelivery_attempts cfg)"
proof (cases "attempts_of (br_deliveries s) m = []")
  case False
  then obtain d where "d \<in> set (br_deliveries s)" "fst d = m"
    by (auto simp: attempts_of_def filter_empty_conv)
  with assms show ?thesis
    by (auto simp: lossy_order_inv_def Let_def)
qed (simp add: collapsed_def)

text \<open>
  Refinement of \<open>dispatches\<close> under connection loss: once the repeated deliveries that
  re-queueing causes are collapsed, the attempt headers of a message are a prefix of the
  dispatches for a consumer that always nacks, all of them for a dropped message, and the
  dispatches for a consumer that acknowledges the last one for an acknowledged message.
\<close>

lemma lossy_refines_dispatches:
  assumes "lossy_reachable cfg n s"
  shows "(m \<in> set (br_dropped s) \<longrightarrow>
            collapsed (br_deliveries s) m = dispatches cfg (\<lambda>_. ReplyNack) 0) \<and>
         (m \<in> set (br_acked s) \<longrightarrow>
            collapsed (br_deliveries s) m =
              dispatches cfg (\<lambda>i. if Suc i < length (collapsed (br_deliveries s) m)
                                  then ReplyNack else ReplyAck) 0) \<and>
         collapsed (br_deliveries s) m =
           take (length (collapsed (br_deliveries s) m)) (dispatches cfg (\<lambda>_. ReplyNack) 0)"
proof -
  let ?k = "length (collapsed (br_deliveries s) m)"
  have inv: "lossy_order_inv cfg s"
    by (rule lossy_reachable_order_inv [OF assms])
  have "m \<in> set (br_dropped s) \<Longrightarrow> ?k = Suc (cfg_max_redelivery_attempts cfg)"
    "m \<in> set (br_acked s) \<Longrightarrow> 0 < ?k"
    using inv by (auto simp: lossy_order_inv_def Let_def)
  then show ?thesis
    using upt_refines_dispatches [OF lossy_order_inv_collapsed [OF inv] lossy_collapsed_bounded [OF inv]]
    by blast
qed


subsection \<open>Runs\<close>

lemma lossy_reachable_eq:
  "lossy_reachable cfg n s \<Longrightarrow> lossy_step cfg n s t \<Longrightarrow> t = u \<Longrightarrow> lossy_reachable cfg n u"
  by (auto intro: lossy_reachable.step)

lemma lossy_reachable_broker_eq:
  "lossy_reachable cfg n s \<Longrightarrow> broker_step cfg n s t \<Longrightarrow> t = u \<Longrightarrow> lossy_reachable cfg n u"
  by (auto intro: lossy_reachable.step lossy_step.broker)

text \<open>
  With connection loss the number of deliveries is unbounded: a consumer that loses its
  connection after every delivery makes the broker deliver the same message, with
  attempt header 0, as often as one likes, whatever \<open>MaxRedeliveryAttempts\<close> is.
\<close>

lemma lossy_deliveries_unbounded:
  assumes "0 < n"
  shows "lossy_reachable cfg n (broker_init\<lparr>br_published := [(m, 0, 0)], br_primary := [(m, 0)],
           br_deliveries := replicate k (m, 0, 0)\<rparr>)"
proof (induction k)
  case 0
  show ?case
    by (rule lossy_reachable_broker_eq [OF lossy_reachable.init broker_step.publish [where m = m]])
       (simp_all add: broker_init_def)
next
  case (Suc k)
  let ?s = "broker_init\<lparr>br_published := [(m, 0, 0)], br_primary := [(m, 0)],
              br_deliveries := replicate k (m, 0, 0)\<rparr>"
  have "lossy_reachable cfg n (?s\<lparr>br_primary := [], br_taken := [(0, m, 0)]\<rparr>)"
    by (rule lossy_reachable_broker_eq [OF Suc.IH broker_step.consume [where i = 0 and m = m and a = 0
          and rest = "[]"]]) (simp_all add: assms broker_init_def consumer_busy_def)
  then have "lossy_reachable cfg n (?s\<lparr>br_primary := [], br_out := [(0, m, 0)]\<rparr>)"
    by (rule lossy_reachable_broker_eq [OF _ broker_step.forward [where xs = "[]" and i = 0 and m = m
          and a = 0 and ys = "[]"]]) (simp_all add: assms broker_init_def)
  then have "lossy_reachable cfg n (?s\<lparr>br_primary := [], br_app := [(0, m, 0)],
               br_deliveries := replicate k (m, 0, 0) @ [(m, 0, 0)]\<rparr>)"
    by (rule lossy_reachable_broker_eq [OF _ broker_step.receive [where i = 0 and m = m and a = 0
          and rest = "[]"]]) (simp_all add: broker_init_def)
  then show ?case
    by (rule lossy_reachable_eq [OF _ lossy_step.consumer_lost [where i = 0]])
       (simp_all add: broker_init_def held_by_def held_by_others_def replicate_append_same)
qed

end
