(* ===== verification/AmqpClose.thy ===== *)
theory AmqpClose
  imports AmqpReconnect
begin

text \<open>
  \<open>Close\<close> of the AMQP pub/sub (specification, sections 4.1, 4.3 and 5): \<open>Close\<close> stops
  the lifecycle, after which \<open>Publish\<close> and \<open>Subscribe\<close> fail with \<open>ErrNotStarted\<close>
  (\<open>ps_close\<close> in \<open>AmqpPubSub\<close>), and closes the channels of the pool, so the broker
  re-queues every message not yet acknowledged; the broker itself keeps running its TTL
  timers. A state is the flag \<open>closed\<close> with the broker; before \<open>Close\<close> the broker runs
  with connection loss (\<open>lossy_step\<close>), after it the broker runs with no consumer and no
  publisher. The lemmas show that \<open>msgChan\<close> emits nothing after \<open>Close\<close>, that no
  message is lost by closing, and that a closed pub/sub holds no message.
\<close>

definition release_all :: "broker \<Rightarrow> broker" where
  "release_all s =
     s\<lparr>br_primary := map snd (br_taken s @ br_out s @ br_app s) @ br_primary s,
       br_taken := [], br_out := [], br_app := []\<rparr>"

inductive close_step :: "amqp_config \<Rightarrow> nat \<Rightarrow> bool \<times> broker \<Rightarrow> bool \<times> broker \<Rightarrow> bool"
  for cfg :: amqp_config and n :: nat where
  running: "lossy_step cfg n s t \<Longrightarrow> close_step cfg n (False, s) (False, t)"
| close: "close_step cfg n (False, s) (True, release_all s)"
| closed: "broker_step cfg 0 s t \<Longrightarrow> br_published t = br_published s \<Longrightarrow> close_step cfg n (True, s) (True, t)"

inductive close_reachable :: "amqp_config \<Rightarrow> nat \<Rightarrow> bool \<times> broker \<Rightarrow> bool"
  for cfg :: amqp_config and n :: nat where
  init: "close_reachable cfg n (False, broker_init)"
| step: "close_reachable cfg n p \<Longrightarrow> close_step cfg n p q \<Longrightarrow> close_reachable cfg n q"

text \<open>The pool and the fan-in channel are empty.\<close>

definition pool_idle :: "broker \<Rightarrow> bool" where
  "pool_idle s \<longleftrightarrow> br_taken s = [] \<and> br_out s = [] \<and> br_app s = []"

subsection \<open>Lemmas\<close>

lemma conserved_release_all: "conserved s \<Longrightarrow> conserved (release_all s)"
  by (simp add: conserved_def live_list_def release_all_def ac_simps)

lemma idle_step: "broker_step cfg 0 s t \<Longrightarrow> pool_idle s \<Longrightarrow> pool_idle t"
  by (induction rule: broker_step.induct) (simp_all add: pool_idle_def)

lemma idle_step_frozen:
  "broker_step cfg 0 s t \<Longrightarrow> pool_idle s \<Longrightarrow>
   br_deliveries t = br_deliveries s \<and> br_acked t = br_acked s \<and> br_dropped t = br_dropped s"
  by (induction rule: broker_step.induct) (simp_all add: pool_idle_def)

lemma close_reachable_invs:
  "close_reachable cfg n p \<Longrightarrow> conserved (snd p) \<and> (fst p \<longrightarrow> pool_idle (snd p))"
proof (induction rule: close_reachable.induct)
  case init
  show ?case by (simp add: conserved_init)
next
  case (step p q)
  from step.hyps(2) step.IH show ?case
  proof (cases rule: close_step.cases)
    case (running s t)
    with step.IH have cs: "conserved s" by simp
    from running(3) cs have "conserved t"
      by (cases rule: lossy_step.cases) (auto intro: conserved_step conserved_lost)
    with running show ?thesis by simp
  next
    case (close s)
    with step.IH have "conserved (release_all s)"
      by (simp add: conserved_release_all)
    moreover have "pool_idle (release_all s)"
      by (simp add: pool_idle_def release_all_def)
    ultimately show ?thesis
      using close by simp
  next
    case (closed s t)
    with step.IH show ?thesis
      by (auto intro: conserved_step idle_step)
  qed
qed

text \<open>
  After \<open>Close\<close> every step keeps the pub/sub closed and idle, the application receives no
  message and answers none, and every published message is still held by the broker,
  acknowledged or dropped, exactly once.
\<close>

lemma close_drains:
  assumes "close_reachable cfg n (True, s)" and "close_step cfg n (True, s) (c, t)"
  shows "c \<and> pool_idle t \<and> br_deliveries t = br_deliveries s \<and> br_acked t = br_acked s \<and>
         br_dropped t = br_dropped s \<and>
         count (mset (live_list t @ br_acked t @ br_dropped t)) m =
           (if m \<in> set (map fst (br_published t)) then 1 else 0)"
proof -
  from close_reachable_invs [OF assms(1)] have idle: "pool_idle s" by simp
  from assms(2) have c: "c" and st: "broker_step cfg 0 s t"
    by (cases rule: close_step.cases; simp)+
  have "close_reachable cfg n (c, t)"
    using assms by (rule close_reachable.step)
  then have "conserved t"
    using close_reachable_invs by fastforce
  then have "count (mset (live_list t @ br_acked t @ br_dropped t)) m =
               (if m \<in> set (map fst (br_published t)) then 1 else 0)"
    by (rule conserved_accounted_once)
  moreover have "pool_idle t"
    using st idle by (rule idle_step)
  moreover have "br_deliveries t = br_deliveries s \<and> br_acked t = br_acked s \<and> br_dropped t = br_dropped s"
    using st idle by (rule idle_step_frozen)
  ultimately show ?thesis
    using c by simp
qed

end
