(* ===== verification/LogTests.thy ===== *)
theory LogTests
  imports Orb_Prelude "HOL-Library.AList" "HOL-Library.List_Lexorder" "HOL-Library.Char_ord"
begin

text \<open>
  The structured-logging test file (\<open>src/unnamed/part_000\<close>, package \<open>log\<close>). Its
  tests log a message with field helpers, decode the logger's JSON output into the
  struct \<open>logData\<close> with \<open>json.Unmarshal\<close> (\<open>unmarshalLogData\<close>) and compare fields. The
  theory holds \<open>mockObject\<close>, the struct \<open>logData\<close> as the list of its fields (Go name,
  JSON tag and Go type, in declaration order), a decoded JSON document, and the decoding of
  \<open>encoding/json\<close> into those types: the key of a member selects the field whose tag
  equals it, else a field whose tag equals it up to case, among the fields whose tag no
  other field carries; \<open>null\<close> resets pointers, slices
  and maps and leaves strings and integers unchanged; a value of the wrong JSON type is an
  error; objects are decoded into the pointee or map that is already there, arrays into the
  elements already there. The lemmas show that the tags are distinct even up to case, and
  that decoding inverts \<open>json.Marshal\<close> of the struct.
\<close>

subsection \<open>The test's types\<close>

record mock_object =
  mo_field1 :: string
  mo_field2 :: int

datatype go_field_type = TString | TInt | TStrings | TMockPtr | THeaders | TMockPtrs

text \<open>\<open>logData\<close>: Go field name, JSON tag and Go type of each field, in declaration order.\<close>

definition log_data_fields :: "(string \<times> string \<times> go_field_type) list" where
  "log_data_fields =
    [(''Level'', ''level'', TString),
     (''Time'', ''time'', TString),
     (''Logger'', ''logger'', TString),
     (''Caller'', ''caller'', TString),
     (''Msg'', ''msg'', TString),
     (''Error'', ''error'', TString),
     (''MessageID'', ''message-id'', TString),
     (''Data'', ''data'', TString),
     (''ActorID'', ''actor-id'', TString),
     (''ActivityID'', ''activity-id'', TString),
     (''ActivityType'', ''activity-type'', TString),
     (''ServiceIri'', ''service-iri'', TString),
     (''Service'', ''service'', TString),
     (''ServiceEndpoint'', ''service-endpoint'', TString),
     (''Size'', ''size'', TInt),
     (''CacheExpiration'', ''cache-expiration'', TString),
     (''Target'', ''target'', TString),
     (''Topic'', ''topic'', TString),
     (''HTTPStatus'', ''http-status'', TInt),
     (''Parameter'', ''parameter'', TString),
     (''ReferenceType'', ''reference-type'', TString),
     (''URI'', ''uri'', TString),
     (''URIs'', ''uris'', TStrings),
     (''Sender'', ''sender'', TString),
     (''AnchorURI'', ''anchor-uri'', TString),
     (''AnchorEventURI'', ''anchor-event-uri'', TString),
     (''Config'', ''config'', TMockPtr),
     (''AcceptListType'', ''accept-list-type'', TString),
     (''Additions'', ''additions'', TStrings),
     (''Deletions'', ''deletions'', TStrings),
     (''RequestURL'', ''request-url'', TString),
     (''RequestHeaders'', ''request-headers'', THeaders),
     (''RequestBody'', ''request-body'', TString),
     (''Response'', ''response'', TString),
     (''ObjectIRI'', ''object-iri'', TString),
     (''Reference'', ''reference'', TString),
     (''KeyID'', ''key-id'', TString),
     (''KeyOwnerID'', ''key-owner'', TString),
     (''KeyType'', ''key-type'', TString),
     (''Current'', ''current'', TString),
     (''Next'', ''next'', TString),
     (''Total'', ''total'', TInt),
     (''Minimum'', ''minimum'', TInt),
     (''Type'', ''type'', TString),
     (''Query'', ''query'', TMockPtr),
     (''AnchorHash'', ''anchor-hash'', TString),
     (''Suffix'', ''suffix'', TString),
     (''VerifiableCredential'', ''vc'', TString),
     (''VerifiableCredentialID'', ''vc-id'', TString),
     (''Hashlink'', ''hashlink'', TString),
     (''Parent'', ''parent'', TString),
     (''Parents'', ''parents'', TStrings),
     (''Proof'', ''proof'', TString),
     (''CreatedTime'', ''created-time'', TString),
     (''WitnessURI'', ''witness-uri'', TString),
     (''WitnessURIs'', ''witness-uris'', TStrings),
     (''WitnessPolicy'', ''witness-policy'', TString),
     (''AnchorOrigin'', ''anchor-origin'', TString),
     (''OperationType'', ''operation-type'', TString),
     (''CoreIndex'', ''core-index'', TString),
     (''Hash'', ''hash'', TString),
     (''AnchorOriginEndpoint'', ''anchor-origin-endpoint'', TMockPtr),
     (''Key'', ''key'', TString),
     (''CID'', ''cid'', TString),
     (''ResolvedCID'', ''resolved-cid'', TString),
     (''AnchorCID'', ''anchor-cid'', TString),
     (''CIDVersion'', ''cid-version'', TInt),
     (''Multihash'', ''multihash'', TString),
     (''CASData'', ''cas-data'', TString),
     (''Domain'', ''domain'', TString),
     (''Link'', ''link'', TString),
     (''Links'', ''links'', TStrings),
     (''TaskMgrInstanceID'', ''task-mgr-instance'', TString),
     (''Retries'', ''retries'', TInt),
     (''MaxRetries'', ''max-retries'', TInt),
     (''SubscriberPoolSize'', ''subscriber-pool-size'', TInt),
     (''TaskMonitorInterval'', ''task-monitor-interval'', TString),
     (''TaskExpiration'', ''task-expiration'', TString),
     (''DeliveryDelay'', ''delivery-delay'', TString),
     (''OperationID'', ''operation-id'', TString),
     (''PermitHolder'', ''permit-holder'', TString),
     (''TimeSinceLastUpdate'', ''time-since-last-update'', TString),
     (''GenesisTime'', ''genesis-time'', TInt),
     (''DID'', ''did'', TString),
     (''HRef'', ''href'', TString),
     (''ID'', ''id'', TString),
     (''Resource'', ''resource'', TString),
     (''ResolutionResult'', ''resolution-result'', TMockPtr),
     (''ResolutionModel'', ''resolution-model'', TMockPtr),
     (''ResolutionEndpoints'', ''resolution-endpoints'', TStrings),
     (''Metadata'', ''metadata'', TMockPtr),
     (''SidetreeProtocol'', ''sidetree-protocol'', TMockPtr),
     (''OriginActorID'', ''origin-actor-id'', TString),
     (''Targets'', ''targets'', TStrings),
     (''HTTPMethod'', ''http-method'', TString),
     (''Suffixes'', ''suffixes'', TStrings),
     (''LocalHashlink'', ''local-hashlink'', TString),
     (''AuthToken'', ''auth-token'', TString),
     (''AuthTokens'', ''auth-tokens'', TStrings),
     (''Address'', ''address'', TString),
     (''AttributedTo'', ''attributed-to'', TString),
     (''AnchorLinkset'', ''anchor-linkset'', TString),
     (''Version'', ''version'', TString),
     (''MaxSize'', ''max-size'', TInt),
     (''Parameters'', ''parameters'', TMockPtr),
     (''URL'', ''url'', TString),
     (''AnchorURIs'', ''anchor-uris'', TStrings),
     (''Operation'', ''operation'', TMockPtr),
     (''Value'', ''value'', TString),
     (''TaskID'', ''task-id'', TString),
     (''SidetreeTxn'', ''sidetree-txn'', TMockPtr),
     (''AnchorLink'', ''anchor-link'', TString),
     (''DeliveryAttempts'', ''delivery-attempts'', TInt),
     (''Property'', ''property'', TString),
     (''StoreName'', ''store-name'', TString),
     (''Issuer'', ''issuer'', TString),
     (''Status'', ''status'', TString),
     (''LogURL'', ''log-url'', TString),
     (''Namespace'', ''namespace'', TString),
     (''CanonicalRef'', ''canonical-ref'', TString),
     (''AnchorString'', ''anchor-string'', TString),
     (''JRD'', ''jrd'', TMockPtr),
     (''Backoff'', ''backoff'', TString),
     (''Timeout'', ''timeout'', TString),
     (''LogMonitor'', ''log-monitor'', TMockPtr),
     (''LogMonitors'', ''log-monitors'', TMockPtrs),
     (''MaxTime'', ''max-time'', TString),
     (''Index'', ''index'', TInt),
     (''FromIndex'', ''from-index'', TInt),
     (''ToIndex'', ''to-index'', TInt),
     (''Source'', ''source'', TString),
     (''Age'', ''age'', TString),
     (''MinAge'', ''min-age'', TString)]"

definition field_tag :: "string \<times> string \<times> go_field_type \<Rightarrow> string" where
  "field_tag f = fst (snd f)"

subsection \<open>JSON documents and Go values\<close>

text \<open>A JSON document as \<open>encoding/json\<close> reads it; numbers are integers.\<close>

datatype jvalue = JNull | JBool bool | JNum int | JStr string | JArr "jvalue list"
  | JObj "(string \<times> jvalue) list"

text \<open>
  The value of a field of \<open>logData\<close>: \<open>None\<close> is Go's \<open>nil\<close> of a slice, pointer or map;
  a map is an association list with distinct keys.
\<close>

datatype go_value = GString string | GInt int | GStrings "string list option"
  | GMock "mock_object option" | GHeaders "(string \<times> string list option) list option"
  | GMocks "mock_object option list option"

fun zero_value :: "go_field_type \<Rightarrow> go_value" where
  "zero_value TString = GString ''''"
| "zero_value TInt = GInt 0"
| "zero_value TStrings = GStrings None"
| "zero_value TMockPtr = GMock None"
| "zero_value THeaders = GHeaders None"
| "zero_value TMockPtrs = GMocks None"

definition zero_mock :: mock_object where
  "zero_mock = \<lparr>mo_field1 = '''', mo_field2 = 0\<rparr>"


definition int64_range :: "int \<Rightarrow> bool" where
  "int64_range i \<longleftrightarrow> - (2 ^ 63) \<le> i \<and> i < 2 ^ 63"

subsection \<open>Decoding with \<open>encoding/json\<close>\<close>

fun jkind :: "jvalue \<Rightarrow> string" where
  "jkind JNull = ''null''"
| "jkind (JBool _) = ''bool''"
| "jkind (JNum _) = ''number''"
| "jkind (JStr _) = ''string''"
| "jkind (JArr _) = ''array''"
| "jkind (JObj _) = ''object''"

text \<open>The \<open>UnmarshalTypeError\<close> for a value of the wrong JSON type at field path \<open>fld\<close>.\<close>

definition type_error :: "jvalue \<Rightarrow> string \<Rightarrow> string \<Rightarrow> go_error" where
  "type_error v fld ty =
     Err (''json: cannot unmarshal '' @ jkind v @ '' into Go struct field logData.'' @ fld @
          '' of type '' @ ty)"

text \<open>Keys match tags exactly or up to (ASCII) case.\<close>

definition ascii_lower :: "char \<Rightarrow> char" where
  "ascii_lower c = (let n = of_char c :: nat in if 65 \<le> n \<and> n \<le> 90 then char_of (n + 32) else c)"

definition fold_eq :: "string \<Rightarrow> string \<Rightarrow> bool" where
  "fold_eq s t \<longleftrightarrow> map ascii_lower s = map ascii_lower t"

fun index_where :: "('a \<Rightarrow> bool) \<Rightarrow> 'a list \<Rightarrow> nat option" where
  "index_where P [] = None"
| "index_where P (x # xs) = (if P x then Some 0 else map_option Suc (index_where P xs))"

text \<open>
  A field is visible to the decoder when no other field of the struct has its tag:
  \<open>encoding/json\<close> drops every field of a tag that several fields at the same depth carry.
\<close>

definition tag_unique :: "(string \<times> string \<times> go_field_type) list \<Rightarrow> string \<times> string \<times> go_field_type \<Rightarrow> bool" where
  "tag_unique fs f \<longleftrightarrow> length (filter (\<lambda>g. field_tag g = field_tag f) fs) = 1"

text \<open>The field a key selects: the visible field with that tag, else the first visible one whose tag folds to it.\<close>

definition lookup_field :: "(string \<times> string \<times> go_field_type) list \<Rightarrow> string \<Rightarrow> nat option" where
  "lookup_field fs k =
     (case index_where (\<lambda>f. tag_unique fs f \<and> field_tag f = k) fs of
        Some i \<Rightarrow> Some i
      | None \<Rightarrow> index_where (\<lambda>f. tag_unique fs f \<and> fold_eq (field_tag f) k) fs)"

fun decode_string :: "string \<Rightarrow> string \<Rightarrow> jvalue \<Rightarrow> go_error + string" where
  "decode_string fld old JNull = Inr old"
| "decode_string fld old (JStr s) = Inr s"
| "decode_string fld old v = Inl (type_error v fld ''string'')"

fun decode_int :: "string \<Rightarrow> int \<Rightarrow> jvalue \<Rightarrow> go_error + int" where
  "decode_int fld old JNull = Inr old"
| "decode_int fld old (JNum i) = (if int64_range i then Inr i else Inl (type_error (JNum i) fld ''int''))"
| "decode_int fld old v = Inl (type_error v fld ''int'')"

text \<open>An array is decoded element by element into the elements already in the slice.\<close>

fun decode_str_elems :: "string \<Rightarrow> string list \<Rightarrow> jvalue list \<Rightarrow> go_error + string list" where
  "decode_str_elems fld olds [] = Inr []"
| "decode_str_elems fld olds (v # vs) =
     (case decode_string fld (if olds = [] then '''' else hd olds) v of
        Inl e \<Rightarrow> Inl e
      | Inr x \<Rightarrow> (case decode_str_elems fld (tl olds) vs of Inl e \<Rightarrow> Inl e | Inr xs \<Rightarrow> Inr (x # xs)))"

fun decode_strings :: "string \<Rightarrow> string list option \<Rightarrow> jvalue \<Rightarrow> go_error + string list option" where
  "decode_strings fld old JNull = Inr None"
| "decode_strings fld old (JArr vs) =
     (case decode_str_elems fld (case old of None \<Rightarrow> [] | Some xs \<Rightarrow> xs) vs of
        Inl e \<Rightarrow> Inl e
      | Inr xs \<Rightarrow> Inr (Some xs))"
| "decode_strings fld old v = Inl (type_error v fld ''[]string'')"

text \<open>The members of an object decoded into a \<open>mockObject\<close> (fields without tags).\<close>

fun decode_mock_members ::
  "string \<Rightarrow> mock_object \<Rightarrow> (string \<times> jvalue) list \<Rightarrow> go_error + mock_object" where
  "decode_mock_members fld ob [] = Inr ob"
| "decode_mock_members fld ob ((k, v) # ms) =
     (if fold_eq k ''Field1'' then
        (case decode_string (fld @ ''.Field1'') (mo_field1 ob) v of
           Inl e \<Rightarrow> Inl e
         | Inr x \<Rightarrow> decode_mock_members fld (ob\<lparr>mo_field1 := x\<rparr>) ms)
      else if fold_eq k ''Field2'' then
        (case decode_int (fld @ ''.Field2'') (mo_field2 ob) v of
           Inl e \<Rightarrow> Inl e
         | Inr x \<Rightarrow> decode_mock_members fld (ob\<lparr>mo_field2 := x\<rparr>) ms)
      else decode_mock_members fld ob ms)"

fun decode_mock :: "string \<Rightarrow> mock_object option \<Rightarrow> jvalue \<Rightarrow> go_error + mock_object option" where
  "decode_mock fld old JNull = Inr None"
| "decode_mock fld old (JObj ms) =
     (case decode_mock_members fld (case old of None \<Rightarrow> zero_mock | Some ob \<Rightarrow> ob) ms of
        Inl e \<Rightarrow> Inl e
      | Inr ob \<Rightarrow> Inr (Some ob))"
| "decode_mock fld old v = Inl (type_error v fld ''log.mockObject'')"

fun decode_mock_elems ::
  "string \<Rightarrow> mock_object option list \<Rightarrow> jvalue list \<Rightarrow> go_error + mock_object option list" where
  "decode_mock_elems fld olds [] = Inr []"
| "decode_mock_elems fld olds (v # vs) =
     (case decode_mock fld (if olds = [] then None else hd olds) v of
        Inl e \<Rightarrow> Inl e
      | Inr x \<Rightarrow> (case decode_mock_elems fld (tl olds) vs of Inl e \<Rightarrow> Inl e | Inr xs \<Rightarrow> Inr (x # xs)))"

fun decode_mocks ::
  "string \<Rightarrow> mock_object option list option \<Rightarrow> jvalue \<Rightarrow> go_error + mock_object option list option" where
  "decode_mocks fld old JNull = Inr None"
| "decode_mocks fld old (JArr vs) =
     (case decode_mock_elems fld (case old of None \<Rightarrow> [] | Some xs \<Rightarrow> xs) vs of
        Inl e \<Rightarrow> Inl e
      | Inr xs \<Rightarrow> Inr (Some xs))"
| "decode_mocks fld old v = Inl (type_error v fld ''[]*log.mockObject'')"

text \<open>Each member of an object decoded into a map sets the key to a freshly decoded value.\<close>

fun decode_header_members ::
  "string \<Rightarrow> (string \<times> string list option) list \<Rightarrow> (string \<times> jvalue) list \<Rightarrow>
   go_error + (string \<times> string list option) list" where
  "decode_header_members fld m [] = Inr m"
| "decode_header_members fld m ((k, v) # ms) =
     (case decode_strings fld None v of
        Inl e \<Rightarrow> Inl e
      | Inr xs \<Rightarrow> decode_header_members fld (AList.update k xs m) ms)"

fun decode_headers ::
  "string \<Rightarrow> (string \<times> string list option) list option \<Rightarrow> jvalue \<Rightarrow>
   go_error + (string \<times> string list option) list option" where
  "decode_headers fld old JNull = Inr None"
| "decode_headers fld old (JObj ms) =
     (case decode_header_members fld (case old of None \<Rightarrow> [] | Some m \<Rightarrow> m) ms of
        Inl e \<Rightarrow> Inl e
      | Inr m \<Rightarrow> Inr (Some m))"
| "decode_headers fld old v = Inl (type_error v fld ''map[string][]string'')"

text \<open>A member decoded into a field, by the field's Go type.\<close>

fun decode_value :: "string \<Rightarrow> go_value \<Rightarrow> jvalue \<Rightarrow> go_error + go_value" where
  "decode_value fld (GString s) v = (case decode_string fld s v of Inl e \<Rightarrow> Inl e | Inr x \<Rightarrow> Inr (GString x))"
| "decode_value fld (GInt i) v = (case decode_int fld i v of Inl e \<Rightarrow> Inl e | Inr x \<Rightarrow> Inr (GInt x))"
| "decode_value fld (GStrings xs) v = (case decode_strings fld xs v of Inl e \<Rightarrow> Inl e | Inr x \<Rightarrow> Inr (GStrings x))"
| "decode_value fld (GMock ob) v = (case decode_mock fld ob v of Inl e \<Rightarrow> Inl e | Inr x \<Rightarrow> Inr (GMock x))"
| "decode_value fld (GHeaders m) v = (case decode_headers fld m v of Inl e \<Rightarrow> Inl e | Inr x \<Rightarrow> Inr (GHeaders x))"
| "decode_value fld (GMocks xs) v = (case decode_mocks fld xs v of Inl e \<Rightarrow> Inl e | Inr x \<Rightarrow> Inr (GMocks x))"

text \<open>The members of an object decoded into a struct with fields \<open>fs\<close>; unknown keys are skipped.\<close>

fun unmarshal_struct ::
  "(string \<times> string \<times> go_field_type) list \<Rightarrow> go_value list \<Rightarrow> (string \<times> jvalue) list \<Rightarrow>
   go_error + go_value list" where
  "unmarshal_struct fs d [] = Inr d"
| "unmarshal_struct fs d ((k, v) # ms) =
     (case lookup_field fs k of
        None \<Rightarrow> unmarshal_struct fs d ms
      | Some i \<Rightarrow> (case decode_value (field_tag (fs ! i)) (d ! i) v of
                    Inl e \<Rightarrow> Inl e
                  | Inr x \<Rightarrow> unmarshal_struct fs (d[i := x]) ms))"

definition zero_struct :: "(string \<times> string \<times> go_field_type) list \<Rightarrow> go_value list" where
  "zero_struct fs = map (\<lambda>f. zero_value (snd (snd f))) fs"

text \<open>\<open>unmarshalLogData\<close>: \<open>json.Unmarshal\<close> into a fresh \<open>logData\<close>; the test fails on an error.\<close>

definition unmarshal_log_data :: "jvalue \<Rightarrow> go_error + go_value list" where
  "unmarshal_log_data v =
     (case v of
        JObj ms \<Rightarrow> unmarshal_struct log_data_fields (zero_struct log_data_fields) ms
      | JNull \<Rightarrow> Inr (zero_struct log_data_fields)
      | _ \<Rightarrow> Inl (Err (''json: cannot unmarshal '' @ jkind v @ '' into Go value of type log.logData'')))"

subsection \<open>Encoding with \<open>json.Marshal\<close>\<close>

fun encode_strings :: "string list option \<Rightarrow> jvalue" where
  "encode_strings None = JNull"
| "encode_strings (Some xs) = JArr (map JStr xs)"

fun encode_mock :: "mock_object option \<Rightarrow> jvalue" where
  "encode_mock None = JNull"
| "encode_mock (Some ob) = JObj [(''Field1'', JStr (mo_field1 ob)), (''Field2'', JNum (mo_field2 ob))]"

text \<open>Maps are written with their keys sorted.\<close>

fun encode_value :: "go_value \<Rightarrow> jvalue" where
  "encode_value (GString s) = JStr s"
| "encode_value (GInt i) = JNum i"
| "encode_value (GStrings xs) = encode_strings xs"
| "encode_value (GMock ob) = encode_mock ob"
| "encode_value (GHeaders None) = JNull"
| "encode_value (GHeaders (Some m)) = JObj (map (\<lambda>kv. (fst kv, encode_strings (snd kv))) (sort_key fst m))"
| "encode_value (GMocks None) = JNull"
| "encode_value (GMocks (Some xs)) = JArr (map encode_mock xs)"

definition marshal_struct :: "(string \<times> string \<times> go_field_type) list \<Rightarrow> go_value list \<Rightarrow> jvalue" where
  "marshal_struct fs d = JObj (map (\<lambda>(f, v). (field_tag f, encode_value v)) (zip fs d))"

text \<open>A value fits a field's type; Go's \<open>int\<close> has 64 bits; a map has distinct, sorted keys.\<close>

fun value_fits :: "go_field_type \<Rightarrow> go_value \<Rightarrow> bool" where
  "value_fits TString (GString _) = True"
| "value_fits TInt (GInt i) = int64_range i"
| "value_fits TStrings (GStrings _) = True"
| "value_fits TMockPtr (GMock ob) = (\<forall>x \<in> set_option ob. int64_range (mo_field2 x))"
| "value_fits THeaders (GHeaders m) =
     (\<forall>kvs \<in> set_option m. distinct (map fst kvs) \<and> sorted (map fst kvs))"
| "value_fits TMockPtrs (GMocks xs) =
     (\<forall>ys \<in> set_option xs. \<forall>y \<in> set ys. \<forall>x \<in> set_option y. int64_range (mo_field2 x))"
| "value_fits _ _ = False"

definition struct_fits :: "(string \<times> string \<times> go_field_type) list \<Rightarrow> go_value list \<Rightarrow> bool" where
  "struct_fits fs d \<longleftrightarrow> list_all2 (\<lambda>f v. value_fits (snd (snd f)) v) fs d"


subsection \<open>The tests' fixtures\<close>

definition log_module :: string where
  "log_module = ''test_module''"

text \<open>\<open>u1\<close>, \<open>u2\<close>, \<open>u3\<close> and \<open>hl\<close> as their \<open>String()\<close>.\<close>

definition log_u1 :: string where "log_u1 = ''https://example1.com''"

definition log_u2 :: string where "log_u2 = ''https://example2.com''"

definition log_u3 :: string where "log_u3 = ''https://example3.com''"

definition log_hl :: string where "log_hl = ''hl:1234''"

definition mock_query :: mock_object where
  "mock_query = \<lparr>mo_field1 = ''value1'', mo_field2 = 1234\<rparr>"

definition mock_cfg :: mock_object where
  "mock_cfg = \<lparr>mo_field1 = ''value1'', mo_field2 = 1234\<rparr>"

definition mock_aoep :: mock_object where
  "mock_aoep = \<lparr>mo_field1 = ''value11'', mo_field2 = 999\<rparr>"

definition mock_rr :: mock_object where
  "mock_rr = \<lparr>mo_field1 = ''value22'', mo_field2 = 777\<rparr>"

definition mock_rm :: mock_object where
  "mock_rm = \<lparr>mo_field1 = ''value33'', mo_field2 = 888\<rparr>"

definition mock_metadata :: mock_object where
  "mock_metadata = \<lparr>mo_field1 = ''meta1'', mo_field2 = 7676\<rparr>"

definition mock_protocol :: mock_object where
  "mock_protocol = \<lparr>mo_field1 = ''proto1'', mo_field2 = 2314\<rparr>"

definition mock_params :: mock_object where
  "mock_params = \<lparr>mo_field1 = ''param1'', mo_field2 = 4612\<rparr>"

definition mock_op :: mock_object where
  "mock_op = \<lparr>mo_field1 = ''op1'', mo_field2 = 9486\<rparr>"

definition mock_txn :: mock_object where
  "mock_txn = \<lparr>mo_field1 = ''txn1'', mo_field2 = 5967\<rparr>"

definition mock_jrd :: mock_object where
  "mock_jrd = \<lparr>mo_field1 = ''jrd1'', mo_field2 = 2312\<rparr>"

definition mock_log_monitor :: mock_object where
  "mock_log_monitor = \<lparr>mo_field1 = ''mon1'', mo_field2 = 6732\<rparr>"

definition json_error_assertions :: "(string \<times> go_value) list" where
  "json_error_assertions =
    [(''Service'', GString ''myservice''),
     (''Logger'', GString ''test_module''),
     (''Msg'', GString ''Sample error''),
     (''Error'', GString ''some error''),
     (''Level'', GString ''error'')]"

definition json_fields1_assertions :: "(string \<times> go_value) list" where
  "json_fields1_assertions =
    [(''Msg'', GString ''Some message''),
     (''MessageID'', GString ''msg1''),
     (''Data'', GString ''{\"field\":\"value\"}''),
     (''ActorID'', GString log_u1),
     (''ActivityID'', GString log_u2),
     (''ActivityType'', GString ''Create''),
     (''Service'', GString ''service1''),
     (''ServiceEndpoint'', GString ''/services/service1''),
     (''ServiceIri'', GString log_u2),
     (''Size'', GInt 1234),
     (''CacheExpiration'', GString ''12s''),
     (''Target'', GString log_u1),
     (''Topic'', GString ''queue1''),
     (''HTTPStatus'', GInt 404),
     (''Parameter'', GString ''param1''),
     (''ReferenceType'', GString ''followers''),
     (''URI'', GString log_u2),
     (''URIs'', GStrings (Some [log_u1, log_u2])),
     (''AnchorURI'', GString log_u3),
     (''AnchorEventURI'', GString log_u3),
     (''AcceptListType'', GString ''follow''),
     (''Additions'', GStrings (Some [log_u1, log_u3])),
     (''Deletions'', GStrings (Some [log_u1])),
     (''RequestURL'', GString log_u1),
     (''RequestBody'', GString ''request body''),
     (''Response'', GString ''response body''),
     (''RequestHeaders'', GHeaders (Some [(''key1'', Some [''v1'', ''v2'']), (''key2'', Some [''v3''])])),
     (''ObjectIRI'', GString log_u1),
     (''Reference'', GString log_u2),
     (''KeyID'', GString log_u1),
     (''KeyOwnerID'', GString log_u2),
     (''KeyType'', GString ''ed25519''),
     (''Current'', GString log_u1),
     (''Next'', GString log_u2),
     (''Total'', GInt 12),
     (''Minimum'', GInt 2),
     (''Type'', GString ''type1''),
     (''Query'', GMock (Some mock_query)),
     (''AnchorHash'', GString ''sfsfsdfsd''),
     (''Suffix'', GString ''1234''),
     (''Hashlink'', GString log_hl),
     (''VerifiableCredential'', GString ''{\"id\":\"https://example.com/vc1\"}''),
     (''VerifiableCredentialID'', GString ''https://example.com/vc1''),
     (''Parent'', GString ''parent1''),
     (''Parents'', GStrings (Some [''parent1'', ''parent2''])),
     (''Proof'', GString ''{\"id\":\"https://example.com/proof1\"}''),
     (''WitnessURI'', GString log_u1),
     (''WitnessURIs'', GStrings (Some [log_u1, log_u2])),
     (''WitnessPolicy'', GString ''some policy''),
     (''AnchorOrigin'', GString log_u1),
     (''OperationType'', GString ''Create''),
     (''CoreIndex'', GString ''1234'')]"

definition json_fields2_assertions :: "(string \<times> go_value) list" where
  "json_fields2_assertions =
    [(''Msg'', GString ''Some message''),
     (''ActorID'', GString log_u1),
     (''Target'', GString log_u2),
     (''Config'', GMock (Some mock_cfg)),
     (''RequestURL'', GString log_u1),
     (''KeyID'', GString ''key1''),
     (''URI'', GString log_u1),
     (''URI'', GString log_u1),
     (''AnchorEventURI'', GString log_u3),
     (''AnchorURI'', GString log_u3),
     (''Hashlink'', GString log_hl),
     (''Parent'', GString log_u1),
     (''Proof'', GString ''{\"id\":\"https://example.com/proof1\"}''),
     (''WitnessURI'', GString log_u1),
     (''WitnessURIs'', GStrings (Some [log_u1, log_u2])),
     (''Hash'', GString ''hash1''),
     (''AnchorOriginEndpoint'', GMock (Some mock_aoep)),
     (''Key'', GString ''key1''),
     (''CID'', GString ''cid1''),
     (''ResolvedCID'', GString ''cid2''),
     (''AnchorCID'', GString ''cid3''),
     (''CIDVersion'', GInt 1),
     (''Multihash'', GString ''fsdfervs''),
     (''Domain'', GString log_u1),
     (''Link'', GString log_u2),
     (''Links'', GStrings (Some [log_u1, log_u2])),
     (''TaskMgrInstanceID'', GString ''12345''),
     (''Retries'', GInt 7),
     (''MaxRetries'', GInt 12),
     (''SubscriberPoolSize'', GInt 30),
     (''TaskMonitorInterval'', GString ''5s''),
     (''TaskExpiration'', GString ''10s''),
     (''DeliveryDelay'', GString ''3s''),
     (''OperationID'', GString ''op1''),
     (''PermitHolder'', GString ''123''),
     (''TimeSinceLastUpdate'', GString ''2m0s''),
     (''GenesisTime'', GInt 1233),
     (''DID'', GString ''did:orb:123:456''),
     (''HRef'', GString log_u3),
     (''ID'', GString ''id1''),
     (''Resource'', GString ''res1''),
     (''ResolutionResult'', GMock (Some mock_rr)),
     (''ResolutionModel'', GMock (Some mock_rm)),
     (''ResolutionEndpoints'', GStrings (Some [log_u1, log_u2, log_u3]))]"

definition json_fields3_assertions :: "(string \<times> go_value) list" where
  "json_fields3_assertions =
    [(''Metadata'', GMock (Some mock_metadata)),
     (''SidetreeProtocol'', GMock (Some mock_protocol)),
     (''OriginActorID'', GString log_u2),
     (''Targets'', GStrings (Some [log_u2, log_u3])),
     (''HTTPMethod'', GString ''POST''),
     (''Suffixes'', GStrings (Some [''suffix1'', ''suffix2''])),
     (''LocalHashlink'', GString log_hl),
     (''AuthToken'', GString ''token1''),
     (''AuthTokens'', GStrings (Some [''token1'', ''token2''])),
     (''Address'', GString log_u1),
     (''AttributedTo'', GString log_u2),
     (''AnchorLinkset'', GString ''\"linkset\":\"{}\"''),
     (''Version'', GString ''v1''),
     (''Size'', GInt 10),
     (''MaxSize'', GInt 20),
     (''Parameters'', GMock (Some mock_params)),
     (''URL'', GString log_u1),
     (''AnchorURIs'', GStrings (Some [log_u1, log_u2])),
     (''Operation'', GMock (Some mock_op)),
     (''Value'', GString ''value1''),
     (''TaskID'', GString ''task1''),
     (''SidetreeTxn'', GMock (Some mock_txn)),
     (''AnchorLink'', GString ''{\"link\":\"{}\"}''),
     (''DeliveryAttempts'', GInt 37),
     (''Property'', GString ''prop1''),
     (''StoreName'', GString ''store1''),
     (''Issuer'', GString ''issuer1''),
     (''Status'', GString ''status1''),
     (''LogURL'', GString log_u3),
     (''Namespace'', GString ''ns1''),
     (''CanonicalRef'', GString ''ref1''),
     (''AnchorString'', GString ''anchor1''),
     (''JRD'', GMock (Some mock_jrd)),
     (''Backoff'', GString ''5s''),
     (''Timeout'', GString ''2m0s''),
     (''LogMonitor'', GMock (Some mock_log_monitor)),
     (''LogMonitors'', GMocks (Some [Some mock_log_monitor, Some mock_log_monitor])),
     (''MaxTime'', GString ''1h0m0s''),
     (''Index'', GInt 3),
     (''FromIndex'', GInt 9),
     (''ToIndex'', GInt 13),
     (''Source'', GString ''inbox''),
     (''Age'', GString ''1m0s''),
     (''MinAge'', GString ''10m0s'')]"

definition json_fields4_assertions :: "(string \<times> go_value) list" where
  "json_fields4_assertions =
    [(''MaxSize'', GInt 30),
     (''URL'', GString log_u1),
     (''LogURL'', GString log_u3),
     (''Index'', GInt 7)]"

text \<open>
  The value of the \<open>logData\<close> field with Go name \<open>n\<close>, and the \<open>require.Equal\<close>
  assertions of a subtest, as pairs of a field name and the expected value.
\<close>

definition field_index :: "string \<Rightarrow> nat option" where
  "field_index n = index_where (\<lambda>f. fst f = n) log_data_fields"

definition field_value :: "go_value list \<Rightarrow> string \<Rightarrow> go_value option" where
  "field_value d n = map_option (\<lambda>i. d ! i) (field_index n)"

definition assertions_hold :: "(string \<times> go_value) list \<Rightarrow> go_value list \<Rightarrow> bool" where
  "assertions_hold as d \<longleftrightarrow> (\<forall>a \<in> set as. field_value d (fst a) = Some (snd a))"

definition assertions_consistent :: "(string \<times> go_value) list \<Rightarrow> bool" where
  "assertions_consistent as \<longleftrightarrow>
     (\<forall>a \<in> set as. case field_index (fst a) of
                     None \<Rightarrow> False
                   | Some i \<Rightarrow> value_fits (snd (snd (log_data_fields ! i))) (snd a)) \<and>
     distinct (map fst (remdups as))"

text \<open>The JSON line that carries exactly the asserted values under the fields' tags.\<close>

definition expected_output :: "(string \<times> go_value) list \<Rightarrow> jvalue" where
  "expected_output as =
     JObj (map (\<lambda>a. (case field_index (fst a) of
                        Some i \<Rightarrow> field_tag (log_data_fields ! i)
                      | None \<Rightarrow> fst a, encode_value (snd a))) (remdups as))"

subsection \<open>Lemmas\<close>

lemma index_where_cong:
  "(\<And>x. x \<in> set xs \<Longrightarrow> P x = Q x) \<Longrightarrow> index_where P xs = index_where Q xs"
  by (induction xs) auto

lemma distinct_filter_eq_one:
  "distinct (map h xs) \<Longrightarrow> x \<in> set xs \<Longrightarrow> length (filter (\<lambda>y. h y = h x) xs) = 1"
proof (induction xs)
  case (Cons a xs)
  show ?case
  proof (cases "a = x")
    case True
    with Cons.prems have "filter (\<lambda>y. h y = h x) xs = []"
      by (auto simp: filter_empty_conv) (metis imageI)
    with True show ?thesis by simp
  next
    case False
    with Cons have "h a \<noteq> h x" "length (filter (\<lambda>y. h y = h x) xs) = 1"
      by (auto simp: image_iff)
    then show ?thesis by simp
  qed
qed simp

text \<open>With pairwise distinct tags every field is visible.\<close>

lemma lookup_field_distinct:
  assumes "distinct (map field_tag fs)"
  shows "lookup_field fs k =
           (case index_where (\<lambda>f. field_tag f = k) fs of
              Some i \<Rightarrow> Some i
            | None \<Rightarrow> index_where (\<lambda>f. fold_eq (field_tag f) k) fs)"
proof -
  have u: "tag_unique fs f" if "f \<in> set fs" for f
    using distinct_filter_eq_one [OF assms that] by (simp add: tag_unique_def)
  have e1: "index_where (\<lambda>f. tag_unique fs f \<and> field_tag f = k) fs = index_where (\<lambda>f. field_tag f = k) fs"
    by (auto intro: index_where_cong dest: u)
  have e2: "index_where (\<lambda>f. tag_unique fs f \<and> fold_eq (field_tag f) k) fs = index_where (\<lambda>f. fold_eq (field_tag f) k) fs"
    by (auto intro: index_where_cong dest: u)
  show ?thesis
    unfolding lookup_field_def e1 e2 by (rule refl)
qed

lemma index_where_distinct:
  "distinct (map f xs) \<Longrightarrow> i < length xs \<Longrightarrow> index_where (\<lambda>x. f x = f (xs ! i)) xs = Some i"
proof (induction xs arbitrary: i)
  case (Cons x xs)
  then show ?case
    by (cases i) (auto simp: nth_mem image_iff)
qed simp

lemma lookup_field_tag:
  "distinct (map field_tag fs) \<Longrightarrow> i < length fs \<Longrightarrow> lookup_field fs (field_tag (fs ! i)) = Some i"
  by (simp add: lookup_field_distinct index_where_distinct)

lemma decode_str_elems_encode: "decode_str_elems fld [] (map JStr xs) = Inr xs"
  by (induction xs) simp_all

lemma decode_strings_encode: "decode_strings fld None (encode_strings xs) = Inr xs"
  by (cases xs) (simp_all add: decode_str_elems_encode)

lemma fold_eq_fields:
  "fold_eq ''Field1'' ''Field1''" "\<not> fold_eq ''Field2'' ''Field1''" "fold_eq ''Field2'' ''Field2''"
  by (simp_all add: fold_eq_def ascii_lower_def)

lemma decode_mock_encode:
  "\<forall>x \<in> set_option m. int64_range (mo_field2 x) \<Longrightarrow> decode_mock fld None (encode_mock m) = Inr m"
  by (cases m) (simp_all add: fold_eq_fields zero_mock_def)

lemma decode_mock_elems_encode:
  "\<forall>y \<in> set ys. \<forall>x \<in> set_option y. int64_range (mo_field2 x) \<Longrightarrow>
   decode_mock_elems fld [] (map encode_mock ys) = Inr ys"
  by (induction ys) (simp_all add: decode_mock_encode)

lemma update_fresh: "k \<notin> set (map fst m) \<Longrightarrow> AList.update k v m = m @ [(k, v)]"
  by (induction m) auto

lemma decode_header_members_encode:
  "distinct (map fst kvs) \<Longrightarrow> set (map fst kvs) \<inter> set (map fst acc) = {} \<Longrightarrow>
   decode_header_members fld acc (map (\<lambda>kv. (fst kv, encode_strings (snd kv))) kvs) = Inr (acc @ kvs)"
proof (induction kvs arbitrary: acc)
  case (Cons kv kvs)
  then show ?case
    by (cases kv) (simp add: decode_strings_encode update_fresh)
qed simp

lemma decode_headers_encode:
  "\<forall>kvs \<in> set_option m. distinct (map fst kvs) \<and> sorted (map fst kvs) \<Longrightarrow>
   decode_headers fld None (encode_value (GHeaders m)) = Inr m"
  by (cases m) (simp_all add: decode_header_members_encode [where acc = "[]", simplified]
                   sort_key_id_if_sorted)

lemma decode_mocks_encode:
  "\<forall>ys \<in> set_option xs. \<forall>y \<in> set ys. \<forall>x \<in> set_option y. int64_range (mo_field2 x) \<Longrightarrow>
   decode_mocks fld None (encode_value (GMocks xs)) = Inr xs"
  by (cases xs) (simp_all add: decode_mock_elems_encode)

lemma decode_value_encode:
  "value_fits ty v \<Longrightarrow> decode_value fld (zero_value ty) (encode_value v) = Inr v"
  by (cases ty; cases v)
     (simp_all add: decode_mock_encode decode_strings_encode decode_headers_encode decode_mocks_encode)

lemma update_take_drop:
  "j < length z \<Longrightarrow> length d = length z \<Longrightarrow>
   (take j d @ drop j z)[j := d ! j] = take (Suc j) d @ drop (Suc j) z"
  by (simp add: list_update_append take_Suc_conv_app_nth upd_conv_take_nth_drop Cons_nth_drop_Suc)

lemma unmarshal_struct_suffix:
  assumes "distinct (map field_tag fs)" and "struct_fits fs d" and "j \<le> length fs"
  shows "unmarshal_struct fs (take j d @ drop j (zero_struct fs))
           (drop j (map (\<lambda>(f, v). (field_tag f, encode_value v)) (zip fs d))) = Inr d"
  using assms(3)
proof (induction "length fs - j" arbitrary: j)
  case 0
  then have "j = length fs" by simp
  moreover have "length d = length fs"
    using assms(2) by (simp add: struct_fits_def list_all2_lengthD)
  ultimately show ?case by (simp add: zero_struct_def)
next
  case (Suc k)
  have len: "length d = length fs"
    using assms(2) by (simp add: struct_fits_def list_all2_lengthD)
  have j: "j < length fs" using Suc.hyps(2) by simp
  have fits: "value_fits (snd (snd (fs ! j))) (d ! j)"
    using assms(2) j by (simp add: struct_fits_def list_all2_conv_all_nth)
  have drop: "drop j (map (\<lambda>(f, v). (field_tag f, encode_value v)) (zip fs d)) =
      (field_tag (fs ! j), encode_value (d ! j)) #
      drop (Suc j) (map (\<lambda>(f, v). (field_tag f, encode_value v)) (zip fs d))"
    using j len by (simp add: Cons_nth_drop_Suc [symmetric])
  have at: "(take j d @ drop j (zero_struct fs)) ! j = zero_value (snd (snd (fs ! j)))"
    using j len by (simp add: nth_append zero_struct_def)
  have upd: "(take j d @ drop j (zero_struct fs))[j := d ! j] = take (Suc j) d @ drop (Suc j) (zero_struct fs)"
    using j len by (intro update_take_drop) (simp_all add: zero_struct_def)
  have IH: "unmarshal_struct fs (take (Suc j) d @ drop (Suc j) (zero_struct fs))
      (drop (Suc j) (map (\<lambda>(f, v). (field_tag f, encode_value v)) (zip fs d))) = Inr d"
    using Suc.hyps j by (intro Suc.hyps(1)) simp_all
  show ?case
    using IH by (simp add: drop lookup_field_tag [OF assms(1) j] at decode_value_encode [OF fits] upd)
qed

lemma unmarshal_struct_marshal:
  "distinct (map field_tag fs) \<Longrightarrow> struct_fits fs d \<Longrightarrow>
   unmarshal_struct fs (zero_struct fs) (map (\<lambda>(f, v). (field_tag f, encode_value v)) (zip fs d)) = Inr d"
  using unmarshal_struct_suffix [of fs d 0] by simp

lemma log_data_tags_lower:
  "map (\<lambda>f. map ascii_lower (field_tag f)) log_data_fields = map field_tag log_data_fields"
  by code_simp

lemma log_data_tags_distinct: "distinct (map field_tag log_data_fields)"
  by (simp add: log_data_fields_def field_tag_def)

lemma index_where_Some: "index_where P xs = Some i \<Longrightarrow> i < length xs \<and> P (xs ! i)"
proof (induction xs arbitrary: i)
  case (Cons x xs)
  then show ?case by (cases "P x") (auto split: if_splits)
qed simp

lemma field_index_Some:
  "field_index n = Some i \<Longrightarrow> i < length log_data_fields \<and> fst (log_data_fields ! i) = n"
  unfolding field_index_def by (rule index_where_Some)

lemma foldl_update_other:
  "j \<notin> set (map f as) \<Longrightarrow> foldl (\<lambda>d a. d[f a := g a]) d0 as ! j = d0 ! j"
  by (induction as arbitrary: d0) auto

lemma foldl_update_at:
  "distinct (map f as) \<Longrightarrow> \<forall>a \<in> set as. f a < length d0 \<Longrightarrow> a \<in> set as \<Longrightarrow>
   foldl (\<lambda>d a. d[f a := g a]) d0 as ! f a = g a"
proof (induction as arbitrary: d0)
  case (Cons b as)
  show ?case
  proof (cases "a = b")
    case True
    with Cons.prems(1) show ?thesis
      using Cons.prems(2) by (simp add: foldl_update_other)
  next
    case False
    with Cons show ?thesis by simp
  qed
qed simp

lemma length_foldl_update: "length (foldl (\<lambda>d a. d[f a := g a]) d0 as) = length d0"
  by (induction as arbitrary: d0) simp_all


lemma unmarshal_assertions:
  assumes "\<forall>a \<in> set as. \<exists>i. field_index (fst a) = Some i \<and>
             value_fits (snd (snd (log_data_fields ! i))) (snd a) \<and>
             d0 ! i = zero_value (snd (snd (log_data_fields ! i)))"
    and "distinct (map (\<lambda>a. the (field_index (fst a))) as)"
    and "length d0 = length log_data_fields"
  shows "unmarshal_struct log_data_fields d0
           (map (\<lambda>a. (case field_index (fst a) of
                          Some i \<Rightarrow> field_tag (log_data_fields ! i)
                        | None \<Rightarrow> fst a, encode_value (snd a))) as) =
         Inr (foldl (\<lambda>d a. d[the (field_index (fst a)) := snd a]) d0 as)"
  using assms
proof (induction as arbitrary: d0)
  case (Cons a as)
  from Cons.prems(1) obtain i where i: "field_index (fst a) = Some i"
    "value_fits (snd (snd (log_data_fields ! i))) (snd a)"
    "d0 ! i = zero_value (snd (snd (log_data_fields ! i)))"
    by auto
  have lt: "i < length log_data_fields"
    using field_index_Some [OF i(1)] by simp
  have rest: "\<forall>b \<in> set as. \<exists>j. field_index (fst b) = Some j \<and>
             value_fits (snd (snd (log_data_fields ! j))) (snd b) \<and>
             d0[i := snd a] ! j = zero_value (snd (snd (log_data_fields ! j)))"
  proof
    fix b assume b: "b \<in> set as"
    with Cons.prems(1) obtain j where j: "field_index (fst b) = Some j"
      "value_fits (snd (snd (log_data_fields ! j))) (snd b)"
      "d0 ! j = zero_value (snd (snd (log_data_fields ! j)))"
      by auto
    from Cons.prems(2) b i(1) j(1) have "j \<noteq> i"
      by (auto simp: image_iff)
    with j show "\<exists>j. field_index (fst b) = Some j \<and>
             value_fits (snd (snd (log_data_fields ! j))) (snd b) \<and>
             d0[i := snd a] ! j = zero_value (snd (snd (log_data_fields ! j)))"
      by auto
  qed
  have IH: "unmarshal_struct log_data_fields (d0[i := snd a])
           (map (\<lambda>a. (case field_index (fst a) of
                          Some i \<Rightarrow> field_tag (log_data_fields ! i)
                        | None \<Rightarrow> fst a, encode_value (snd a))) as) =
         Inr (foldl (\<lambda>d a. d[the (field_index (fst a)) := snd a]) (d0[i := snd a]) as)"
    using Cons.prems(2,3) rest by (intro Cons.IH) simp_all
  show ?case
    using IH i lt by (simp add: lookup_field_tag [OF log_data_tags_distinct lt] decode_value_encode)
qed simp


lemma assertions_decodable:
  assumes "assertions_consistent as"
  shows "\<exists>d. unmarshal_log_data (expected_output as) = Inr d \<and> assertions_hold as d"
proof -
  let ?rs = "remdups as" and ?ix = "\<lambda>a. the (field_index (fst a))"
  let ?d = "foldl (\<lambda>d a. d[?ix a := snd a]) (zero_struct log_data_fields) ?rs"
  have found: "\<forall>a \<in> set ?rs. \<exists>i. field_index (fst a) = Some i \<and>
             value_fits (snd (snd (log_data_fields ! i))) (snd a) \<and>
             zero_struct log_data_fields ! i = zero_value (snd (snd (log_data_fields ! i)))"
    using assms field_index_Some
    by (fastforce simp: assertions_consistent_def zero_struct_def split: option.splits)
  have names: "distinct (map fst ?rs)"
    using assms by (simp add: assertions_consistent_def)
  have fst_eq: "fst a = fst b" if a: "a \<in> set ?rs" and b: "b \<in> set ?rs" and eq: "?ix a = ?ix b" for a b
  proof -
    from found a b obtain i j where i: "field_index (fst a) = Some i" and j: "field_index (fst b) = Some j"
      by blast
    with eq have "i = j" by simp
    with field_index_Some [OF i] field_index_Some [OF j] show "fst a = fst b" by simp
  qed
  have fst_inj: "inj_on fst (set ?rs)"
    using names by (simp add: distinct_map)
  have inj: "inj_on ?ix (set ?rs)"
  proof (rule inj_onI)
    fix a b assume a: "a \<in> set ?rs" and b: "b \<in> set ?rs" and eq: "?ix a = ?ix b"
    from a b eq have "fst a = fst b" by (rule fst_eq)
    from fst_inj this a b show "a = b" by (rule inj_onD)
  qed
  have dist: "distinct (map ?ix ?rs)"
    using inj by (simp add: distinct_map)
  have lt: "\<forall>a \<in> set ?rs. ?ix a < length (zero_struct log_data_fields)"
    using found field_index_Some by (fastforce simp: zero_struct_def)
  have "unmarshal_log_data (expected_output as) = Inr ?d"
    using unmarshal_assertions [OF found dist] by (simp add: unmarshal_log_data_def expected_output_def zero_struct_def)
  moreover have "assertions_hold as ?d"
    unfolding assertions_hold_def
  proof
    fix a assume a: "a \<in> set as"
    then have ars: "a \<in> set ?rs" by simp
    with found obtain i where i: "field_index (fst a) = Some i" by blast
    have "?d ! ?ix a = snd a"
      using foldl_update_at [OF dist lt ars] .
    with i show "field_value ?d (fst a) = Some (snd a)"
      by (simp add: field_value_def)
  qed
  ultimately show ?thesis by blast
qed


lemma log_data_tags_fold:
  assumes "i < length log_data_fields" and "fold_eq (field_tag (log_data_fields ! i)) k"
  shows "lookup_field log_data_fields k = Some i"
proof -
  let ?fs = log_data_fields and ?lw = "\<lambda>f. map ascii_lower (field_tag f)"
  have lower: "?lw (?fs ! j) = field_tag (?fs ! j)" if "j < length ?fs" for j
    using arg_cong [OF log_data_tags_lower, of "\<lambda>xs. xs ! j"] that by simp
  have dl: "distinct (map ?lw ?fs)"
    using log_data_tags_distinct by (simp add: log_data_tags_lower)
  have k: "map ascii_lower k = field_tag (?fs ! i)"
    using assms lower [of i] by (simp add: fold_eq_def)
  show ?thesis
  proof (cases "index_where (\<lambda>f. field_tag f = k) ?fs")
    case None
    have "index_where (\<lambda>f. ?lw f = ?lw (?fs ! i)) ?fs = Some i"
      using dl assms(1) by (rule index_where_distinct)
    moreover have "(\<lambda>f. fold_eq (field_tag f) k) = (\<lambda>f. ?lw f = ?lw (?fs ! i))"
      using k lower [OF assms(1)] by (simp add: fold_eq_def)
    ultimately show ?thesis
      using None by (simp add: lookup_field_distinct [OF log_data_tags_distinct])
  next
    case (Some j)
    from index_where_Some [OF Some] have j: "j < length ?fs" "field_tag (?fs ! j) = k"
      by simp_all
    then have "field_tag (?fs ! j) = field_tag (?fs ! i)"
      using k lower [OF j(1)] by simp
    moreover have "\<forall>a < length ?fs. \<forall>b < length ?fs. a \<noteq> b \<longrightarrow> field_tag (?fs ! a) \<noteq> field_tag (?fs ! b)"
      using log_data_tags_distinct by (simp add: distinct_conv_nth)
    ultimately have "j = i"
      using j(1) assms(1) by blast
    with Some show ?thesis by (simp add: lookup_field_distinct [OF log_data_tags_distinct])
  qed
qed

lemma json_error_consistent: "assertions_consistent json_error_assertions"
  by code_simp

lemma json_fields1_consistent: "assertions_consistent json_fields1_assertions"
  by code_simp

lemma json_fields2_consistent: "assertions_consistent json_fields2_assertions"
  by code_simp

lemma json_fields3_consistent: "assertions_consistent json_fields3_assertions"
  by code_simp

lemma json_fields4_consistent: "assertions_consistent json_fields4_assertions"
  by code_simp


subsection \<open>Properties of the test's decoder\<close>

text \<open>
  \<open>unmarshalLogData\<close> decodes the struct's own encoding: for every \<open>logData\<close> value
  whose fields fit their Go types, \<open>json.Unmarshal\<close> of its \<open>json.Marshal\<close> encoding gives
  the value back; and a key that equals a field's tag up to case always selects that
  field, because the tags are lower case and pairwise distinct.
\<close>

theorem log_data_roundtrip:
  "(struct_fits log_data_fields d \<longrightarrow>
      unmarshal_log_data (marshal_struct log_data_fields d) = Inr d) \<and>
   (i < length log_data_fields \<longrightarrow> fold_eq (field_tag (log_data_fields ! i)) k \<longrightarrow>
      lookup_field log_data_fields k = Some i)"
  using unmarshal_struct_marshal [OF log_data_tags_distinct, of d] log_data_tags_fold [of i k]
  by (simp add: unmarshal_log_data_def marshal_struct_def)

theorem log_data_roundtrip_witness:
  "unmarshal_log_data (marshal_struct log_data_fields (zero_struct log_data_fields)) =
     Inr (zero_struct log_data_fields) \<and>
   lookup_field log_data_fields ''Max-Size'' = Some 103"
proof -
  have fits: "struct_fits log_data_fields (zero_struct log_data_fields)"
    by code_simp
  have key: "103 < length log_data_fields \<and> fold_eq (field_tag (log_data_fields ! 103)) ''Max-Size''"
    by code_simp
  show ?thesis
    using log_data_roundtrip [of "zero_struct log_data_fields" 103 "''Max-Size''"] fits key by simp
qed

text \<open>
  The \<open>require.Equal\<close> assertions of the tests \<open>json error\<close> and \<open>json fields 1\<close> to
  \<open>json fields 4\<close> name fields of \<open>logData\<close>, expect values of the fields' types and never
  two different values for one field; so the JSON line carrying exactly the asserted
  values decodes without error into a \<open>logData\<close> that passes every assertion.
\<close>

lemma json_tests_decodable:
  "(\<exists>d. unmarshal_log_data (expected_output json_error_assertions) = Inr d \<and>
        assertions_hold json_error_assertions d) \<and>
   (\<exists>d. unmarshal_log_data (expected_output json_fields1_assertions) = Inr d \<and>
        assertions_hold json_fields1_assertions d) \<and>
   (\<exists>d. unmarshal_log_data (expected_output json_fields2_assertions) = Inr d \<and>
        assertions_hold json_fields2_assertions d) \<and>
   (\<exists>d. unmarshal_log_data (expected_output json_fields3_assertions) = Inr d \<and>
        assertions_hold json_fields3_assertions d) \<and>
   (\<exists>d. unmarshal_log_data (expected_output json_fields4_assertions) = Inr d \<and>
        assertions_hold json_fields4_assertions d)"
  using assertions_decodable [OF json_error_consistent] assertions_decodable [OF json_fields1_consistent]
    assertions_decodable [OF json_fields2_consistent] assertions_decodable [OF json_fields3_consistent]
    assertions_decodable [OF json_fields4_consistent]
  by blast

text \<open>
  \<open>json fields 1\<close> logs \<open>WithSenderURL(u1)\<close>, and \<open>logData\<close> declares the field
  \<open>Sender\<close>, but no subtest asserts it: a wrong key for the sender goes unnoticed.
\<close>

lemma sender_never_asserted:
  "''Sender'' \<in> set (map fst log_data_fields) \<and>
   ''Sender'' \<notin> set (map fst (json_error_assertions @ json_fields1_assertions @ json_fields2_assertions @
                              json_fields3_assertions @ json_fields4_assertions))"
  by code_simp

end
