(* ===== verification/Spec2Isabelle.thy ===== *)
theory Spec2Isabelle
  imports Orb_Prelude Lifecycle HttpSubscriber Memstore Expiry RestHandlers PolicyDSL WitnessPolicy
    PolicyTests PolicyFlow AmqpPubSub AmqpBroker AmqpReconnect AmqpClose AmqpTests LogTests
begin

text \<open>
  \<^bold>\<open>Verification development for Orb\<close>, the witness/anchoring node of the repository:
  the Go sources under \<open>src/\<close> (the HTTP subscriber, the in-memory ActivityPub store, the
  data-expiry service, the witness-policy configurator and the log URL retriever), together
  with the parts of \<open>pkg/\<close> they call that are not among the sources (the service
  lifecycle, the configuration store, the witness policy language), modelled from the
  specification.

  \<^bold>\<open>Theories.\<close>
  \<^item> \<open>Orb_Prelude\<close>: Go's truncating \<open>/\<close> and \<open>%\<close> (\<open>go_div\<close>, \<open>go_mod\<close>), the
    64-bit wrap-around of \<open>int\<close> (\<open>wrap64\<close>), Go errors as values (\<open>go_error\<close>, with
    \<open>errors_is\<close> for \<open>errors.Is\<close>) and shared list and sum lemmas.
  \<^item> \<open>Lifecycle\<close>: \<open>pkg/lifecycle\<close> (not under \<open>src/\<close>, from the specification): the
    state NotStarted/Started/Stopping/Stopped, \<open>Start\<close>, \<open>Stop\<close> and the not-started error;
    its lemmas show \<open>Start\<close> and \<open>Stop\<close> idempotent and each hook run at most once.
  \<^item> \<open>HttpSubscriber\<close>: \<open>src/unnamed/part_003\<close>, the HTTP subscriber of the pub/sub
    layer. \<open>New\<close> is \<open>sub_new\<close>; \<open>handleMessage\<close>'s authentication and
    unmarshalling are \<open>authenticate\<close> and \<open>handle_prelude\<close>. The concurrent part (the
    per-request handler goroutines blocked in \<open>publish\<close> and on the ack channel, the
    publisher goroutine moving messages from \<open>pubChan\<close> to \<open>msgChan\<close>, \<open>Stop\<close>, and the
    subscriber reading \<open>msgChan\<close>) is the inductive step relation \<open>sub_step\<close> over the
    record \<open>sub_state\<close>: channels as lists with their capacity and closed flags, each
    goroutine as a program counter. Reachable states (\<open>sub_reachable\<close>) satisfy the
    channel, ordering, enqueue and ack invariants, proved by rule induction.
  \<^item> \<open>Memstore\<close>: \<open>src/unnamed/part_004\<close>. \<open>Store\<close>, \<open>activityStore\<close> and
    \<open>referenceStore\<close> are records of maps and lists; every method is a function returning
    \<open>go_error + _\<close>; the paging helpers keep Go's truncating division and the 64-bit
    product of page number and size, and the slice \<open>results[startIdx:]\<close> is
    \<open>go_slice_from\<close>, which panics (\<open>slice_bounds_panic\<close>) outside the slice bounds. \<open>mem_op\<close>/\<open>mem_run\<close> replay a sequence of
    mutations; \<open>ref_bag\<close> abstracts a reference store to a multiset.
  \<^item> \<open>Expiry\<close>: \<open>src/unnamed/part_005\<close>. The registered stores live in an explicit heap
    (\<open>heap\<close>, a map from store names to stores), because the service holds references
    to stores shared with the rest of the program; \<open>sweep\<close> is one tick of
    \<open>deleteExpiredData\<close> over every registered store, with its events (handler calls,
    batch deletes, warnings) returned as a list.
  \<^item> \<open>RestHandlers\<close>: \<open>src/unnamed/part_002\<close> (the policy configurator) and
    \<open>src/pkg/vct/resthandler/retriever.go\<close> (the log URL retriever). The policy parser
    is a parameter \<open>parse\<close>, instantiated below with the DSL parser. The handlers'
    registration (\<open>Path\<close>, \<open>Method\<close>, \<open>Handler\<close>, \<open>New\<close>, \<open>NewRetriever\<close>) is the
    records \<open>policy_configurator\<close> and \<open>log_retriever\<close> with their functions. The
    retriever's \<open>json.Unmarshal\<close> into a \<open>**logConfig\<close> returns no pointer (\<open>None\<close>)
    for a stored JSON \<open>null\<close>, and the dereference that follows is the panic
    \<open>nil_pointer_panic\<close>.
  \<^item> \<open>PolicyDSL\<close>: the witness policy language (not under \<open>src/\<close>; from the
    specification and the tests in \<open>src/unnamed/part_001\<close>): lexer, parser, printer
    and evaluator.
  \<^item> \<open>WitnessPolicy\<close>: the rest of \<open>pkg/config\<close> and the policy cache (not under
    \<open>src/\<close>; from the specification, sections 4.6 and 4.7): \<open>Select\<close> (exclusions,
    the \<open>LogRequired\<close> filter, the requirement of each leaf, \<open>AND\<close> summing, \<open>OR\<close>
    choosing the cheaper alternative that fits, \<open>select_role\<close> taking the first witnesses
    of each role), the helpers \<open>intersection\<close> and \<open>difference\<close> (with a \<open>function\<close>
    whose termination is proved by a measure), the TTL cache (\<open>cache_load\<close>,
    \<open>cache_get\<close>), \<open>New\<close> and \<open>getWitnessPolicyConfig\<close> with its error messages.
  \<^item> \<open>PolicyFlow\<close>: the composition of the configurator (\<open>pc_handler\<close>, \<open>pc_new\<close>
    of \<open>RestHandlers\<close>) with the policy store (\<open>config_policy_store\<close>, reading the key the
    configurator writes) and the policy cache of \<open>WitnessPolicy\<close>: when an update becomes
    visible, and that with the configurator as the only writer the cache never serves a
    policy that does not parse.
  \<^item> \<open>PolicyTests\<close>: the policy package's test file \<open>src/unnamed/part_001\<close>: its mock
    cache and store, and every fixture of \<open>TestEvaluate\<close>, \<open>TestSelect\<close> and the cache
    tests as a definition, with the harnesses \<open>run_eval_case\<close> and \<open>run_select_case\<close>
    that run a fixture through the model.
  \<^item> \<open>AmqpPubSub\<close>: the AMQP pub/sub core and connection manager (not under
    \<open>src/\<close>; from the specification, sections 4.2 and 4.3): the backoff
    \<open>get_redelivery_interval\<close>, the dispatches of one message under a consumer
    (\<open>dispatches\<close>, a \<open>function\<close> over the \<open>delivery-attempt\<close> header whose termination is
    proved by the measure \<open>MaxRedeliveryAttempts + 1 - attempt\<close>), the dial retries
    (\<open>dial\<close>), the channel-bounded pools (\<open>open_channel\<close>, \<open>get_connection\<close>,
    \<open>cm_run\<close>) and the lifecycle guard of \<open>Publish\<close>/\<open>Subscribe\<close>.
  \<^item> \<open>AmqpBroker\<close>: the broker of one topic (from the specification, sections 3, 4.3
    and 6) as the inductive step relation \<open>broker_step\<close> over the record \<open>broker\<close>: the
    primary, wait and redelivery queues (TTL expiry republishes to the primary queue), a
    pool of \<open>n\<close> consumers with prefetch 1 fanned into a channel of capacity \<open>n\<close>, the
    application's \<open>Ack\<close>/\<open>Nack\<close>, and time steps; \<open>broker_reachable\<close> are its runs.
    Its invariants (conservation of messages as a multiset equation, the delivery delay,
    the attempt headers, the pool, and \<open>order_inv\<close>: the deliveries of a message carry the
    headers \<open>0, 1, ...\<close> in order) are proved by rule induction; from the last follows
    the refinement of \<open>dispatches\<close> by the broker's runs.
  \<^item> \<open>AmqpReconnect\<close>: the loss of a pool consumer's connection (specification, sections
    4.2 and 7) as the relation \<open>lossy_step\<close>, which adds to \<open>broker_step\<close> the step
    \<open>consumer_lost\<close>: the broker re-queues the consumer's unacknowledged messages at the
    head of the primary queue with their headers unchanged, and the application's late
    answers are ignored. Conservation, the delay and the pool invariants carry over;
    \<open>lossy_order_inv\<close> states the order of the headers once the repeats of re-queued
    deliveries are collapsed (\<open>collapsed\<close>, by \<open>remdups_adj\<close>).
  \<^item> \<open>AmqpClose\<close>: \<open>Close\<close> (specification, sections 4.1, 4.3 and 5) as the relation
    \<open>close_step\<close> over the closed flag and the broker: before \<open>Close\<close> the broker runs
    with connection loss, \<open>Close\<close> re-queues every held message (\<open>release_all\<close>), and
    afterwards only the broker's timers run. \<open>close_drains\<close> shows that after \<open>Close\<close>
    nothing is delivered, acknowledged or dropped, the pool stays empty and no message is
    lost.
  \<^item> \<open>AmqpTests\<close>: the AMQP test file \<open>src/unnamed/part_006\<close>: its mocks and the
    fixtures of \<open>TestAMQP\<close> (including the run the delayed-delivery subtest expects and
    the pooled subtest's configuration), \<open>TestAMQP_Error\<close> and
    \<open>TestPubSub_GetInterval\<close>.
  \<^item> \<open>LogTests\<close>: the logging test file \<open>src/unnamed/part_000\<close>: \<open>mockObject\<close>, the
    struct \<open>logData\<close> as the list \<open>log_data_fields\<close> of its fields with their JSON tags
    and Go types, \<open>unmarshalLogData\<close> (\<open>unmarshal_log_data\<close>), the URLs and mock objects
    of \<open>TestStandardFields\<close> and the \<open>require.Equal\<close> assertions of its JSON subtests.
    The decoding of \<open>encoding/json\<close> the tests rely on (a library, modelled from its
    documented behaviour on a parsed document) is \<open>unmarshal_struct\<close> with the
    decoders per Go type, and \<open>json.Marshal\<close> is \<open>marshal_struct\<close>.

  \<^bold>\<open>What is proved.\<close> C1--C8 (HttpSubscriber): no send on a closed \<open>msgChan\<close>, FIFO
  delivery, at-most-once delivery, 200 only after an ack, only authenticated requests are
  published, the error statuses, the actor IRI recorded, and (a finding) that a request can
  block forever after \<open>Stop\<close>; C32 and C33 (also HttpSubscriber): \<open>Stop\<close> can
  always complete while the consumer reads \<open>msgChan\<close>, and the channels stay within
  their capacity. C9--C13 and C15--C18 (Memstore): the functional behaviour of add, get,
  delete and query, the reference-store refinement to a multiset, the paging arithmetic,
  that the filters never panic on the slice whatever the page number and size, and (a
  finding) the page-index overflow: a page past the end is read from the wrapped 64-bit
  product (the criteria of \<open>QueryActivities\<close> are a lemma). \<open>LogTests\<close> proves that
  decoding inverts the encoding of \<open>logData\<close>, that every JSON subtest's assertions are
  satisfiable by a line carrying the asserted values (\<open>json_tests_decodable\<close>), and (a
  finding) that the logged \<open>Sender\<close> field is never asserted. C19--C22 (Expiry): a
  sweep removes exactly the expired keys, leaves a failing store unchanged, calls the
  handler with the keys read before it deletes exactly them in one batch, and touches only
  the registered stores. C23 and C24 (RestHandlers): the responses of both handlers on
  every branch, and (a finding) that a stored JSON \<open>null\<close> makes the log URL handler
  panic (the store round trip and the wrapped not-found error are lemmas).
  C25 (here, over \<open>PolicyFlow\<close>): a policy posted to the configurator reaches the
  evaluator through the policy cache at the first read after the cached entry expires,
  and reads before that still see the old policy. C27, C28 and C31 (here, the configurator
  instantiated with the DSL parser of \<open>PolicyDSL\<close>): a printed well-formed policy is
  accepted, stored verbatim and parses back to itself; a 200 answer means the stored text
  parses to a well-formed tree (an out-of-range \<open>MinPercent\<close> is refused with 400, lemma
  \<open>out_of_range_policy_rejected\<close>); and no
  sequence of requests ever stores a policy that does not parse (the specification's
  scenario 4 end to end is a lemma here). \<open>PolicyDSL\<close> itself proves the parse/print
  round trip, the well-formedness of parsed trees, the \<open>LogRequired\<close> filter, the
  monotonicity of evaluation in arriving proofs and scenario 5 (the default policy).
  \<open>WitnessPolicy\<close> proves \<open>Select\<close> sound (what it returns is eligible and satisfies the
  policy), its shortfall error, the cache serving until expiry and keeping the old value
  on a failed reload, and the properties of \<open>intersection\<close> and \<open>difference\<close>.
  \<open>PolicyTests\<close> evaluates which \<open>TestEvaluate\<close> and \<open>TestSelect\<close> subtests the
  specification's evaluator and selector pass, and on which they diverge (findings: the
  tests read \<open>LogRequired\<close> as a requirement on the selected proofs, exclusions by URI,
  and an \<open>OR\<close> that falls back to the alternative that fits), and the cache error tests.
  C30 (AmqpTests): the redelivery loop terminates after at most
  \<open>MaxRedeliveryAttempts + 1\<close> dispatches, exactly that many for a consumer that always
  nacks, 6 in the test \<open>Redelivery attempts reached\<close>, whose total wait stays within the
  test's sleep. \<open>AmqpPubSub\<close> proves the specification's \<open>k + 1\<close> deliveries for a
  message nacked \<open>k\<close> times, the monotone and capped interval, the dial retry count, and
  that no sequence of \<open>getConnection\<close> calls issues a channel above
  \<open>MaxConnectionChannels\<close>; \<open>AmqpTests\<close> shows that \<open>TestPubSub_GetInterval\<close> passes
  exactly for an initial interval of 2 s and a multiplier of 1.5. C26 (AmqpTests, over
  \<open>AmqpBroker\<close>): no run of the broker delivers a message before its publication time plus
  its delivery delay, and the delayed-delivery test's expected run is a run of the broker.
  C34 (AmqpTests): in every run with the pooled test's ten consumers at most ten messages
  are held by the pool, the channel and the application, no message is delivered more than
  \<open>MaxRedeliveryAttempts + 1\<close> times, and every published message is held, acknowledged
  or dropped exactly once. \<open>AmqpBroker\<close> also builds the run in which a message nacked on
  every delivery is redelivered up to \<open>MaxRedeliveryAttempts\<close> times and then dropped;
  with it \<open>AmqpTests\<close> shows (a finding) that the pooled test, which waits for an
  acknowledgement of every message while nacking at random, can wait forever.
  C29 (AmqpTests, over \<open>AmqpBroker\<close>): the broker refines the functional model of
  \<open>AmqpPubSub\<close>: in every run, however consumers and timers interleave, the headers a
  dropped message was delivered with are the dispatches of \<open>dispatches\<close> under an
  always-nacking consumer, those of an acknowledged message the dispatches under a
  consumer that acknowledges the last delivery, and with the configuration of
  \<open>Redelivery attempts reached\<close> a dropped message was delivered 6 times.
  C14 (AmqpTests, over \<open>AmqpReconnect\<close>): with consumers of the pooled test's pool
  losing their connection, the pool still holds at most ten messages, no message is lost
  or duplicated, and the collapsed headers of a dropped message are the dispatches of an
  always-nacking consumer. Re-queueing makes the number of deliveries unbounded
  (\<open>lossy_deliveries_unbounded\<close>): a finding, because the specification promises
  exactly \<open>MaxRedeliveryAttempts + 1\<close> dispatches and the test asserts 6.

  \<^bold>\<open>Bounds and fuel.\<close> No definition needs fuel: every loop of the modelled code is a
  structural recursion over a finite list (the stores, keys, references and tokens) or a
  \<open>function\<close> with a measure (\<open>remdups_uri\<close>, \<open>dispatches\<close>), and the goroutines are a
  step relation, not a function, so that blocking (C8) is a property of the reachable
  states rather than a run out of fuel, and the liveness of \<open>Stop\<close> (C32) is the
  existence of a finite run of steps. Go's \<open>int\<close> is modelled as \<open>int\<close> with
  \<open>wrap64\<close> applied exactly where the code multiplies (\<open>startIndex\<close>); the paging lemma
  C15 assumes the product below \<open>2^63\<close>, and C18 shows what happens above. Durations of
  the AMQP model are milliseconds and the backoff interval is a rational, the exact value of
  the specification's formula.

  \<^bold>\<open>Not modelled.\<close> The OpenAPI stubs (annotations on empty functions); the logging
  helpers and the \<open>zap\<close> encoders (not under \<open>src/\<close> and described by the specification
  only as an interface, so the JSON line a logger call writes, the console test and the
  time, caller and base64 assertions are not modelled; JSON text, non-integer numbers and
  non-ASCII case folding are outside the decoder model); the AMQP wire
  protocol, message payloads and the connection manager's redial after a lost connection; the upper bound on delivery time of the delayed-delivery
  scenario (the broker's scheduling is left free, so only the lower bound and the
  existence of a timely run are proved); the merging of the witnesses selected for both
  roles; timers and the real clock (the expiry service and the cache take the current time
  as an argument). \<open>reverseSort\<close> (\<open>sort.SliceStable\<close> with the index comparator
  \<open>i > j\<close>) is modelled as list reversal, the effect the code intends; Go's sort
  implementation is not modelled, so that this reading of the index comparator is an
  assumption of the model.
\<close>

section \<open>The configurator with the policy language\<close>

text \<open>
  C27. A well-formed policy, printed in the DSL and posted to the policy configurator, is
  accepted with 200 and stored verbatim under the witness policy key, and the stored text
  parses back to the same policy.
\<close>

theorem posted_policy_roundtrip:
  assumes "or_chain (pol_expr p)" and "cs_put_fault cs = None"
  shows "policy_handle parse_policy (Inr (show_policy p)) cs =
           (write_response 200 [], cs\<lparr>cs_data := (cs_data cs)(witness_policy_key \<mapsto> show_policy p)\<rparr>) \<and>
         parse_policy (show_policy p) = Inr p"
  using parse_show_policy [OF assms(1)] assms(2) by (simp add: policy_handle_def cs_put_def)

theorem posted_policy_roundtrip_witness:
  "policy_handle parse_policy (Inr (show_policy \<lparr>pol_expr = POr (PAnd (Leaf (MinPercent 50 Batch))
      (Leaf (OutOf 2 System))) (Leaf (MinPercent 100 System)), log_required = True\<rparr>)) demo_cs =
     (write_response 200 [], demo_cs\<lparr>cs_data := (cs_data demo_cs)(witness_policy_key \<mapsto>
        show_policy \<lparr>pol_expr = POr (PAnd (Leaf (MinPercent 50 Batch)) (Leaf (OutOf 2 System)))
          (Leaf (MinPercent 100 System)), log_required = True\<rparr>)\<rparr>) \<and>
   parse_policy (show_policy \<lparr>pol_expr = POr (PAnd (Leaf (MinPercent 50 Batch))
      (Leaf (OutOf 2 System))) (Leaf (MinPercent 100 System)), log_required = True\<rparr>) =
     Inr \<lparr>pol_expr = POr (PAnd (Leaf (MinPercent 50 Batch)) (Leaf (OutOf 2 System)))
       (Leaf (MinPercent 100 System)), log_required = True\<rparr>"
  by (rule posted_policy_roundtrip) (simp_all add: demo_cs_def)

text \<open>
  C28. The configurator answers 200 only after storing a text that parses to a well-formed
  policy (\<open>AND\<close> binding tighter than \<open>OR\<close>, both to the left, every
  \<open>MinPercent\<close> at most 100).
\<close>

theorem accepted_policy_wellformed:
  assumes "policy_handle parse_policy (Inr s) cs = (r, cs')" and "resp_status r = 200"
  shows "cs_data cs' witness_policy_key = Some s \<and> (\<exists>p. parse_policy s = Inr p \<and> or_chain (pol_expr p))"
  using assms parse_policy_or_chain [of s]
  by (auto simp: policy_handle_def cs_put_def write_response_def split: sum.splits option.splits)

theorem accepted_policy_wellformed_witness:
  "cs_data (snd (policy_handle parse_policy (Inr scen_text) demo_cs)) witness_policy_key = Some scen_text \<and>
   (\<exists>p. parse_policy scen_text = Inr p \<and> or_chain (pol_expr p))"
proof -
  have "parse_policy scen_text = Inr \<lparr>pol_expr = PAnd (Leaf (MinPercent 50 Batch)) (Leaf (MinPercent 50 System)),
      log_required = True\<rparr>"
    by (simp add: scen_text_def parse_policy_def tokens_def parse_expr_def parse_rule_def strip_affixes_def
        parse_args_def parse_nat_def is_dec_digit_def parse_role_def)
  then have "policy_handle parse_policy (Inr scen_text) demo_cs =
      (write_response 200 [], snd (policy_handle parse_policy (Inr scen_text) demo_cs))"
    by (simp add: policy_handle_def cs_put_def demo_cs_def)
  moreover have "resp_status (write_response 200 []) = 200" by (simp add: write_response_def)
  ultimately show ?thesis by (rule accepted_policy_wellformed)
qed

text \<open>
  An out-of-range policy: a policy whose \<open>MinPercent\<close> exceeds 100 is refused with 400 and the store is left
  unchanged; the parser's error is \<open>minimum percent must be between 0 and 100\<close>.
\<close>

theorem out_of_range_policy_rejected:
  "\<not> rule_ok r \<Longrightarrow>
   policy_handle parse_policy (Inr (show_rule r)) cs = (write_response 400 bad_request_response, cs) \<and>
   parse_policy (show_rule r) = Inl (Err ''minimum percent must be between 0 and 100'')"
  using parse_policy_bad_rule [of r] by (simp add: policy_handle_def del: show_rule.simps)

theorem out_of_range_policy_rejected_witness:
  "\<not> rule_ok (MinPercent 150 Batch) \<and>
   policy_handle parse_policy (Inr (show_rule (MinPercent 150 Batch))) demo_cs =
     (write_response 400 bad_request_response, demo_cs) \<and>
   parse_policy (show_rule (MinPercent 150 Batch)) = Inl (Err ''minimum percent must be between 0 and 100'')"
  using out_of_range_policy_rejected [of "MinPercent 150 Batch" demo_cs] by simp

text \<open>
  Scenario 4 of the specification through the configurator: the policy
  \<open>MinPercent(50,batch) AND MinPercent(50,system) LogRequired\<close> is accepted and stored, and
  the stored policy is satisfied by one batch and one system witness with log and proof beside
  one of each without log or proof.
\<close>

theorem scenario_configured_policy_satisfied:
  "(case policy_handle parse_policy (Inr scen_text) demo_cs of (r, cs') \<Rightarrow>
      resp_status r = 200 \<and>
      (case cs_data cs' witness_policy_key of
         Some s \<Rightarrow> (case parse_policy s of Inr p \<Rightarrow> evaluate p scen_witnesses | Inl _ \<Rightarrow> False)
       | None \<Rightarrow> False))"
  using scenario_parse_evaluate
  by (auto simp: policy_handle_def cs_put_def demo_cs_def write_response_def split: sum.splits)

text \<open>
  C31. The policy configurator, parsing request bodies with the witness policy parser,
  never stores a policy that does not parse: after any sequence of requests, the stored
  policy (if any) parses to a well-formed policy tree.
\<close>

theorem configured_policy_parses:
  assumes "stored_policy_parses parse_policy cs"
    and "cs_data (snd (policy_handle_all parse_policy bs cs)) witness_policy_key = Some s"
  shows "\<exists>p. parse_policy s = Inr p \<and> or_chain (pol_expr p)"
proof -
  have "stored_policy_parses parse_policy (snd (policy_handle_all parse_policy bs cs))"
    using assms(1) by (rule policy_handle_all_preserves)
  then obtain p where p: "parse_policy s = Inr p"
    using assms(2) by (cases "parse_policy s") (auto simp: stored_policy_parses_def)
  with parse_policy_or_chain [OF p] show ?thesis by blast
qed

theorem configured_policy_parses_witness:
  "\<exists>p. parse_policy scen_text = Inr p \<and> or_chain (pol_expr p)"
proof -
  have "stored_policy_parses parse_policy demo_cs"
    by (simp add: stored_policy_parses_def demo_cs_def witness_policy_key_def log_url_key_def)
  moreover have "cs_data (snd (policy_handle_all parse_policy [Inr scen_text] demo_cs)) witness_policy_key
                 = Some scen_text"
    by (simp add: policy_handle_def cs_put_def demo_cs_def scen_text_def parse_policy_def tokens_def
        parse_expr_def parse_rule_def strip_affixes_def parse_args_def parse_nat_def is_dec_digit_def
        parse_role_def)
  ultimately show ?thesis by (rule configured_policy_parses)
qed


text \<open>
  C25. A policy update travels from the configurator to the evaluator through the policy
  cache (theory \<open>PolicyFlow\<close>): a configurator created by \<open>New\<close> over a working store
  answers a valid posted policy with 200; reads of the policy cache before its entry
  expires still serve the text it held; the first read at or after the expiry reloads the
  posted text from the store, and \<open>getWitnessPolicyConfig\<close> yields the posted policy.
\<close>

theorem policy_update_flow:
  assumes "parse_policy b = Inr p" and "cs_put_fault cs = None" and "cs_get_fault cs = None"
    and "tc_entry c = Some (v, expiry)"
  shows "resp_status (fst (pc_handler parse_policy (pc_new cs) (Inr b))) = 200 \<and>
         (\<forall>now. now < expiry \<longrightarrow>
            cache_get (config_policy_store (pc_config_store (snd (pc_handler parse_policy (pc_new cs) (Inr b)))))
              now c = (Inr (CacheString v), c)) \<and>
         (\<forall>now. expiry \<le> now \<longrightarrow>
            (let (res, c') = cache_get (config_policy_store
                   (pc_config_store (snd (pc_handler parse_policy (pc_new cs) (Inr b))))) now c
             in policy_config res = Inr p \<and> tc_entry c' = Some (b, now + tc_ttl c)))"
proof (intro conjI allI impI)
  show "resp_status (fst (pc_handler parse_policy (pc_new cs) (Inr b))) = 200"
    using policy_update_visible_after_expiry [OF assms order_refl] by simp
next
  fix now :: int
  assume "now < expiry"
  with assms(4) show "cache_get (config_policy_store
      (pc_config_store (snd (pc_handler parse_policy (pc_new cs) (Inr b))))) now c = (Inr (CacheString v), c)"
    by (rule policy_update_stale_before_expiry)
next
  fix now :: int
  assume "expiry \<le> now"
  from policy_update_visible_after_expiry [OF assms this] show "let (res, c') = cache_get (config_policy_store
      (pc_config_store (snd (pc_handler parse_policy (pc_new cs) (Inr b))))) now c
    in policy_config res = Inr p \<and> tc_entry c' = Some (b, now + tc_ttl c)"
    by simp
qed

theorem policy_update_flow_witness:
  "resp_status (fst (pc_handler parse_policy (pc_new demo_cs) (Inr scen_text))) = 200 \<and>
   cache_get (config_policy_store (pc_config_store (snd (pc_handler parse_policy (pc_new demo_cs) (Inr scen_text)))))
     3 \<lparr>tc_entry = Some (''OutOf(1,batch)'', 5), tc_ttl = 5\<rparr> =
     (Inr (CacheString ''OutOf(1,batch)''), \<lparr>tc_entry = Some (''OutOf(1,batch)'', 5), tc_ttl = 5\<rparr>) \<and>
   (let (res, c') = cache_get (config_policy_store
          (pc_config_store (snd (pc_handler parse_policy (pc_new demo_cs) (Inr scen_text))))) 5
          \<lparr>tc_entry = Some (''OutOf(1,batch)'', 5), tc_ttl = 5\<rparr>
    in policy_config res =
         Inr \<lparr>pol_expr = PAnd (Leaf (MinPercent 50 Batch)) (Leaf (MinPercent 50 System)), log_required = True\<rparr> \<and>
       tc_entry c' = Some (scen_text, 10))"
proof -
  have h: "resp_status (fst (pc_handler parse_policy (pc_new demo_cs) (Inr scen_text))) = 200 \<and>
    (\<forall>now. now < 5 \<longrightarrow>
       cache_get (config_policy_store (pc_config_store (snd (pc_handler parse_policy (pc_new demo_cs) (Inr scen_text)))))
         now \<lparr>tc_entry = Some (''OutOf(1,batch)'', 5), tc_ttl = 5\<rparr> =
       (Inr (CacheString ''OutOf(1,batch)''), \<lparr>tc_entry = Some (''OutOf(1,batch)'', 5), tc_ttl = 5\<rparr>)) \<and>
    (\<forall>now. 5 \<le> now \<longrightarrow>
       (let (res, c') = cache_get (config_policy_store
              (pc_config_store (snd (pc_handler parse_policy (pc_new demo_cs) (Inr scen_text))))) now
              \<lparr>tc_entry = Some (''OutOf(1,batch)'', 5), tc_ttl = 5\<rparr>
        in policy_config res =
             Inr \<lparr>pol_expr = PAnd (Leaf (MinPercent 50 Batch)) (Leaf (MinPercent 50 System)), log_required = True\<rparr> \<and>
           tc_entry c' = Some (scen_text, now + tc_ttl \<lparr>tc_entry = Some (''OutOf(1,batch)'', 5), tc_ttl = 5\<rparr>)))"
    by (rule policy_update_flow [OF scen_text_parses]) (simp_all add: demo_cs_def)
  then show ?thesis
    using h [THEN conjunct2, THEN conjunct2, rule_format, of 5]
          h [THEN conjunct2, THEN conjunct1, rule_format, of 3]
    by (simp add: case_prod_beta)
qed

end
